(* ===== verification/Vchiq_Prelude.thy ===== *)
theory Vchiq_Prelude
  imports "HOL-Library.Word"
begin

unbundle bit_operations_syntax

text \<open>
  Shared ground of the development: the machine integer types of the aarch64 target, the outcome
  type of stateful operations, the interface of the external semaphores, byte level memory, and the
  lemmas on words, lists and ring indices that the component theories use.

  Integers keep their width.  The crate is built with \<^verbatim>\<open>cargo build --release\<close>
  (\<^verbatim>\<open>Makefile.toml\<close>), where Rust arithmetic wraps around, which is what
  \<open>+\<close>, \<open>-\<close> and \<open>*\<close> do on words.  The casts \<open>as usize\<close>, \<open>as u32\<close>
  are \<^const>\<open>ucast\<close>; \<open>as isize\<close> reads a word with \<^const>\<open>sint\<close>.
\<close>

named_theorems word_nat \<open>unsigned value of word arithmetic, as used by the code\<close>
named_theorems frame \<open>what an operation leaves unchanged\<close>
named_theorems outcome \<open>inversion of successful outcomes\<close>

type_synonym u8 = "8 word"
type_synonym u16 = "16 word"
type_synonym u32 = "32 word"
type_synonym usize = "64 word"
type_synonym isize = int

section \<open>Outcomes\<close>

text \<open>
  A stateful operation returns \<open>Ok\<close> a value with the new state, \<open>Err\<close> an error value with
  the state left behind by the early return, or does not return: \<open>Panic\<close> (\<^verbatim>\<open>panic!\<close>,
  \<^verbatim>\<open>assert!\<close>, \<^verbatim>\<open>unwrap\<close> of nothing, \<^verbatim>\<open>todo!\<close>, \<^verbatim>\<open>unimplemented!\<close>,
  \<^verbatim>\<open>unreachable!\<close>, an index out of range), \<open>Blocked\<close> (a blocking wait on a semaphore
  that nobody raises) or \<open>Undef\<close> (an access through a raw pointer outside of the shared memory).
\<close>

datatype ('e, 'a, 's) res =
    Ok 'a 's
  | Err 'e 's
  | Panic string
  | Blocked
  | Undef

fun bind_res :: "('e, 'a, 's) res \<Rightarrow> ('a \<Rightarrow> 's \<Rightarrow> ('e, 'b, 't) res) \<Rightarrow> ('e \<Rightarrow> 's \<Rightarrow> 't) \<Rightarrow> ('e, 'b, 't) res"
where
  "bind_res (Ok a s) f g = f a s"
| "bind_res (Err e s) f g = Err e (g e s)"
| "bind_res (Panic m) f g = Panic m"
| "bind_res Blocked f g = Blocked"
| "bind_res Undef f g = Undef"

text \<open>Sequencing on one state type: Rust's \<^verbatim>\<open>?\<close> on a result whose callee shares the state.\<close>

definition seq_res :: "('e, 'a, 's) res \<Rightarrow> ('a \<Rightarrow> 's \<Rightarrow> ('e, 'b, 's) res) \<Rightarrow> ('e, 'b, 's) res" where
  "seq_res r f = bind_res r f (\<lambda>_ s. s)"

lemma seq_res_simps [simp]:
  "seq_res (Ok a s) f = f a s"
  "seq_res (Err e s) f = Err e s"
  "seq_res (Panic m) f = Panic m"
  "seq_res Blocked f = Blocked"
  "seq_res Undef f = Undef"
  by (simp_all add: seq_res_def)

lemma seq_res_Ok [outcome]:
  "seq_res r f = Ok b t \<longleftrightarrow> (\<exists>a s. r = Ok a s \<and> f a s = Ok b t)"
  by (cases r) auto

lemma bind_res_Ok [outcome]:
  "bind_res r f g = Ok b t \<longleftrightarrow> (\<exists>a s. r = Ok a s \<and> f a s = Ok b t)"
  by (cases r) auto

text \<open>The result of polling a future, \<^verbatim>\<open>core::task::Poll\<close>.\<close>

datatype 'a poll = Ready 'a | Pending

section \<open>Semaphores\<close>

text \<open>
  \<^verbatim>\<open>Semaphore\<close> and \<^verbatim>\<open>AsyncSemaphore\<close> come from the crate \<^verbatim>\<open>ruspiro-lock\<close>, which is not
  part of the repository.  Every operation of the model that touches a semaphore takes the
  operations as an argument; \<open>sem_laws\<close> states the documented behaviour of counting
  semaphores over the value \<open>cnt\<close>.  \<open>None\<close> of \<open>sem_try_down\<close> is \<^verbatim>\<open>Err\<close>; \<open>None\<close> of
  \<open>sem_down\<close> is a call that does not return; \<open>None\<close> of \<open>asem_down\<close> is \<^verbatim>\<open>Poll::Pending\<close>.
\<close>

record 'sem sem_ops =
  sem_new :: "u32 \<Rightarrow> 'sem"
  sem_default :: 'sem
  sem_up :: "'sem \<Rightarrow> 'sem"
  sem_try_down :: "'sem \<Rightarrow> 'sem option"
  sem_down :: "'sem \<Rightarrow> 'sem option"
  asem_new :: "u32 \<Rightarrow> 'sem"
  asem_up :: "'sem \<Rightarrow> 'sem"
  asem_down :: "'sem \<Rightarrow> 'sem option"

definition down_law :: "('sem \<Rightarrow> 'sem option) \<Rightarrow> ('sem \<Rightarrow> nat) \<Rightarrow> bool" where
  "down_law d cnt \<longleftrightarrow>
     (\<forall>s. cnt s = 0 \<longrightarrow> d s = None) \<and>
     (\<forall>s. 0 < cnt s \<longrightarrow> (\<exists>s'. d s = Some s' \<and> cnt s' = cnt s - 1))"

definition sem_laws :: "'sem sem_ops \<Rightarrow> ('sem \<Rightarrow> nat) \<Rightarrow> bool" where
  "sem_laws S cnt \<longleftrightarrow>
     (\<forall>n. cnt (sem_new S n) = unat n) \<and> cnt (sem_default S) = 0 \<and>
     (\<forall>n. cnt (asem_new S n) = unat n) \<and>
     (\<forall>s. cnt (sem_up S s) = Suc (cnt s)) \<and>
     (\<forall>s. cnt (asem_up S s) = Suc (cnt s)) \<and>
     down_law (sem_try_down S) cnt \<and> down_law (sem_down S) cnt \<and> down_law (asem_down S) cnt"

lemma down_lawD:
  assumes "down_law d cnt"
  shows "cnt s = 0 \<Longrightarrow> d s = None"
    and "0 < cnt s \<Longrightarrow> \<exists>s'. d s = Some s' \<and> cnt s' = cnt s - 1"
    and "d s = Some s' \<Longrightarrow> cnt s = Suc (cnt s')"
    and "d s = None \<Longrightarrow> cnt s = 0"
proof -
  show "cnt s = 0 \<Longrightarrow> d s = None" and "0 < cnt s \<Longrightarrow> \<exists>s'. d s = Some s' \<and> cnt s' = cnt s - 1"
    using assms by (auto simp: down_law_def)
  then show "d s = None \<Longrightarrow> cnt s = 0" by fastforce
next
  assume d: "d s = Some s'"
  with assms have "0 < cnt s" by (auto simp: down_law_def)
  with assms obtain s'' where "d s = Some s''" "cnt s'' = cnt s - 1"
    unfolding down_law_def by blast
  with d \<open>0 < cnt s\<close> show "cnt s = Suc (cnt s')" by simp
qed

lemma sem_lawsD:
  assumes "sem_laws S cnt"
  shows "cnt (sem_new S n) = unat n" and "cnt (asem_new S n) = unat n" and "cnt (sem_default S) = 0"
    and "cnt (sem_up S s) = Suc (cnt s)" and "cnt (asem_up S s) = Suc (cnt s)"
    and "down_law (sem_try_down S) cnt" and "down_law (sem_down S) cnt"
    and "down_law (asem_down S) cnt"
  using assms by (simp_all add: sem_laws_def)

text \<open>A counter satisfies the laws; concrete runs of the model use it.\<close>

definition counter_down :: "nat \<Rightarrow> nat option" where
  "counter_down n = (if n = 0 then None else Some (n - 1))"

definition counter_sem :: "nat sem_ops" where
  "counter_sem = \<lparr>sem_new = unat, sem_default = 0, sem_up = Suc, sem_try_down = counter_down,
     sem_down = counter_down, asem_new = unat, asem_up = Suc, asem_down = counter_down\<rparr>"

lemma counter_sem_laws: "sem_laws counter_sem id"
  by (simp add: sem_laws_def down_law_def counter_sem_def counter_down_def)

section \<open>Words\<close>

lemma unat_and_mask:
  fixes x :: "'a::len word"
  shows "unat (x AND mask n) = unat x mod 2 ^ n"
proof -
  have "unat (x AND mask n) = unat (take_bit n x)" by (simp only: take_bit_eq_mask)
  also have "\<dots> = take_bit n (unat x)" by (rule unsigned_take_bit_eq)
  also have "\<dots> = unat x mod 2 ^ n" by (rule take_bit_eq_mod)
  finally show ?thesis .
qed

lemma unat_and_not_mask:
  fixes x :: "'a::len word"
  shows "unat (x AND NOT (mask n)) = unat x div 2 ^ n * 2 ^ n"
proof -
  have "x AND NOT (mask n) = push_bit n (drop_bit n x)"
    by (rule bit_word_eqI) (auto simp: bit_simps)
  then have "unat (x AND NOT (mask n)) = take_bit LENGTH('a) (push_bit n (drop_bit n (unat x)))"
    by (simp add: unsigned_push_bit_eq unsigned_drop_bit_eq take_bit_nat_eq_self)
  also have "\<dots> = unat x div 2 ^ n * 2 ^ n mod 2 ^ LENGTH('a)"
    by (simp add: take_bit_eq_mod push_bit_eq_mult drop_bit_eq_div)
  also have "\<dots> = unat x div 2 ^ n * 2 ^ n"
    by (rule mod_less) (metis div_mod_decomp le_add1 le_less_trans unsigned_less)
  finally show ?thesis .
qed

lemma unat_and_4095 [word_nat]: "unat (x AND 4095 :: usize) = unat x mod 4096"
  using unat_and_mask [of x 12] by (simp add: mask_eq_exp_minus_1)

lemma unat_and_127 [word_nat]: "unat (x AND 127 :: usize) = unat x mod 128"
  using unat_and_mask [of x 7] by (simp add: mask_eq_exp_minus_1)

lemma unat_and_63 [word_nat]: "unat (x AND 63 :: usize) = unat x mod 64"
  using unat_and_mask [of x 6] by (simp add: mask_eq_exp_minus_1)

lemma unat_and_not_7 [word_nat]: "unat (x AND - 8 :: usize) = unat x div 8 * 8"
  using unat_and_not_mask [of x 3] by (simp add: mask_eq_exp_minus_1)

lemma unat_add_small:
  fixes a b :: "'a::len word"
  shows "unat a + unat b < 2 ^ LENGTH('a) \<Longrightarrow> unat (a + b) = unat a + unat b"
  by (simp add: unat_word_ariths)

lemma unat_sub_small:
  fixes a b :: "'a::len word"
  shows "unat b \<le> unat a \<Longrightarrow> unat (a - b) = unat a - unat b"
  by (simp add: unat_sub word_le_nat_alt)

lemma unat_bound: "unat (w :: 'a::len word) < 2 ^ LENGTH('a)"
  by (rule unsigned_less)

lemma unat_plus_one_less:
  fixes i n :: "'a::len word"
  assumes "i < n"
  shows "unat (i + 1) = unat i + 1" "unat i < unat n"
proof -
  show l: "unat i < unat n" using assms by (simp add: word_less_nat_alt)
  then have "unat i + 1 < 2 ^ LENGTH('a)" using unat_bound [of n] by linarith
  then show "unat (i + 1) = unat i + 1" by (simp add: unat_add_small)
qed

lemma unat_of_nat_small [word_nat]:
  "k < 2 ^ LENGTH('a) \<Longrightarrow> unat (of_nat k :: 'a::len word) = k"
  by (simp add: unsigned_of_nat take_bit_nat_eq_self)

lemma unat_of_nat_u32: "k < 2 ^ 32 \<Longrightarrow> unat (of_nat k :: u32) = k"
  by (rule unat_of_nat_small) simp

lemma ucast_of_nat_u32: "(ucast (of_nat k :: usize) :: u32) = of_nat k" if "k < 2 ^ 32"
  using that by (intro word_unat_eq_iff [THEN iffD2])
    (simp add: unsigned_ucast_eq unat_of_nat_small take_bit_nat_eq_self)

lemma word_eq_of_nat: "unat w = n \<Longrightarrow> w = of_nat n"
  by auto

lemma unat_ucast_u32_usize [word_nat]: "unat (ucast (x :: u32) :: usize) = unat x"
  by (simp add: unsigned_ucast_eq take_bit_nat_eq_self_iff order_less_trans [OF unsigned_less])

lemma unat_ucast_usize_u32 [word_nat]: "unat (ucast (x :: usize) :: u32) = unat x mod 2 ^ 32"
  by (simp add: unsigned_ucast_eq take_bit_eq_mod)

section \<open>Positions in slots\<close>

lemma div_same_slot:
  fixes x s n :: nat
  assumes "x mod n + s \<le> n" "0 < s"
  shows "(x + s - 1) div n = x div n"
proof -
  have "x + s - 1 = (x mod n + s - 1) + x div n * n"
    using div_mult_mod_eq [of x n] assms(2) by linarith
  moreover have "x mod n + s - 1 < n" using assms by linarith
  then have "((x mod n + s - 1) + x div n * n) div n = x div n" by simp
  ultimately show ?thesis by simp
qed

lemma div_pred_slot:
  fixes x n :: nat
  assumes "x mod n \<noteq> 0" "0 < n"
  shows "(x - 1) div n = x div n"
proof -
  have "x - 1 = (x mod n - 1) + x div n * n"
    using div_mult_mod_eq [of x n] assms(1) by linarith
  moreover have "x mod n < n" using assms(2) by simp
  then have "x mod n - 1 < n" using assms(2) by linarith
  ultimately show ?thesis by simp
qed

lemma slot_end_le:
  fixes x s n :: nat
  shows "x mod n + s \<le> n \<Longrightarrow> x + s \<le> (x div n + 1) * n"
  using div_mult_mod_eq [of x n] unfolding add_mult_distrib by linarith

lemma next_slot_eq:
  fixes x n :: nat
  assumes "0 < n"
  shows "x + (n - x mod n) = (x div n + 1) * n"
proof -
  have "x mod n < n" using assms by simp
  with div_mult_mod_eq [of x n] show ?thesis unfolding add_mult_distrib by linarith
qed

lemma aligned_room:
  fixes x :: nat
  assumes "8 dvd x" "x < 4096"
  shows "x + 8 \<le> 4096"
proof -
  from assms(1) obtain k where k: "x = 8 * k" by blast
  with assms(2) have "k < 512" by simp
  with k show ?thesis by simp
qed

lemma aligned_mod_room: "8 dvd x \<Longrightarrow> x mod 4096 + 8 \<le> 4096" for x :: nat
  by (rule aligned_room) (simp_all add: dvd_mod)

lemma slot_apart:
  fixes i j x s n :: nat
  assumes "i \<noteq> j" "x + s \<le> n"
  shows "i * n + n \<le> j * n + x \<or> j * n + x + s \<le> i * n"
proof (cases "i < j")
  case True
  then have "(i + 1) * n \<le> j * n" by (intro mult_le_mono1) simp
  then show ?thesis by simp
next
  case False
  then have "(j + 1) * n \<le> i * n" using assms(1) by (intro mult_le_mono1) simp
  then show ?thesis using assms(2) by simp
qed

section \<open>Bytes in memory\<close>

text \<open>The shared memory is addressed by byte; a store of a list of bytes is one volatile write.\<close>

definition load_bytes :: "(nat \<Rightarrow> u8) \<Rightarrow> nat \<Rightarrow> nat \<Rightarrow> u8 list" where
  "load_bytes m a n = map (\<lambda>i. m (a + i)) [0..<n]"

definition store_bytes :: "(nat \<Rightarrow> u8) \<Rightarrow> nat \<Rightarrow> u8 list \<Rightarrow> (nat \<Rightarrow> u8)" where
  "store_bytes m a bs = (\<lambda>x. if a \<le> x \<and> x < a + length bs then bs ! (x - a) else m x)"

lemma length_load_bytes [simp]: "length (load_bytes m a n) = n"
  by (simp add: load_bytes_def)

lemma load_bytes_0 [simp]: "load_bytes m a 0 = []"
  by (simp add: load_bytes_def)

lemma nth_load_bytes: "i < n \<Longrightarrow> load_bytes m a n ! i = m (a + i)"
  by (simp add: load_bytes_def)

lemma load_store_same [simp]: "n = length bs \<Longrightarrow> load_bytes (store_bytes m a bs) a n = bs"
  by (rule nth_equalityI) (auto simp: nth_load_bytes store_bytes_def)

lemma load_store_disjoint:
  "b + n \<le> a \<or> a + length bs \<le> b \<Longrightarrow> load_bytes (store_bytes m a bs) b n = load_bytes m b n"
  by (rule nth_equalityI) (auto simp: nth_load_bytes store_bytes_def)

lemma store_bytes_outside: "x < a \<or> a + length bs \<le> x \<Longrightarrow> store_bytes m a bs x = m x"
  by (auto simp: store_bytes_def)

lemma load_bytes_append:
  "load_bytes m a (n + k) = load_bytes m a n @ load_bytes m (a + n) k"
  by (rule nth_equalityI) (auto simp: nth_load_bytes nth_append)

lemma store_bytes_store: "length as = length bs \<Longrightarrow> store_bytes (store_bytes m a as) a bs = store_bytes m a bs"
  by (auto simp: store_bytes_def fun_eq_iff)

text \<open>Little endian layout of the 32 and 16 bit fields.\<close>

definition bytes_of_u32 :: "u32 \<Rightarrow> u8 list" where
  "bytes_of_u32 w = [ucast w, ucast (drop_bit 8 w), ucast (drop_bit 16 w), ucast (drop_bit 24 w)]"

definition u32_of_bytes :: "u8 list \<Rightarrow> u32" where
  "u32_of_bytes bs = (case bs of
      [b0, b1, b2, b3] \<Rightarrow>
        ucast b0 OR push_bit 8 (ucast b1) OR push_bit 16 (ucast b2) OR push_bit 24 (ucast b3)
    | _ \<Rightarrow> 0)"

definition bytes_of_u16 :: "u16 \<Rightarrow> u8 list" where
  "bytes_of_u16 w = [ucast w, ucast (drop_bit 8 w)]"

definition u16_of_bytes :: "u8 list \<Rightarrow> u16" where
  "u16_of_bytes bs = (case bs of [b0, b1] \<Rightarrow> ucast b0 OR push_bit 8 (ucast b1) | _ \<Rightarrow> 0)"

lemma length_bytes_of_u32 [simp]: "length (bytes_of_u32 w) = 4"
  by (simp add: bytes_of_u32_def)

lemma length_bytes_of_u16 [simp]: "length (bytes_of_u16 w) = 2"
  by (simp add: bytes_of_u16_def)

lemma u32_of_bytes_of_u32 [simp]: "u32_of_bytes (bytes_of_u32 w) = w"
proof -
  have "ucast (ucast w :: u8) OR push_bit 8 (ucast (ucast (drop_bit 8 w) :: u8)) OR
      push_bit 16 (ucast (ucast (drop_bit 16 w) :: u8)) OR
      push_bit 24 (ucast (ucast (drop_bit 24 w) :: u8)) = w" (is "?lhs = w")
  proof (rule bit_word_eqI)
    fix n
    assume "n < LENGTH(32)"
    then consider "n < 8" | "8 \<le> n" "n < 16" | "16 \<le> n" "n < 24" | "24 \<le> n" "n < 32"
      by fastforce
    then show "bit ?lhs n = bit w n" by cases (auto simp: bit_simps)
  qed
  then show ?thesis by (simp add: u32_of_bytes_def bytes_of_u32_def)
qed

lemma u16_of_bytes_of_u16 [simp]: "u16_of_bytes (bytes_of_u16 w) = w"
  by (rule bit_word_eqI) (auto simp: u16_of_bytes_def bytes_of_u16_def bit_simps)

section \<open>Lists and ring indices\<close>

lemma mod_ring_inj:
  fixes i j n :: nat
  assumes "i mod n = j mod n" "r \<le> i" "i < r + n" "r \<le> j" "j < r + n"
  shows "i = j"
proof -
  have le: "a = b" if "a mod n = b mod n" "a \<le> b" "b < a + n" for a b :: nat
  proof -
    from that have "n dvd b - a" by (metis mod_eq_dvd_iff_nat)
    moreover have "b - a < n" using that by simp
    ultimately have "b - a = 0" by (metis nat_dvd_not_less neq0_conv)
    with \<open>a \<le> b\<close> show ?thesis by simp
  qed
  show ?thesis
  proof (cases "i \<le> j")
    case True
    show ?thesis by (rule le) (use assms True in auto)
  next
    case False
    have "j = i" by (rule le) (use assms False in auto)
    then show ?thesis by simp
  qed
qed

fun find_index :: "('a \<Rightarrow> bool) \<Rightarrow> 'a list \<Rightarrow> nat option" where
  "find_index P [] = None"
| "find_index P (x # xs) = (if P x then Some 0 else map_option Suc (find_index P xs))"

lemma find_index_Some:
  "find_index P xs = Some i \<longleftrightarrow> i < length xs \<and> P (xs ! i) \<and> (\<forall>j < i. \<not> P (xs ! j))"
proof (induction xs arbitrary: i)
  case (Cons x xs)
  then show ?case
    by (cases i) (auto simp: All_less_Suc2)
qed simp

lemma find_index_None: "find_index P xs = None \<longleftrightarrow> (\<forall>x \<in> set xs. \<not> P x)"
  by (induction xs) auto

lemma find_index_unique:
  "i < length xs \<Longrightarrow> P (xs ! i) \<Longrightarrow> (\<And>j. j < length xs \<Longrightarrow> P (xs ! j) \<Longrightarrow> j = i) \<Longrightarrow>
   find_index P xs = Some i"
  unfolding find_index_Some by (metis less_trans nat_neq_iff)

lemma map_upt_shift_cong: "(\<And>i. i < n \<Longrightarrow> f (a + i) = g (b + i)) \<Longrightarrow> map f [a..<a + n] = map g [b..<b + n]"
  by (rule nth_equalityI) auto

end
