(* ===== verification/Vchiq_Types.thy ===== *)
theory Vchiq_Types
  imports Vchiq_Prelude
begin

text \<open>
  The types shared by the VCHI and the VCHIQ side (\<^verbatim>\<open>src/types.rs\<close>), the errors of both sides
  (\<^verbatim>\<open>src/vchiq/error.rs\<close>, \<^verbatim>\<open>src/vchi/error.rs\<close>) and the constants of
  \<^verbatim>\<open>src/vchiq/config.rs\<close>.  The number of slots taken by \<^verbatim>\<open>SlotZero\<close> is computed from the
  \<^verbatim>\<open>repr(C)\<close> layout of the shared structures, as \<^verbatim>\<open>mem::size_of\<close> does.
\<close>

section \<open>Identifiers and reasons\<close>

type_synonym service_handle = usize

text \<open>\<^verbatim>\<open>FourCC(u32)\<close>: four characters, the first in the most significant byte.\<close>

definition four_cc_from :: "u8 \<Rightarrow> u8 \<Rightarrow> u8 \<Rightarrow> u8 \<Rightarrow> u32" where
  "four_cc_from b0 b1 b2 b3 =
     push_bit 24 (ucast b0) OR push_bit 16 (ucast b1) OR push_bit 8 (ucast b2) OR push_bit 0 (ucast b3)"

definition char_of_u8 :: "u8 \<Rightarrow> char" where
  "char_of_u8 b = char_of (unat b)"

definition four_cc_fmt :: "u32 \<Rightarrow> string" where
  "four_cc_fmt w =
     [CHR 0x27,
      char_of_u8 (ucast (drop_bit 24 w AND 0xFF)),
      char_of_u8 (ucast (drop_bit 16 w AND 0xFF)),
      char_of_u8 (ucast (drop_bit 8 w AND 0xFF)),
      char_of_u8 (ucast (drop_bit 0 w AND 0xFF)),
      CHR 0x27]"

text \<open>The second \<^verbatim>\<open>FourCC\<close> of \<^verbatim>\<open>src/vchiq/shared/mod.rs\<close>, used for the magic of the slot zero.\<close>

definition shared_four_cc_from :: "u8 \<Rightarrow> u8 \<Rightarrow> u8 \<Rightarrow> u8 \<Rightarrow> u32" where
  "shared_four_cc_from b0 b1 b2 b3 =
     push_bit 24 (ucast b0) OR push_bit 16 (ucast b1) OR push_bit 8 (ucast b2) OR push_bit 0 (ucast b3)"

definition shared_four_cc_fmt :: "u32 \<Rightarrow> string" where
  "shared_four_cc_fmt w =
     [CHR 0x27,
      char_of_u8 (ucast (drop_bit 24 w AND 0xFF)),
      char_of_u8 (ucast (drop_bit 16 w AND 0xFF)),
      char_of_u8 (ucast (drop_bit 8 w AND 0xFF)),
      char_of_u8 (ucast (drop_bit 0 w AND 0xFF)),
      CHR 0x27]"

datatype reason =
    SERVICE_OPENED
  | SERVICE_CLOSED
  | MESSAGE_AVAILABLE
  | BULK_TRANSMIT_DONE
  | BULK_RECEIVE_DONE
  | BULK_TRANSMIT_ABORTED
  | BULK_RECEIVE_ABORTED

text \<open>
  \<^verbatim>\<open>UserData\<close> boxes a \<^verbatim>\<open>dyn Any\<close>.  What the crate itself boxes at this level is a
  \<^verbatim>\<open>ServiceHandle\<close> (\<^verbatim>\<open>vchi::Instance::create_service\<close>); any other value belongs to the client
  and is only passed back to it.
\<close>

datatype user_any = Any_Handle service_handle | Any_Client nat

record ('cb, 'ud) service_params =
  sp_fourcc :: u32
  sp_callback :: "'cb option"
  sp_userdata :: "'ud option"
  sp_version :: u16
  sp_version_min :: u16

section \<open>Errors\<close>

datatype vchiq_error =
    StateNotInitialized
  | AlreadyConnected
  | NotConnected
  | ServiceNotFound service_handle
  | ServiceClosing
  | ServiceAlreadyClosed service_handle
  | UnableToAddService
  | UnableToOpenService service_handle
  | UnableToCloseService service_handle
  | DataMessageWithoutService

datatype vchi_error =
    NotInitialized
  | VchiServiceNotFound service_handle

text \<open>
  \<^verbatim>\<open>BoxError\<close> carries any of the errors that the crate boxes.  \<open>ExternalError\<close> is an error
  handed through from another crate (the mailbox).
\<close>

datatype box_error =
    VchiqErr vchiq_error
  | VchiErr vchi_error
  | GenericErr string
  | ExternalError string

type_synonym ('a, 's) result = "(box_error, 'a, 's) res"

section \<open>Layout of the shared structures\<close>

text \<open>
  A layout is a size and an alignment in bytes.  \<open>c_struct\<close> places the fields in order, each at
  the next multiple of its alignment, and rounds the size up to the alignment of the whole.
\<close>

type_synonym layout = "nat \<times> nat"

definition round_up :: "nat \<Rightarrow> nat \<Rightarrow> nat" where
  "round_up n a = (n + a - 1) div a * a"

fun c_fields_end :: "nat \<Rightarrow> layout list \<Rightarrow> nat" where
  "c_fields_end off [] = off"
| "c_fields_end off ((s, a) # fs) = c_fields_end (round_up off a + s) fs"

definition c_struct :: "layout list \<Rightarrow> layout" where
  "c_struct fs = (let a = foldr (\<lambda>f m. max (snd f) m) fs 1 in (round_up (c_fields_end 0 fs) a, a))"

definition c_offset :: "layout list \<Rightarrow> nat \<Rightarrow> nat" where
  "c_offset fs i = round_up (c_fields_end 0 (take i fs)) (snd (fs ! i))"

definition c_array :: "nat \<Rightarrow> layout \<Rightarrow> layout" where
  "c_array n l = (n * fst l, snd l)"

abbreviation "u16_layout \<equiv> (2, 2) :: layout"
abbreviation "u32_layout \<equiv> (4, 4) :: layout"

section \<open>Configuration\<close>

definition VCHIQ_SLOT_SIZE :: usize where "VCHIQ_SLOT_SIZE = 4096"
definition VCHIQ_SLOT_MASK :: usize where "VCHIQ_SLOT_MASK = VCHIQ_SLOT_SIZE - 1"
definition VCHIQ_MAX_SLOTS :: usize where "VCHIQ_MAX_SLOTS = 128"
definition VCHIQ_MAX_SLOTS_PER_SIDE :: usize where "VCHIQ_MAX_SLOTS_PER_SIDE = 64"
definition VCHIQ_SLOT_QUEUE_MASK :: usize where
  "VCHIQ_SLOT_QUEUE_MASK = VCHIQ_MAX_SLOTS_PER_SIDE - 1"
definition VCHIQ_MAX_SERVICES :: usize where "VCHIQ_MAX_SERVICES = 4096"
definition VCHIQ_NUM_SERVICE_BULKS :: usize where "VCHIQ_NUM_SERVICE_BULKS = 4"
definition VCHIQ_NUM_CURRENT_BULKS :: usize where "VCHIQ_NUM_CURRENT_BULKS = 32"
definition MAX_FRAGMENTS :: usize where "MAX_FRAGMENTS = VCHIQ_NUM_CURRENT_BULKS * 2"
definition MAX_COMPLETIONS :: usize where "MAX_COMPLETIONS = 128"
definition MSG_QUEUE_SIZE :: usize where "MSG_QUEUE_SIZE = 128"

text \<open>\<^verbatim>\<open>DebugInfo\<close> of \<^verbatim>\<open>sharedstate.rs\<close>: only the discriminants are used, as indices and length.\<close>

definition DebugInfo_ENTRIES :: nat where "DebugInfo_ENTRIES = 0"
definition DebugInfo_MAX :: nat where "DebugInfo_MAX = 11"

text \<open>The fields of the shared structures, in the order of their declaration.\<close>

definition event_fields :: "layout list" where
  "event_fields = [u32_layout, u32_layout, u32_layout]"

definition event_layout :: layout where
  "event_layout = c_struct event_fields"

definition shared_state_fields :: "layout list" where
  "shared_state_fields =
     [u32_layout, u32_layout, u32_layout, u32_layout, event_layout, u32_layout, event_layout,
      u32_layout, event_layout, event_layout,
      c_array (unat VCHIQ_MAX_SLOTS_PER_SIDE) u32_layout, c_array DebugInfo_MAX u32_layout]"

definition shared_state_layout :: layout where
  "shared_state_layout = c_struct shared_state_fields"

definition slot_info_fields :: "layout list" where
  "slot_info_fields = [u16_layout, u16_layout]"

definition slot_info_layout :: layout where
  "slot_info_layout = c_struct slot_info_fields"

definition slot_zero_fields :: "layout list" where
  "slot_zero_fields =
     [u32_layout, u16_layout, u16_layout, u32_layout, u32_layout, u32_layout, u32_layout,
      c_array 2 u32_layout, shared_state_layout, shared_state_layout,
      c_array (unat VCHIQ_MAX_SLOTS) slot_info_layout]"

definition slot_zero_layout :: layout where
  "slot_zero_layout = c_struct slot_zero_fields"

definition size_of_SlotZero :: usize where
  "size_of_SlotZero = of_nat (fst slot_zero_layout)"

definition VCHIQ_SLOT_ZERO_SLOTS :: usize where
  "VCHIQ_SLOT_ZERO_SLOTS = (size_of_SlotZero + VCHIQ_SLOT_SIZE - 1) div VCHIQ_SLOT_SIZE"

definition TOTAL_SLOTS :: usize where
  "TOTAL_SLOTS = VCHIQ_SLOT_ZERO_SLOTS + 2 * 32"

lemmas config_defs =
  VCHIQ_SLOT_SIZE_def VCHIQ_SLOT_MASK_def VCHIQ_MAX_SLOTS_def VCHIQ_MAX_SLOTS_PER_SIDE_def
  VCHIQ_SLOT_QUEUE_MASK_def VCHIQ_MAX_SERVICES_def VCHIQ_NUM_SERVICE_BULKS_def
  VCHIQ_NUM_CURRENT_BULKS_def MAX_FRAGMENTS_def MAX_COMPLETIONS_def MSG_QUEUE_SIZE_def
  DebugInfo_ENTRIES_def DebugInfo_MAX_def

lemma VCHIQ_SLOT_MASK_val: "VCHIQ_SLOT_MASK = 4095"
  by (simp add: config_defs)

lemma VCHIQ_SLOT_QUEUE_MASK_val: "VCHIQ_SLOT_QUEUE_MASK = 63"
  by (simp add: config_defs)

lemmas slot_consts = VCHIQ_SLOT_SIZE_def VCHIQ_SLOT_MASK_val VCHIQ_SLOT_QUEUE_MASK_val

lemma size_of_SlotZero_val: "size_of_SlotZero = 1288"
  by code_simp

lemma VCHIQ_SLOT_ZERO_SLOTS_val: "VCHIQ_SLOT_ZERO_SLOTS = 1"
  by (simp add: VCHIQ_SLOT_ZERO_SLOTS_def size_of_SlotZero_val VCHIQ_SLOT_SIZE_def)

lemma TOTAL_SLOTS_val: "TOTAL_SLOTS = 65"
  by (simp add: TOTAL_SLOTS_def VCHIQ_SLOT_ZERO_SLOTS_val)

lemma four_cc_byte:
  "ucast (drop_bit 24 (four_cc_from b0 b1 b2 b3) AND 0xFF) = b0"
  "ucast (drop_bit 16 (four_cc_from b0 b1 b2 b3) AND 0xFF) = b1"
  "ucast (drop_bit 8 (four_cc_from b0 b1 b2 b3) AND 0xFF) = b2"
  "ucast (drop_bit 0 (four_cc_from b0 b1 b2 b3) AND 0xFF) = b3"
proof -
  have m: "(0xFF :: u32) = mask 8" by (simp add: mask_eq_exp_minus_1)
  note s = four_cc_from_def m bit_simps
  show "ucast (drop_bit 24 (four_cc_from b0 b1 b2 b3) AND 0xFF) = b0"
    by (rule bit_word_eqI) (auto simp: s dest: bit_imp_le_length)
  show "ucast (drop_bit 16 (four_cc_from b0 b1 b2 b3) AND 0xFF) = b1"
    by (rule bit_word_eqI) (auto simp: s dest: bit_imp_le_length)
  show "ucast (drop_bit 8 (four_cc_from b0 b1 b2 b3) AND 0xFF) = b2"
    by (rule bit_word_eqI) (auto simp: s dest: bit_imp_le_length)
  show "ucast (drop_bit 0 (four_cc_from b0 b1 b2 b3) AND 0xFF) = b3"
    by (rule bit_word_eqI) (auto simp: s dest: bit_imp_le_length)
qed

lemma shared_four_cc_fmt_eq: "shared_four_cc_fmt = four_cc_fmt"
  by (simp add: shared_four_cc_fmt_def four_cc_fmt_def fun_eq_iff)

lemma shared_four_cc_from_eq: "shared_four_cc_from = four_cc_from"
  by (simp add: shared_four_cc_from_def four_cc_from_def fun_eq_iff)

text \<open>
  A four character code prints as its four characters between quotes, so different codes print
  differently.
\<close>

theorem four_cc_fmt_roundtrip:
  "four_cc_fmt (four_cc_from b0 b1 b2 b3) =
     [CHR 0x27, char_of_u8 b0, char_of_u8 b1, char_of_u8 b2, char_of_u8 b3, CHR 0x27]"
  by (simp only: four_cc_fmt_def four_cc_byte)

end
