(* ===== verification/Slot_Message.thy ===== *)
theory Slot_Message
  imports Vchiq_Types
begin

text \<open>
  \<^verbatim>\<open>src/vchiq/shared/slotmessage.rs\<close>: the message types, the message header with its 32 bit
  id, and the computation of the space a message takes in a slot.
\<close>

section \<open>Message types\<close>

datatype message_type =
    PADDING | CONNECT | OPEN_MSG | OPENACK | CLOSE | DATA | BULK_RX | BULK_TX | BULK_RX_DONE
  | BULK_TX_DONE | PAUSE | RESUME | REMOTE_USE | REMOTE_RELEASE | REMOTE_USE_ACTIVE

text \<open>The discriminants of the \<^verbatim>\<open>repr(u32)\<close> enum, and \<^verbatim>\<open>From<u32>\<close>, which is partial:
  \<open>None\<close> is \<^verbatim>\<open>unreachable!()\<close>.\<close>

fun message_type_code :: "message_type \<Rightarrow> u32" where
  "message_type_code PADDING = 0"
| "message_type_code CONNECT = 1"
| "message_type_code OPEN_MSG = 2"
| "message_type_code OPENACK = 3"
| "message_type_code CLOSE = 4"
| "message_type_code DATA = 5"
| "message_type_code BULK_RX = 6"
| "message_type_code BULK_TX = 7"
| "message_type_code BULK_RX_DONE = 8"
| "message_type_code BULK_TX_DONE = 9"
| "message_type_code PAUSE = 10"
| "message_type_code RESUME = 11"
| "message_type_code REMOTE_USE = 12"
| "message_type_code REMOTE_RELEASE = 13"
| "message_type_code REMOTE_USE_ACTIVE = 14"

definition message_type_from :: "u32 \<Rightarrow> message_type option" where
  "message_type_from orig =
     (if orig = 0 then Some PADDING
      else if orig = 1 then Some CONNECT
      else if orig = 2 then Some OPEN_MSG
      else if orig = 3 then Some OPENACK
      else if orig = 4 then Some CLOSE
      else if orig = 5 then Some DATA
      else if orig = 6 then Some BULK_RX
      else if orig = 7 then Some BULK_TX
      else if orig = 8 then Some BULK_RX_DONE
      else if orig = 9 then Some BULK_TX_DONE
      else if orig = 10 then Some PAUSE
      else if orig = 11 then Some RESUME
      else if orig = 12 then Some REMOTE_USE
      else if orig = 13 then Some REMOTE_RELEASE
      else if orig = 14 then Some REMOTE_USE_ACTIVE
      else None)"

section \<open>Headers and messages\<close>

record slot_header =
  msgid :: u32
  msg_size :: u32

record slot_message =
  header :: slot_header
  msg_data :: "u8 list"

definition size_of_header :: usize where "size_of_header = 8"

definition header_bytes :: "slot_header \<Rightarrow> u8 list" where
  "header_bytes h = bytes_of_u32 (msgid h) @ bytes_of_u32 (msg_size h)"

definition header_of_bytes :: "u8 list \<Rightarrow> slot_header" where
  "header_of_bytes bs = \<lparr>msgid = u32_of_bytes (take 4 bs), msg_size = u32_of_bytes (take 4 (drop 4 bs))\<rparr>"

lemma length_header_bytes [simp]: "length (header_bytes h) = 8"
  by (simp add: header_bytes_def)

lemma header_of_header_bytes [simp]: "header_of_bytes (header_bytes h) = h"
  by (simp add: header_of_bytes_def header_bytes_def)

lemma header_update_all [simp]: "(h :: slot_header)\<lparr>msgid := a, msg_size := b\<rparr> = \<lparr>msgid = a, msg_size = b\<rparr>"
  by simp

section \<open>Message ids\<close>

definition make_msg_id :: "message_type \<Rightarrow> u32 \<Rightarrow> u32 \<Rightarrow> u32" where
  "make_msg_id msg_type src_port dst_port =
     push_bit 24 (message_type_code msg_type) OR push_bit 12 src_port OR push_bit 0 dst_port"

definition msg_type_from_id :: "u32 \<Rightarrow> message_type option" where
  "msg_type_from_id mid = message_type_from (drop_bit 24 mid)"

definition dst_port_from_id :: "u32 \<Rightarrow> u32" where
  "dst_port_from_id mid = mid AND 0xfff"

definition src_port_from_id :: "u32 \<Rightarrow> u32" where
  "src_port_from_id mid = drop_bit 12 mid AND 0xfff"

definition VCHIQ_MSGID_PADDING :: u32 where
  "VCHIQ_MSGID_PADDING = make_msg_id PADDING 0 0"

section \<open>Sizes and payloads\<close>

definition calc_msg_stride :: "usize \<Rightarrow> usize" where
  "calc_msg_stride payload_size =
     (let hdr_size = size_of_header; msg_size = hdr_size + payload_size
      in (msg_size + hdr_size - 1) AND NOT (hdr_size - 1))"

text \<open>\<^verbatim>\<open>OpenAckPayload\<close> is one \<^verbatim>\<open>u16\<close>, so its size is 2; the conversion reads it from the payload.\<close>

definition open_ack_try_from :: "slot_message \<Rightarrow> box_error + u16" where
  "open_ack_try_from m =
     (if (ucast (msg_size (header m)) :: usize) < 2
      then Inl (GenericErr ''unable to convert into OpenAckPayload'')
      else Inr (u16_of_bytes (take 2 (msg_data m))))"

definition vec_u8_try_from :: "slot_message \<Rightarrow> box_error + u8 list" where
  "vec_u8_try_from m = Inr (msg_data m)"

section \<open>Lemmas\<close>

lemma message_type_from_code [simp]: "message_type_from (message_type_code t) = Some t"
  by (cases t) (simp_all add: message_type_from_def)

lemma message_type_code_less: "unat (message_type_code t) \<le> 14"
  by (cases t) simp_all

lemma message_type_from_None: "message_type_from x = None \<longleftrightarrow> 14 < unat x"
proof
  assume "message_type_from x = None"
  then have n: "\<forall>k \<in> {0..14}. x \<noteq> of_nat k"
    by (auto simp: message_type_from_def atLeastAtMost_upt upt_rec split: if_splits)
  show "14 < unat x"
  proof (rule ccontr)
    assume "\<not> 14 < unat x"
    then have "unat x \<in> {0..14}" by simp
    with n have "x \<noteq> of_nat (unat x)" by blast
    then show False by simp
  qed
next
  assume "14 < unat x"
  then have "x \<noteq> of_nat k" if "k \<le> 14" for k
  proof -
    have "unat (of_nat k :: u32) \<le> k" by (simp add: unsigned_of_nat)
    with \<open>14 < unat x\<close> that show ?thesis by auto
  qed
  from this [of 0] this [of 1] this [of 2] this [of 3] this [of 4] this [of 5] this [of 6]
    this [of 7] this [of 8] this [of 9] this [of 10] this [of 11] this [of 12] this [of 13]
    this [of 14]
  show "message_type_from x = None" by (simp add: message_type_from_def)
qed

lemma code_bit_bound: "bit (message_type_code t) n \<Longrightarrow> n < 4"
proof -
  assume "bit (message_type_code t) n"
  moreover have "take_bit 4 (message_type_code t) = message_type_code t"
    by (cases t) (simp_all add: take_bit_eq_mod)
  ultimately show "n < 4" by (metis bit_take_bit_iff)
qed

lemma port_bit_bound: "unat (p :: u32) < 4096 \<Longrightarrow> bit p n \<Longrightarrow> n < 12"
proof -
  assume p: "unat p < 4096" and b: "bit p n"
  have "take_bit 12 p = p"
    by (rule word_unat_eq_iff [THEN iffD2]) (use p in \<open>simp add: unsigned_take_bit_eq take_bit_nat_eq_self\<close>)
  with b show "n < 12" by (metis bit_take_bit_iff)
qed

lemma fff_mask: "(0xfff :: u32) = mask 12"
  by (simp add: mask_eq_exp_minus_1)

lemma make_msg_id_type:
  assumes "unat src < 4096" "unat dst < 4096"
  shows "msg_type_from_id (make_msg_id t src dst) = Some t"
proof -
  have "drop_bit 24 (make_msg_id t src dst) = message_type_code t"
    by (rule bit_word_eqI)
      (auto simp: make_msg_id_def bit_simps dest: code_bit_bound port_bit_bound [OF assms(1)]
        port_bit_bound [OF assms(2)])
  then show ?thesis by (simp add: msg_type_from_id_def)
qed

lemma make_msg_id_src:
  assumes "unat src < 4096" "unat dst < 4096"
  shows "src_port_from_id (make_msg_id t src dst) = src"
  unfolding src_port_from_id_def fff_mask
  by (rule bit_word_eqI)
    (auto simp: make_msg_id_def bit_simps dest: code_bit_bound port_bit_bound [OF assms(1)]
        port_bit_bound [OF assms(2)])

lemma make_msg_id_dst:
  assumes "unat src < 4096" "unat dst < 4096"
  shows "dst_port_from_id (make_msg_id t src dst) = dst"
  unfolding dst_port_from_id_def fff_mask
  by (rule bit_word_eqI)
    (auto simp: make_msg_id_def bit_simps dest: code_bit_bound port_bit_bound [OF assms(1)]
        port_bit_bound [OF assms(2)])

lemma VCHIQ_MSGID_PADDING_val: "VCHIQ_MSGID_PADDING = 0"
  by (simp add: VCHIQ_MSGID_PADDING_def make_msg_id_def)

lemma unat_calc_msg_stride:
  assumes "unat n < 2 ^ 63"
  shows "unat (calc_msg_stride n) = (unat n + 15) div 8 * 8"
proof -
  have e: "calc_msg_stride n = (n + 15) AND - 8"
    by (simp add: calc_msg_stride_def size_of_header_def Let_def algebra_simps)
  have "unat (n + 15) = unat n + 15"
    using assms by (subst unat_add_small) auto
  then show ?thesis by (simp add: e unat_and_not_7)
qed

text \<open>
  C30: The parts of a message id are recovered from it, for every message type and for ports of 12
  bits.
\<close>

theorem msg_id_roundtrip:
  assumes "unat src < 4096" "unat dst < 4096"
  shows "msg_type_from_id (make_msg_id t src dst) = Some t \<and>
    src_port_from_id (make_msg_id t src dst) = src \<and> dst_port_from_id (make_msg_id t src dst) = dst"
  using assms by (simp add: make_msg_id_type make_msg_id_src make_msg_id_dst)

theorem msg_id_roundtrip_witness:
  "msg_type_from_id (make_msg_id OPENACK 4095 17) = Some OPENACK \<and>
    src_port_from_id (make_msg_id OPENACK 4095 17) = 4095 \<and> dst_port_from_id (make_msg_id OPENACK 4095 17) = 17"
  using msg_id_roundtrip [of 4095 17 OPENACK] by simp

text \<open>
  Reading the type of an id fails, by a panic, exactly for the ids whose top byte exceeds the
  largest message type; such an id comes from the VideoCore and is not validated before.
\<close>

theorem msg_type_from_id_panics:
  "msg_type_from_id mid = None \<longleftrightarrow> 14 < unat mid div 2 ^ 24"
  by (simp add: msg_type_from_id_def message_type_from_None drop_bit_eq_div unat_div)

text \<open>
  C31: The stride of a message leaves room for header and payload, is a multiple of the header size
  and wastes less than that, for every payload below \<open>2 ^ 63\<close> bytes.
\<close>

theorem calc_msg_stride_bounds:
  assumes "unat n < 2 ^ 63"
  shows "8 dvd unat (calc_msg_stride n) \<and> unat n + 8 \<le> unat (calc_msg_stride n) \<and>
    unat (calc_msg_stride n) < unat n + 16"
proof -
  have "(unat n + 15) div 8 * 8 \<le> unat n + 15" "unat n + 15 < (unat n + 15) div 8 * 8 + 8"
    by linarith+
  then show ?thesis unfolding unat_calc_msg_stride [OF assms] by simp
qed

theorem calc_msg_stride_bounds_witness:
  "8 dvd unat (calc_msg_stride 5) \<and> unat (5 :: usize) + 8 \<le> unat (calc_msg_stride 5) \<and>
    unat (calc_msg_stride 5) < unat (5 :: usize) + 16"
  using calc_msg_stride_bounds [of 5] by simp

end
