(* ===== verification/Slot.thy ===== *)
theory Slot
  imports Slot_Message
begin

text \<open>
  \<^verbatim>\<open>src/vchiq/shared/slot.rs\<close>: positions in the slot array and the accessor through which
  messages are written to and read from the shared memory.  The memory is byte addressed from the
  start of the slot array; slot \<open>i\<close> occupies the bytes from \<open>4096 * i\<close>.  Accesses go
  through raw pointers, so a message longer than its slot reaches into the next one, and an access
  beyond the last slot is undefined behaviour.

  The locale \<open>message_store\<close> is the contract of this memory for its clients: reading back what was
  stored, and independence of stores that do not overlap.  It is interpreted on the byte level
  definitions; the parsing of a stream of messages is derived from it.
\<close>

section \<open>Positions and accessors\<close>

datatype slot_position = SlotPosition (pos_index: usize) (pos_offset: usize)

record slot_accessor =
  mem :: "nat \<Rightarrow> u8"
  slot_len :: usize

definition slot_accessor_new :: "(nat \<Rightarrow> u8) \<Rightarrow> usize \<Rightarrow> slot_accessor" where
  "slot_accessor_new slot_array len = \<lparr>mem = slot_array, slot_len = len\<rparr>"

definition slot_queue_index_from_pos :: "usize \<Rightarrow> usize" where
  "slot_queue_index_from_pos pos = pos div VCHIQ_SLOT_SIZE"

definition slot_addr :: "slot_position \<Rightarrow> nat" where
  "slot_addr p = unat (pos_index p) * 4096 + unat (pos_offset p AND VCHIQ_SLOT_MASK)"

definition in_memory :: "slot_accessor \<Rightarrow> nat \<Rightarrow> nat \<Rightarrow> bool" where
  "in_memory A a n \<longleftrightarrow> a + n \<le> unat (slot_len A) * 4096"

definition message_bytes :: "slot_message \<Rightarrow> u8 list" where
  "message_bytes m = header_bytes (header m) @ msg_data m"

definition load_message :: "(nat \<Rightarrow> u8) \<Rightarrow> nat \<Rightarrow> nat \<Rightarrow> slot_message" where
  "load_message m a n = \<lparr>header = header_of_bytes (load_bytes m a 8), msg_data = load_bytes m (a + 8) n\<rparr>"

text \<open>
  \<^verbatim>\<open>store_message\<close> reads the message of payload size \<open>n\<close> from the position, hands it to the
  closure \<open>f\<close> with the variables \<open>c\<close> it captures, and writes back what the closure made of it.
\<close>

definition store_message ::
  "slot_accessor \<Rightarrow> nat \<Rightarrow> slot_position \<Rightarrow> (slot_message \<Rightarrow> 'c \<Rightarrow> (slot_message, 'c) result) \<Rightarrow> 'c
   \<Rightarrow> (unit, slot_accessor \<times> 'c) result" where
  "store_message A n p f c =
     (if \<not> 0 < pos_index p then Panic ''assertion failed: slot_pos.0 > 0''
      else if \<not> pos_index p < slot_len A then Panic ''assertion failed: slot_pos.0 < self.len''
      else if \<not> in_memory A (slot_addr p) (8 + n) then Undef
      else bind_res (f (load_message (mem A) (slot_addr p) n) c)
             (\<lambda>m c'. Ok () (A\<lparr>mem := store_bytes (mem A) (slot_addr p) (message_bytes m)\<rparr>, c'))
             (\<lambda>_ c'. (A, c')))"

definition read_message :: "slot_accessor \<Rightarrow> slot_position \<Rightarrow> (slot_message, unit) result" where
  "read_message A p =
     (if \<not> 0 < pos_index p then Panic ''assertion failed: slot_pos.0 > 0''
      else if \<not> pos_index p < slot_len A then Panic ''assertion failed: slot_pos.0 < self.len''
      else if \<not> in_memory A (slot_addr p) 8 then Undef
      else (let msg_hdr = header_of_bytes (load_bytes (mem A) (slot_addr p) 8) in
            if \<not> in_memory A (slot_addr p + 8) (unat (msg_size msg_hdr)) then Undef
            else Ok (load_message (mem A) (slot_addr p) (unat (msg_size msg_hdr))) ()))"

section \<open>Messages in memory\<close>

definition well_sized :: "slot_message \<Rightarrow> bool" where
  "well_sized m \<longleftrightarrow> unat (msg_size (header m)) = length (msg_data m)"

definition message_at :: "(nat \<Rightarrow> u8) \<Rightarrow> nat \<Rightarrow> slot_message \<Rightarrow> bool" where
  "message_at mm a m \<longleftrightarrow> well_sized m \<and> load_bytes mm a (8 + length (msg_data m)) = message_bytes m"

text \<open>The space a message takes in the stream, as the receiver computes it from the header.\<close>

definition stride_of :: "slot_message \<Rightarrow> nat" where
  "stride_of m = unat (calc_msg_stride (ucast (msg_size (header m))))"

definition read_at :: "(nat \<Rightarrow> u8) \<Rightarrow> nat \<Rightarrow> slot_message" where
  "read_at mm a = load_message mm a (unat (msg_size (header_of_bytes (load_bytes mm a 8))))"

definition write_at :: "(nat \<Rightarrow> u8) \<Rightarrow> nat \<Rightarrow> slot_message \<Rightarrow> (nat \<Rightarrow> u8)" where
  "write_at mm a m = store_bytes mm a (message_bytes m)"

lemma length_message_bytes [simp]: "length (message_bytes m) = 8 + length (msg_data m)"
  by (simp add: message_bytes_def)

lemma stride_of_eq: "stride_of m = (unat (msg_size (header m)) + 15) div 8 * 8"
proof -
  have b: "unat (ucast (msg_size (header m)) :: usize) = unat (msg_size (header m))"
    by (rule unat_ucast_u32_usize)
  have "unat (msg_size (header m)) < 2 ^ 32"
    using unsigned_less [of "msg_size (header m)"] by simp
  then show ?thesis
    unfolding stride_of_def by (subst unat_calc_msg_stride) (simp_all add: b)
qed

lemma stride_of_bounds:
  "8 + unat (msg_size (header m)) \<le> stride_of m"
  "stride_of m < unat (msg_size (header m)) + 16"
  "8 dvd stride_of m"
  unfolding stride_of_eq by linarith+ simp

lemma stride_of_pos: "0 < stride_of m"
  using stride_of_bounds(1) [of m] by simp

lemma read_at_message_at:
  assumes "message_at mm a m"
  shows "read_at mm a = m"
proof -
  from assms have l: "load_bytes mm a 8 @ load_bytes mm (a + 8) (length (msg_data m))
      = header_bytes (header m) @ msg_data m" and w: "well_sized m"
    by (simp_all add: message_at_def message_bytes_def load_bytes_append)
  then have "load_bytes mm a 8 = header_bytes (header m)"
    "load_bytes mm (a + 8) (length (msg_data m)) = msg_data m"
    by simp_all
  with w show ?thesis
    by (simp add: read_at_def load_message_def well_sized_def)
qed

lemma write_at_message_at: "well_sized m \<Longrightarrow> message_at (write_at mm a m) a m"
  by (simp add: message_at_def write_at_def)

lemma message_at_cong:
  "(\<And>x. a \<le> x \<Longrightarrow> x < a + 8 + length (msg_data m) \<Longrightarrow> m1 x = m2 x) \<Longrightarrow>
   message_at m1 a m = message_at m2 a m"
proof -
  assume "\<And>x. a \<le> x \<Longrightarrow> x < a + 8 + length (msg_data m) \<Longrightarrow> m1 x = m2 x"
  then have "load_bytes m1 a (8 + length (msg_data m)) = load_bytes m2 a (8 + length (msg_data m))"
    by (intro nth_equalityI) (auto simp: nth_load_bytes)
  then show ?thesis by (simp add: message_at_def)
qed

lemma write_at_frame:
  assumes "message_at mm b m'" "b + stride_of m' \<le> a \<or> a + stride_of m \<le> b" "well_sized m"
  shows "message_at (write_at mm a m) b m'"
proof -
  from assms have "b + (8 + length (msg_data m')) \<le> a \<or> a + (8 + length (msg_data m)) \<le> b"
    using stride_of_bounds(1) [of m] stride_of_bounds(1) [of m']
    by (auto simp: message_at_def well_sized_def)
  then have "message_at (write_at mm a m) b m' = message_at mm b m'"
    by (intro message_at_cong) (auto simp: write_at_def store_bytes_outside)
  with assms(1) show ?thesis by simp
qed

section \<open>The contract of the slot memory\<close>

text \<open>
  What a client of the slot memory relies on: \<open>put\<close> at an address, \<open>holds\<close> as the fact that a
  message lies there, \<open>get\<close> as the way to read it, and the space \<open>sz\<close> that keeps two messages apart.
\<close>

locale message_store =
  fixes put :: "'mem \<Rightarrow> nat \<Rightarrow> 'msg \<Rightarrow> 'mem"
    and get :: "'mem \<Rightarrow> nat \<Rightarrow> 'msg"
    and holds :: "'mem \<Rightarrow> nat \<Rightarrow> 'msg \<Rightarrow> bool"
    and sz :: "'msg \<Rightarrow> nat"
    and ok :: "'msg \<Rightarrow> bool"
  assumes get_holds: "holds M a m \<Longrightarrow> get M a = m"
    and put_holds: "ok m \<Longrightarrow> holds (put M a m) a m"
    and put_frame: "holds M b m' \<Longrightarrow> b + sz m' \<le> a \<or> a + sz m \<le> b \<Longrightarrow> ok m \<Longrightarrow> holds (put M a m) b m'"

text \<open>A stream of messages: each starts where the one before ends.\<close>

fun stream_at :: "('mem \<Rightarrow> nat \<Rightarrow> 'msg \<Rightarrow> bool) \<Rightarrow> ('msg \<Rightarrow> nat) \<Rightarrow> 'mem \<Rightarrow> nat \<Rightarrow> 'msg list \<Rightarrow> bool" where
  "stream_at h z M a [] = True"
| "stream_at h z M a (m # ms) = (h M a m \<and> stream_at h z M (a + z m) ms)"

fun parse_stream :: "('mem \<Rightarrow> nat \<Rightarrow> 'msg) \<Rightarrow> ('msg \<Rightarrow> nat) \<Rightarrow> 'mem \<Rightarrow> nat \<Rightarrow> nat \<Rightarrow> 'msg list" where
  "parse_stream g z M a 0 = []"
| "parse_stream g z M a (Suc n) = g M a # parse_stream g z M (a + z (g M a)) n"

context message_store
begin

lemma parse_stream_at: "stream_at holds sz M a ms \<Longrightarrow> parse_stream get sz M a (length ms) = ms"
  by (induction ms arbitrary: a) (auto dest: get_holds)

lemma stream_at_append:
  "stream_at holds sz M a (ms @ ns) \<longleftrightarrow>
     stream_at holds sz M a ms \<and> stream_at holds sz M (a + sum_list (map sz ms)) ns"
  by (induction ms arbitrary: a) (auto simp: add.assoc)

lemma stream_at_put_apart:
  assumes "stream_at holds sz M a ms" "a + sum_list (map sz ms) \<le> b \<or> b + sz m \<le> a" "ok m"
  shows "stream_at holds sz (put M b m) a ms"
  using assms
proof (induction ms arbitrary: a)
  case (Cons m' ms)
  then show ?case by (auto intro!: put_frame)
qed simp

lemma stream_at_snoc:
  assumes "stream_at holds sz M a ms" "ok m"
  shows "stream_at holds sz (put M (a + sum_list (map sz ms)) m) a (ms @ [m])"
  using assms by (simp add: stream_at_append stream_at_put_apart put_holds)

end

interpretation slot_mem: message_store write_at read_at message_at stride_of well_sized
  by unfold_locales (auto intro: read_at_message_at write_at_message_at write_at_frame)

section \<open>The accessor operations\<close>

lemma slot_addr_bounds:
  "unat (pos_index p) * 4096 \<le> slot_addr p" "slot_addr p < (unat (pos_index p) + 1) * 4096"
  by (simp_all add: slot_addr_def VCHIQ_SLOT_MASK_val unat_and_4095)

lemma store_message_pure:
  assumes "0 < pos_index p" "pos_index p < slot_len A" "in_memory A (slot_addr p) (8 + n)"
    and "\<And>m. length (msg_data m) = n \<Longrightarrow> f m c = Ok (g m) c'"
  shows "store_message A n p f c =
    Ok () (A\<lparr>mem := write_at (mem A) (slot_addr p) (g (load_message (mem A) (slot_addr p) n))\<rparr>, c')"
  using assms by (simp add: store_message_def load_message_def write_at_def)

lemma read_message_at:
  assumes "0 < pos_index p" "pos_index p < slot_len A" "message_at (mem A) (slot_addr p) m"
    and "in_memory A (slot_addr p) (8 + length (msg_data m))"
  shows "read_message A p = Ok m ()"
proof -
  have r: "read_at (mem A) (slot_addr p) = m" using assms(3) by (rule read_at_message_at)
  then have "header_of_bytes (load_bytes (mem A) (slot_addr p) 8) = header m"
    by (auto simp: read_at_def load_message_def)
  with assms r show ?thesis
    by (simp add: read_message_def read_at_def in_memory_def message_at_def well_sized_def Let_def add.assoc)
qed

text \<open>
  C22: What a client stores in a slot is what is read back from it, and a message stored elsewhere
  is not disturbed as long as the two do not overlap; nothing outside of the slot memory is touched.
\<close>

theorem store_message_roundtrip:
  assumes "0 < pos_index p" "pos_index p < slot_len A" "in_memory A (slot_addr p) (8 + length (msg_data m))"
    and "well_sized m" "n = length (msg_data m)"
    and "message_at (mem A) b m'" "b + stride_of m' \<le> slot_addr p \<or> slot_addr p + stride_of m \<le> b"
  shows "\<exists>A'. store_message A n p (\<lambda>_ c. Ok m c) () = Ok () (A', ()) \<and> read_message A' p = Ok m () \<and>
    message_at (mem A') b m' \<and> (\<forall>a \<ge> unat (slot_len A) * 4096. mem A' a = mem A a)"
proof -
  let ?A = "A\<lparr>mem := write_at (mem A) (slot_addr p) m\<rparr>"
  have "store_message A n p (\<lambda>_ c. Ok m c) () = Ok () (?A, ())"
    using store_message_pure [OF assms(1,2), of n "\<lambda>_ c. Ok m c" "()" "\<lambda>_. m" "()"] assms(3,5) by simp
  moreover have "read_message ?A p = Ok m ()"
    using assms(1-4) by (intro read_message_at) (simp_all add: write_at_message_at in_memory_def)
  moreover have "message_at (mem ?A) b m'"
    using slot_mem.put_frame [OF assms(6,7,4)] by simp
  moreover have "\<forall>a \<ge> unat (slot_len A) * 4096. mem ?A a = mem A a"
    using assms(3) by (simp add: write_at_def store_bytes_outside in_memory_def)
  ultimately show ?thesis by blast
qed

text \<open>Three slots of zeros, which hold an empty message everywhere.\<close>

definition zero_slots :: slot_accessor where
  "zero_slots = \<lparr>mem = (\<lambda>_. 0), slot_len = 3\<rparr>"

definition empty_message :: slot_message where
  "empty_message = \<lparr>header = \<lparr>msgid = 0, msg_size = 0\<rparr>, msg_data = []\<rparr>"

lemma empty_message_at: "message_at (mem zero_slots) a empty_message"
  by (simp add: message_at_def well_sized_def empty_message_def message_bytes_def header_bytes_def
      bytes_of_u32_def zero_slots_def load_bytes_def upt_rec)

theorem store_message_roundtrip_witness:
  "\<exists>A'. store_message zero_slots 2 (SlotPosition 2 8)
      (\<lambda>_ c. Ok \<lparr>header = \<lparr>msgid = 7, msg_size = 2\<rparr>, msg_data = [1, 2]\<rparr> c) () = Ok () (A', ()) \<and>
    read_message A' (SlotPosition 2 8) = Ok \<lparr>header = \<lparr>msgid = 7, msg_size = 2\<rparr>, msg_data = [1, 2]\<rparr> () \<and>
    message_at (mem A') 8192 empty_message"
proof -
  let ?m = "\<lparr>header = \<lparr>msgid = 7, msg_size = 2\<rparr>, msg_data = [1, 2]\<rparr>"
  have a: "slot_addr (SlotPosition 2 8) = 8200" by (simp add: slot_addr_def slot_consts)
  have s: "stride_of empty_message = 8" by (simp add: stride_of_eq empty_message_def)
  have "8192 + stride_of empty_message \<le> slot_addr (SlotPosition 2 8) \<or>
      slot_addr (SlotPosition 2 8) + stride_of ?m \<le> 8192"
    by (simp add: a s)
  note apart = this
  have p: "0 < pos_index (SlotPosition 2 8)" "pos_index (SlotPosition 2 8) < slot_len zero_slots"
    "in_memory zero_slots (slot_addr (SlotPosition 2 8)) (8 + length (msg_data ?m))"
    by (simp_all add: a zero_slots_def in_memory_def)
  have m: "well_sized ?m" "2 = length (msg_data ?m)" by (simp_all add: well_sized_def)
  show ?thesis
    using store_message_roundtrip [OF p m empty_message_at apart] by blast
qed

text \<open>
  The accessor refuses the slot zero and slots beyond the memory, for storing and for reading.
\<close>

theorem slot_bounds_checked:
  assumes "pos_index p = 0 \<or> slot_len A \<le> pos_index p"
  shows "(\<exists>msg. store_message A n p f c = Panic msg) \<and> (\<exists>msg. read_message A p = Panic msg)"
  using assms by (auto simp: store_message_def read_message_def not_less)

theorem slot_bounds_checked_witness:
  "(\<exists>msg. store_message zero_slots 2 (SlotPosition 3 0) (\<lambda>m c. Ok m c) () = Panic msg) \<and>
   (\<exists>msg. read_message zero_slots (SlotPosition 3 0) = Panic msg)"
  using slot_bounds_checked [of "SlotPosition 3 0" zero_slots 2 "\<lambda>m c. Ok m c" "()"] by (simp add: zero_slots_def)

end
