(* ===== verification/Service.thy ===== *)
theory Service
  imports Slot
begin

text \<open>
  \<^verbatim>\<open>src/vchiq/service.rs\<close>: services, the user part of a service with its message queue,
  completions and quotas.  A \<^verbatim>\<open>Service\<close> lives behind \<^verbatim>\<open>Arc<RefCell<Service>>\<close> in the vector of
  services of the state, which never drops an entry, so a reference to a service is its index in
  that vector.
\<close>

section \<open>Services\<close>

definition VCHIQ_PORT_FREE :: u32 where "VCHIQ_PORT_FREE = 0x1000"

datatype service_state =
    FREE | HIDDEN | LISTENING | OPENING | OPEN | OPENSYNC | CLOSESENT | CLOSERECVD | CLOSEWAIT | CLOSED

datatype service_option = AUTOCLOSE | SLOT_QUOTA | MESSAGE_QUOTA | SYNCHRONOUS | TRACE

text \<open>
  The closure that \<^verbatim>\<open>vchiq::Instance::create_service\<close> installs is \<open>InternalCallback\<close>; a callback
  brought by a client is opaque.
\<close>

datatype vchiq_callback = InternalCallback | ClientCallback nat

record service_completion =
  sc_reason :: reason
  sc_msg :: "slot_message option"
  sc_userdata :: "user_any option"

record 'sem service_user =
  su_userdata :: "user_any option"
  is_vchi :: bool
  dequeue_pending :: bool
  close_pending :: bool
  message_available_pos :: isize
  msg_insert :: usize
  msg_remove :: usize
  su_insert_event :: 'sem
  su_remove_event :: 'sem
  su_close_event :: 'sem
  msg_queue :: "slot_message option list"

text \<open>The \<^verbatim>\<open>userdata\<close> of a VCHIQ service: what \<^verbatim>\<open>downcast\<close> can find in the box.\<close>

datatype 'sem vchiq_user_data = UD_ServiceUser "'sem service_user" | UD_Any user_any

record bulk =
  bulk_mode :: int
  bulk_dir :: int
  bulk_handle :: int
  bulk_size :: usize
  bulk_remote_size :: usize
  bulk_actual :: usize

record bulk_queue =
  local_insert :: int
  remote_insert :: int
  bq_process :: int
  remote_notify :: int
  bq_remove :: int
  bulks :: "bulk list"

definition bulk_default :: bulk where
  "bulk_default = \<lparr>bulk_mode = 0, bulk_dir = 0, bulk_handle = 0, bulk_size = 0, bulk_remote_size = 0,
     bulk_actual = 0\<rparr>"

definition bulk_queue_default :: bulk_queue where
  "bulk_queue_default = \<lparr>local_insert = 0, remote_insert = 0, bq_process = 0, remote_notify = 0,
     bq_remove = 0, bulks = replicate (unat VCHIQ_NUM_SERVICE_BULKS) bulk_default\<rparr>"

record 'sem service =
  base_fourcc :: u32
  base_callback :: "vchiq_callback option"
  base_userdata :: "'sem vchiq_user_data option"
  srv_handle :: service_handle
  srvstate :: service_state
  localport :: u32
  remoteport :: u32
  public_fourcc :: "u32 option"
  client_id :: int
  auto_close :: bool
  srv_sync :: bool
  closing :: bool
  srv_trace :: bool
  srv_version :: u16
  srv_version_min :: u16
  peer_version :: u16
  service_use_count :: int
  bulk_tx :: bulk_queue
  bulk_rx :: bulk_queue
  remove_event :: 'sem
  bulk_remove_event :: 'sem

type_synonym 'sem vchiq_params = "(vchiq_callback, 'sem vchiq_user_data) service_params"

text \<open>\<^verbatim>\<open>Service::new\<close>; the argument and the second result are the static \<^verbatim>\<open>NEXT_SRV_HANDLE\<close>
  before and after its \<^verbatim>\<open>fetch_add\<close>.\<close>

definition NEXT_SRV_HANDLE_init :: usize where "NEXT_SRV_HANDLE_init = VCHIQ_MAX_SERVICES"

definition service_new :: "'sem sem_ops \<Rightarrow> 'sem vchiq_params \<Rightarrow> usize \<Rightarrow> 'sem service \<times> usize" where
  "service_new S params next_handle =
     (\<lparr>base_fourcc = sp_fourcc params, base_callback = sp_callback params,
       base_userdata = sp_userdata params, srv_handle = next_handle, srvstate = FREE,
       localport = VCHIQ_PORT_FREE, remoteport = VCHIQ_PORT_FREE,
       public_fourcc = Some (sp_fourcc params), client_id = 0, auto_close = True, srv_sync = False,
       closing = False, srv_trace = False, srv_version = sp_version params,
       srv_version_min = sp_version_min params, peer_version = 0, service_use_count = 0,
       bulk_tx = bulk_queue_default, bulk_rx = bulk_queue_default, remove_event = sem_new S 0,
       bulk_remove_event = sem_new S 0\<rparr>, next_handle + 1)"

definition set_state :: "service_state \<Rightarrow> 'sem service \<Rightarrow> 'sem service" where
  "set_state new_state s = s\<lparr>srvstate := new_state\<rparr>"

section \<open>Quotas\<close>

record 'sem service_quota =
  slot_quota :: usize
  slot_use_count :: usize
  message_quota :: usize
  message_use_count :: usize
  quota_event :: 'sem
  previous_tx_index :: isize

definition service_quota_default :: "'sem sem_ops \<Rightarrow> 'sem service_quota" where
  "service_quota_default S = \<lparr>slot_quota = 0, slot_use_count = 0, message_quota = 0,
     message_use_count = 0, quota_event = sem_default S, previous_tx_index = 0\<rparr>"

lemma set_state_simps [simp]:
  "srvstate (set_state x s) = x"
  "localport (set_state x s) = localport s"
  "remoteport (set_state x s) = remoteport s"
  "srv_handle (set_state x s) = srv_handle s"
  "closing (set_state x s) = closing s"
  "remove_event (set_state x s) = remove_event s"
  "base_userdata (set_state x s) = base_userdata s"
  "base_callback (set_state x s) = base_callback s"
  by (simp_all add: set_state_def)

lemma service_new_simps [simp]:
  "srvstate (fst (service_new S p n)) = FREE"
  "srv_handle (fst (service_new S p n)) = n"
  "closing (fst (service_new S p n)) = False"
  "remove_event (fst (service_new S p n)) = sem_new S 0"
  "snd (service_new S p n) = n + 1"
  by (simp_all add: service_new_def)

end
