(* ===== verification/Doorbell.thy ===== *)
theory Doorbell
  imports Vchiq_Types
begin

text \<open>
  \<^verbatim>\<open>src/vchiq/doorbell.rs\<close>: the doorbell registers and the interrupt of the VideoCore.  The model logs the writes to
  registers, each with its address; a read is an argument.  The interrupt controller is another crate and an argument too.
\<close>

section \<open>Registers\<close>

definition PERIPHERAL_BASE :: usize where "PERIPHERAL_BASE = 0x3F000000"

definition DOORBELL_BASE :: usize where "DOORBELL_BASE = PERIPHERAL_BASE + 0xB800"

definition BELL0 :: usize where "BELL0 = DOORBELL_BASE + 0x40"
definition BELL1 :: usize where "BELL1 = DOORBELL_BASE + 0x44"
definition BELL2 :: usize where "BELL2 = DOORBELL_BASE + 0x48"
definition BELL3 :: usize where "BELL3 = DOORBELL_BASE + 0x4c"

lemmas bell_defs = BELL0_def BELL1_def BELL2_def BELL3_def DOORBELL_BASE_def PERIPHERAL_BASE_def

type_synonym mmio_writes = "(usize \<times> u32) list"

section \<open>Operations\<close>

definition activate_doorbell :: "('interrupt \<Rightarrow> 'irq \<Rightarrow> 'irq) \<Rightarrow> 'interrupt \<Rightarrow> 'irq \<Rightarrow> 'irq" where
  "activate_doorbell activate ArmDoorbell0 irq = activate ArmDoorbell0 irq"

definition ring_vc_doorbell :: "mmio_writes \<Rightarrow> mmio_writes" where
  "ring_vc_doorbell w = w @ [(BELL2, 0)]"

text \<open>The handler changes nothing; its result here is whether the bell was for VCHIQ.\<close>

definition vchiq_doorbell_handler :: "(usize \<Rightarrow> u32) \<Rightarrow> bool" where
  "vchiq_doorbell_handler mmio_read =
     (let status = mmio_read BELL0
      in status AND 0x04 \<noteq> 0)"

section \<open>Facts\<close>

text \<open>The four registers are different words of the page of the mailbox and doorbell block.\<close>

lemma bells_distinct: "distinct [BELL0, BELL1, BELL2, BELL3]"
  by (simp add: bell_defs)

lemma bells_aligned: "\<forall>a \<in> {BELL0, BELL1, BELL2, BELL3}. a AND 3 = 0 \<and> a AND NOT 0xFFF = 0x3F00B000"
  by (simp add: bell_defs)

lemma doorbell_bit: "vchiq_doorbell_handler r \<longleftrightarrow> bit (r BELL0) 2"
proof -
  have "r BELL0 AND 2 ^ 2 = 0 \<longleftrightarrow> \<not> bit (r BELL0) 2" by (rule and_exp_eq_0_iff_not_bit)
  then show ?thesis by (simp add: vchiq_doorbell_handler_def)
qed

end
