(* ===== verification/Event.thy ===== *)
theory Event
  imports Doorbell
begin

text \<open>
  \<^verbatim>\<open>src/vchiq/shared/event.rs\<close>: the events through which ARM and VideoCore wake each other.
  An accessor is the shared structure it points to together with the semaphore kept on the ARM side.  The type parameter of
  the accessor, which lets only local events be waited for and only remote ones be signalled, is not kept: one record serves
  for both, and the operations that use it keep to the local or the remote shared state as the types demand.  Barriers
  (\<^verbatim>\<open>dmb\<close>, \<^verbatim>\<open>dsb\<close>) have no effect in a model where every access is seen in program order.
\<close>

section \<open>Event accessor\<close>

record 'sem event_accessor =
  armed :: u32
  fired :: u32
  event_word :: u32
  ev_sem :: "'sem option"

definition event_init :: "'sem event_accessor \<Rightarrow> 'sem option \<Rightarrow> 'sem event_accessor" where
  "event_init e sem =
     (let e = e\<lparr>armed := 0\<rparr>
      in case sem of Some s \<Rightarrow> e\<lparr>ev_sem := Some s\<rparr> | None \<Rightarrow> e)"

definition signal_local :: "'sem sem_ops \<Rightarrow> 'sem event_accessor \<Rightarrow> 'sem event_accessor" where
  "signal_local S e =
     (let e = e\<lparr>armed := 0\<rparr>
      in case ev_sem e of Some s \<Rightarrow> e\<lparr>ev_sem := Some (sem_up S s)\<rparr> | None \<Rightarrow> e)"

text \<open>
  \<^verbatim>\<open>Future::poll\<close> reads \<open>fired\<close> twice; the VideoCore may write the shared structure between the
  two reads, which is the argument \<open>vc\<close>.  \<open>event_wait\<close> is the first poll of \<^verbatim>\<open>wait\<close>.
\<close>

definition event_poll ::
  "'sem sem_ops \<Rightarrow> ('sem event_accessor \<Rightarrow> 'sem event_accessor) \<Rightarrow> 'sem event_accessor
   \<Rightarrow> (unit poll, 'sem event_accessor) result" where
  "event_poll S vc e =
     (if fired e = 0 then
        (let e = vc (e\<lparr>armed := 1\<rparr>) in
         if fired e = 0 then
           (case ev_sem e of
              Some s \<Rightarrow> (case sem_try_down S s of
                  None \<Rightarrow> Ok Pending e
                | Some s' \<Rightarrow> Ok (Ready ()) (e\<lparr>ev_sem := Some s', armed := 0\<rparr>))
            | None \<Rightarrow> Panic ''called wait on event not owned by ARM!'')
         else Ok (Ready ()) (e\<lparr>fired := 0\<rparr>))
      else Ok (Ready ()) (e\<lparr>fired := 0\<rparr>))"

definition event_wait ::
  "'sem sem_ops \<Rightarrow> ('sem event_accessor \<Rightarrow> 'sem event_accessor) \<Rightarrow> 'sem event_accessor
   \<Rightarrow> (unit poll, 'sem event_accessor) result" where
  "event_wait S vc e = event_poll S vc (e\<lparr>armed := 1\<rparr>)"

definition signal_remote :: "'sem event_accessor \<Rightarrow> mmio_writes \<Rightarrow> 'sem event_accessor \<times> mmio_writes" where
  "signal_remote e b =
     (let e = e\<lparr>fired := 1\<rparr>
      in (e, if armed e \<noteq> 0 then ring_vc_doorbell b else b))"

section \<open>Behaviour\<close>

lemma signal_remote_simps [simp]:
  "fired (fst (signal_remote e b)) = 1"
  "armed (fst (signal_remote e b)) = armed e"
  "event_word (fst (signal_remote e b)) = event_word e"
  "ev_sem (fst (signal_remote e b)) = ev_sem e"
  by (simp_all add: signal_remote_def Let_def)

text \<open>Anything the VideoCore may do to an event owned by the ARM side: fire it, or leave it alone.\<close>

definition vc_may_fire :: "('sem event_accessor \<Rightarrow> 'sem event_accessor) \<Rightarrow> bool" where
  "vc_may_fire vc \<longleftrightarrow> (\<forall>e. vc e = e \<or> vc e = e\<lparr>fired := 1\<rparr>)"

text \<open>
  A local signal to an event that a semaphore is attached to makes the next poll ready, even
  when nothing was fired; the ready poll takes the signal away again.
\<close>

theorem event_local_signal:
  assumes "sem_laws S cnt" "vc_may_fire vc" "ev_sem e = Some s"
  shows "\<exists>e'. event_poll S vc (signal_local S e) = Ok (Ready ()) e' \<and> fired e' = 0 \<and>
    (fired e = 0 \<and> vc = id \<longrightarrow> armed e' = 0 \<and> (\<exists>s'. ev_sem e' = Some s' \<and> cnt s' = cnt s))"
proof -
  obtain s' where s': "sem_try_down S (sem_up S s) = Some s'" "cnt s' = cnt s"
    using down_lawD(2) [OF sem_lawsD(6) [OF assms(1)], of "sem_up S s"] sem_lawsD(4) [OF assms(1)] by auto
  let ?e = "signal_local S e"
  have e: "?e = e\<lparr>armed := 0, ev_sem := Some (sem_up S s)\<rparr>" using assms(3) by (simp add: signal_local_def)
  show ?thesis
  proof (cases "fired e \<noteq> 0 \<or> fired (vc (?e\<lparr>armed := 1\<rparr>)) \<noteq> 0")
    case True
    then show ?thesis using s' by (auto simp: event_poll_def Let_def e)
  next
    case False
    moreover have "vc (?e\<lparr>armed := 1\<rparr>) = ?e\<lparr>armed := 1\<rparr>"
      using assms(2) False unfolding vc_may_fire_def by (metis event_accessor.select_convs(2)
          event_accessor.surjective event_accessor.update_convs(2) zero_neq_one)
    ultimately show ?thesis using s' by (simp add: event_poll_def Let_def e)
  qed
qed

theorem event_local_signal_witness:
  "\<exists>e'. event_poll counter_sem id (signal_local counter_sem
      \<lparr>armed = 1, fired = 0, event_word = 0, ev_sem = Some (0 :: nat)\<rparr>) = Ok (Ready ()) e' \<and>
    fired e' = 0 \<and> armed e' = 0 \<and> ev_sem e' = Some 0"
proof -
  have v: "vc_may_fire (id :: nat event_accessor \<Rightarrow> nat event_accessor)" by (simp add: vc_may_fire_def)
  show ?thesis
    using event_local_signal [OF counter_sem_laws v,
        of "\<lparr>armed = 1, fired = 0, event_word = 0, ev_sem = Some (0 :: nat)\<rparr>" 0] by auto
qed

end
