(* ===== verification/Slot_Zero.thy ===== *)
theory Slot_Zero
  imports Event
begin

text \<open>
  The slot zero: \<^verbatim>\<open>src/vchiq/shared/sharedstate.rs\<close>, \<^verbatim>\<open>slotinfo.rs\<close> and \<^verbatim>\<open>slotzero.rs\<close>.  The
  volatile getters and setters that the macros of \<^verbatim>\<open>macros.rs\<close> generate are the selectors and updates
  of the records.  The accessors hold raw pointers into the one shared structure; the records keep
  the structure itself, with the event accessors in the place of the events they point to.  The bytes behind
  the records are in \<open>Shared_Memory\<close>.
\<close>

section \<open>Shared state\<close>

record 'sem shared_state =
  ss_initialized :: u32
  slot_first :: u32
  slot_last :: u32
  slot_sync :: u32
  trigger :: "'sem event_accessor"
  tx_pos :: u32
  recycle :: "'sem event_accessor"
  slot_queue_recycle :: u32
  sync_trigger :: "'sem event_accessor"
  sync_release :: "'sem event_accessor"
  slot_queue :: "u32 list"
  debug :: "u32 list"

record slot_info =
  use_count :: u16
  release_count :: u16

record 'sem slot_zero =
  magic :: u32
  sz_version :: u16
  sz_version_min :: u16
  slot_zero_size :: u32
  slot_size :: u32
  max_slots :: u32
  max_slots_per_side :: u32
  platform_data :: "u32 list"
  sz_remote :: "'sem shared_state"
  sz_local :: "'sem shared_state"
  sz_slots :: "slot_info list"
  total_memory :: usize

text \<open>
  The fixed array lengths of the \<^verbatim>\<open>repr(C)\<close> structures, and the state of accessors that have just been
  created over it: no semaphore is attached to an event yet.
\<close>

definition shared_state_shape :: "'sem shared_state \<Rightarrow> bool" where
  "shared_state_shape s \<longleftrightarrow>
     length (slot_queue s) = unat VCHIQ_MAX_SLOTS_PER_SIDE \<and> length (debug s) = DebugInfo_MAX"

definition slot_zero_shape :: "'sem slot_zero \<Rightarrow> bool" where
  "slot_zero_shape z \<longleftrightarrow> shared_state_shape (sz_remote z) \<and> shared_state_shape (sz_local z) \<and>
     length (platform_data z) = 2 \<and> length (sz_slots z) = unat VCHIQ_MAX_SLOTS"

definition shared_state_accessor_new :: "'sem shared_state \<Rightarrow> 'sem shared_state" where
  "shared_state_accessor_new s = s\<lparr>trigger := (trigger s)\<lparr>ev_sem := None\<rparr>,
     recycle := (recycle s)\<lparr>ev_sem := None\<rparr>, sync_trigger := (sync_trigger s)\<lparr>ev_sem := None\<rparr>,
     sync_release := (sync_release s)\<lparr>ev_sem := None\<rparr>\<rparr>"

definition slot_zero_accessor_new :: "'sem slot_zero \<Rightarrow> usize \<Rightarrow> 'sem slot_zero" where
  "slot_zero_accessor_new inner total_mem = inner\<lparr>
     sz_local := shared_state_accessor_new (sz_local inner),
     sz_remote := shared_state_accessor_new (sz_remote inner), total_memory := total_mem\<rparr>"

section \<open>Initialization\<close>

text \<open>The loop \<^verbatim>\<open>for i in 0..slot_queue_available\<close>, an index beyond the array being a panic.\<close>

function fill_slot_queue :: "u32 \<Rightarrow> u32 \<Rightarrow> u32 \<Rightarrow> u32 list \<Rightarrow> u32 list option" where
  "fill_slot_queue i n first q =
     (if i < n then
        (if unat i < length q then fill_slot_queue (i + 1) n first (q[unat i := i + first]) else None)
      else Some q)"
  by pat_completeness auto
termination
proof (relation "measure (\<lambda>(i, n, _, _). unat n - unat i)")
  fix i n first :: u32 and q :: "u32 list"
  assume "i < n"
  then have "unat (i + 1) = unat i + 1" "unat i < unat n"
    by (rule unat_plus_one_less)+
  then show "((i + 1, n, first, q[unat i := i + first]), i, n, first, q) \<in>
      measure (\<lambda>(i, n, _, _). unat n - unat i)"
    by simp
qed simp

declare fill_slot_queue.simps [simp del]

definition slot_zero_initialize ::
  "'sem sem_ops \<Rightarrow> 'sem slot_zero \<Rightarrow> (usize, 'sem slot_zero) result" where
  "slot_zero_initialize S z0 =
     (let slot_zero_size' = size_of_SlotZero;
          first_data_slot = (slot_zero_size' + VCHIQ_SLOT_SIZE - 1) div VCHIQ_SLOT_SIZE;
          num_slots = total_memory z0 div VCHIQ_SLOT_SIZE - first_data_slot
      in if \<not> 4 \<le> num_slots then Panic ''VCHIQ interface requires at least 4 slots''
         else
          (let z = z0\<lparr>magic := shared_four_cc_from 0x56 0x43 0x48 0x49,
                 sz_version := 8, sz_version_min := 3,
                 slot_zero_size := ucast slot_zero_size', slot_size := ucast VCHIQ_SLOT_SIZE,
                 max_slots := ucast VCHIQ_MAX_SLOTS,
                 max_slots_per_side := ucast VCHIQ_MAX_SLOTS_PER_SIDE\<rparr>;
               remote = (sz_remote z)\<lparr>slot_sync := ucast first_data_slot,
                 slot_first := ucast (first_data_slot + 1),
                 slot_last := ucast (first_data_slot + num_slots div 2 - 1)\<rparr>;
               local = (sz_local z)\<lparr>slot_sync := ucast (first_data_slot + num_slots div 2),
                 slot_first := ucast (first_data_slot + num_slots div 2 + 1),
                 slot_last := ucast (first_data_slot + num_slots - 1),
                 tx_pos := 0\<rparr>;
               slot_queue_available = slot_last local - slot_first local + 1
           in case fill_slot_queue 0 slot_queue_available (slot_first local) (slot_queue local) of
                None \<Rightarrow> Panic ''index out of bounds''
              | Some queue \<Rightarrow>
                  (let local = local\<lparr>slot_queue := queue,
                         debug := (debug local)[DebugInfo_ENTRIES := of_nat DebugInfo_MAX],
                         trigger := event_init (trigger local) (Some (sem_new S 0)),
                         sync_trigger := event_init (sync_trigger local) (Some (sem_new S 0)),
                         sync_release := event_init (sync_release local) (Some (sem_new S 0)),
                         recycle := event_init (recycle local) (Some (sem_new S 0)),
                         ss_initialized := 1\<rparr>
                   in Ok num_slots (z\<lparr>sz_remote := remote, sz_local := local\<rparr>))))"

section \<open>What the initialization sets up\<close>

lemma fill_slot_queue_eq:
  assumes "unat n \<le> length q" "unat i \<le> unat n"
  shows "\<exists>q'. fill_slot_queue i n first q = Some q' \<and> length q' = length q \<and>
     (\<forall>k < length q. q' ! k = (if unat i \<le> k \<and> k < unat n then of_nat k + first else q ! k))"
  using assms
proof (induction i n first q rule: fill_slot_queue.induct)
  case (1 i n first q)
  show ?case
  proof (cases "i < n")
    case True
    then have s: "unat (i + 1) = unat i + 1" and l: "unat i < unat n"
      by (rule unat_plus_one_less)+
    with 1 True have "unat i < length q" by simp
    with 1 True s l obtain q' where q':
      "fill_slot_queue (i + 1) n first (q[unat i := i + first]) = Some q'" "length q' = length q"
      "\<forall>k < length q. q' ! k = (if unat i + 1 \<le> k \<and> k < unat n then of_nat k + first
          else q[unat i := i + first] ! k)"
      by fastforce
    have "q' ! k = (if unat i \<le> k \<and> k < unat n then of_nat k + first else q ! k)"
      if "k < length q" for k
      using q'(3) that l by (cases "k = unat i") auto
    moreover have "fill_slot_queue i n first q = Some q'"
      using True \<open>unat i < length q\<close> q'(1) by (simp add: fill_slot_queue.simps [of i n first q])
    ultimately show ?thesis using q'(2) by blast
  next
    case False
    with 1 have "unat i = unat n" by (simp add: word_less_nat_alt)
    with False show ?thesis by (auto simp: fill_slot_queue.simps [of i n first q])
  qed
qed

text \<open>The ranges of slots of both sides, in terms of the number of data slots.\<close>

definition slots_laid_out :: "nat \<Rightarrow> 'sem slot_zero \<Rightarrow> bool" where
  "slots_laid_out n z \<longleftrightarrow>
     unat (slot_sync (sz_remote z)) = 1 \<and> unat (slot_first (sz_remote z)) = 2 \<and>
     unat (slot_last (sz_remote z)) = n div 2 \<and>
     unat (slot_sync (sz_local z)) = 1 + n div 2 \<and> unat (slot_first (sz_local z)) = 2 + n div 2 \<and>
     unat (slot_last (sz_local z)) = n \<and> tx_pos (sz_local z) = 0 \<and>
     length (slot_queue (sz_local z)) = 64 \<and>
     (\<forall>k < n - n div 2 - 1. unat (slot_queue (sz_local z) ! k) = 2 + n div 2 + k)"

lemma first_data_slot_val: "(size_of_SlotZero + VCHIQ_SLOT_SIZE - 1) div VCHIQ_SLOT_SIZE = 1"
  by (simp add: size_of_SlotZero_val VCHIQ_SLOT_SIZE_def)

lemma num_slots_val:
  assumes "4096 \<le> unat t"
  shows "t div VCHIQ_SLOT_SIZE - 1 = of_nat (unat t div 4096 - 1)"
proof (rule word_unat_eq_iff [THEN iffD2])
  have d: "unat (t div VCHIQ_SLOT_SIZE) = unat t div 4096"
    by (simp add: VCHIQ_SLOT_SIZE_def unat_div)
  have "unat t div 4096 - 1 < 2 ^ 64" using unat_bound [of t] by simp
  then have "unat (of_nat (unat t div 4096 - 1) :: usize) = unat t div 4096 - 1"
    by (intro unat_of_nat_small) simp
  moreover have "unat (t div VCHIQ_SLOT_SIZE - 1) = unat t div 4096 - 1"
    using assms d by (subst unat_sub_small) (simp_all add: Suc_le_eq div_greater_zero_iff)
  ultimately show "unat (t div VCHIQ_SLOT_SIZE - 1) = unat (of_nat (unat t div 4096 - 1) :: usize)"
    by simp
qed

text \<open>The half of the slots that goes to each side, as 32 bit numbers.\<close>

lemma half_slots:
  assumes "n \<le> 128"
  shows "(of_nat n :: usize) div 2 = of_nat (n div 2)"
    and "(ucast (of_nat (n div 2) :: usize) :: u32) = of_nat (n div 2)"
    and "(ucast (of_nat n :: usize) :: u32) = of_nat n"
    and "(ucast (1 + of_nat (n div 2) :: usize) :: u32) = 1 + of_nat (n div 2)"
    and "(ucast (2 + of_nat (n div 2) :: usize) :: u32) = 2 + of_nat (n div 2)"
    and "unat (of_nat (n div 2) :: u32) = n div 2" and "unat (of_nat n :: u32) = n"
    and "unat (1 + of_nat (n div 2) :: u32) = 1 + n div 2"
    and "unat (2 + of_nat (n div 2) :: u32) = 2 + n div 2"
proof -
  show "(of_nat n :: usize) div 2 = of_nat (n div 2)"
    using assms by (intro word_unat_eq_iff [THEN iffD2]) (simp add: unat_div unat_of_nat_small)
  have b: "n div 2 < 2 ^ 32" "1 + n div 2 < 2 ^ 32" "2 + n div 2 < 2 ^ 32" "n < 2 ^ 32"
    using assms by simp_all
  show "(ucast (of_nat (n div 2) :: usize) :: u32) = of_nat (n div 2)"
    "(ucast (of_nat n :: usize) :: u32) = of_nat n"
    "(ucast (1 + of_nat (n div 2) :: usize) :: u32) = 1 + of_nat (n div 2)"
    "(ucast (2 + of_nat (n div 2) :: usize) :: u32) = 2 + of_nat (n div 2)"
    using b [THEN ucast_of_nat_u32] by simp_all
  show "unat (of_nat (n div 2) :: u32) = n div 2" "unat (of_nat n :: u32) = n"
    "unat (1 + of_nat (n div 2) :: u32) = 1 + n div 2"
    "unat (2 + of_nat (n div 2) :: u32) = 2 + n div 2"
    using b [THEN unat_of_nat_u32] by simp_all
qed

lemma local_slots_available:
  assumes "4 \<le> n"
  shows "(of_nat n :: u32) - (2 + of_nat (n div 2)) + 1 = of_nat (n - n div 2 - 1)"
proof -
  have "(of_nat n :: u32) = of_nat ((n - n div 2 - 1) + (n div 2 + 1))" using assms by simp
  then show ?thesis by (simp only: of_nat_add) simp
qed

lemma fill_local_queue:
  assumes "4 \<le> n" "n \<le> 128" "length q0 = 64"
  obtains q where "fill_slot_queue 0 (of_nat (n - n div 2 - 1)) (2 + of_nat (n div 2)) q0 = Some q"
    "length q = 64" "\<forall>k < n - n div 2 - 1. unat (q ! k) = 2 + n div 2 + k"
proof -
  let ?k = "n - n div 2 - 1"
  have u: "unat (of_nat ?k :: u32) = ?k" by (rule unat_of_nat_small) (use assms in simp)
  then have "unat (of_nat ?k :: u32) \<le> length q0" using assms by simp
  from fill_slot_queue_eq [OF this, of 0 "2 + of_nat (n div 2)"] obtain q where
    q: "fill_slot_queue 0 (of_nat ?k) (2 + of_nat (n div 2)) q0 = Some q" "length q = 64"
      "\<forall>k < ?k. q ! k = of_nat k + (2 + of_nat (n div 2))"
    unfolding u using assms by auto
  have "unat (q ! k) = 2 + n div 2 + k" if "k < ?k" for k
  proof -
    have "q ! k = of_nat (k + (n div 2 + 2))" using q(3) that by simp
    moreover have "unat (of_nat (k + (n div 2 + 2)) :: u32) = k + (n div 2 + 2)"
      by (rule unat_of_nat_small) (use assms that in simp)
    ultimately show ?thesis by simp
  qed
  with q(1,2) that show thesis by blast
qed

lemma initialize_ok:
  assumes "4096 * 5 \<le> unat (total_memory z0)" "unat (total_memory z0) < 4096 * 130"
    and "shared_state_shape (sz_local z0)" "n = unat (total_memory z0) div 4096 - 1"
  shows "\<exists>z. slot_zero_initialize S z0 = Ok (of_nat n) z \<and> slots_laid_out n z \<and>
     ss_initialized (sz_local z) = 1 \<and> trigger (sz_remote z) = trigger (sz_remote z0) \<and>
     tx_pos (sz_remote z) = tx_pos (sz_remote z0) \<and>
     slot_queue (sz_remote z) = slot_queue (sz_remote z0) \<and>
     platform_data z = platform_data z0 \<and> total_memory z = total_memory z0"
proof -
  have n: "4 \<le> n" "n \<le> 128" using assms by simp_all
  have len: "length (slot_queue (sz_local z0)) = 64"
    using assms(3) by (simp add: shared_state_shape_def VCHIQ_MAX_SLOTS_PER_SIDE_def)
  obtain q where q: "fill_slot_queue 0 (of_nat (n - n div 2 - 1)) (2 + of_nat (n div 2))
      (slot_queue (sz_local z0)) = Some q" "length q = 64"
      "\<forall>k < n - n div 2 - 1. unat (q ! k) = 2 + n div 2 + k"
    using fill_local_queue [OF n len] by blast
  have num: "total_memory z0 div VCHIQ_SLOT_SIZE - 1 = of_nat n"
    unfolding assms(4) using assms(1) by (intro num_slots_val) simp
  have four: "(4 :: usize) \<le> of_nat n"
    using n by (simp add: word_le_nat_alt unat_of_nat_small)
  have w: "1 + of_nat (n div 2) + 1 = (2 + of_nat (n div 2) :: usize)" by simp
  note h = half_slots [OF n(2)]
  show ?thesis
    unfolding slot_zero_initialize_def Let_def first_data_slot_val num h(1)
    using four q by (simp add: w h local_slots_available [OF n(1)] slots_laid_out_def)
qed

end
