(* ===== verification/Vchiq_State.thy ===== *)
theory Vchiq_State
  imports Service Slot_Zero
begin

text \<open>
  The state of the VCHIQ interface, its construction and initialization, and the lookup of
  services: the first part of \<^verbatim>\<open>src/vchiq/state.rs\<close>.  The locks around the parts of the
  state protect sections that contain no suspension point, so an operation of the model is such a
  section; the places where a future really suspends are separate poll operations.
\<close>

section \<open>The state\<close>

datatype connect_state =
    DISCONNECTED | CONNECTING | CONNECTED | PAUSING | PAUSE_SENT | PAUSED | RESUMING
  | PAUSE_TIMEOUT | RESUME_TIMEOUT

record 'sem slot_state =
  slot_zero :: "'sem slot_zero"
  slot_data :: slot_accessor
  tx_data :: "slot_position option"
  rx_data :: "slot_position option"
  local_tx_pos :: usize
  rx_pos :: usize

record 'sem quota_state =
  previous_data_index :: isize
  data_use_count :: usize
  data_quota :: usize
  service_quotas :: "'sem service_quota list"

record 'sem srv_state =
  services :: "'sem service option list"
  unused_service :: usize

text \<open>
  Beside the fields of \<^verbatim>\<open>State\<close>: the static \<^verbatim>\<open>NEXT_SRV_HANDLE\<close>, the writes to the doorbell
  register, and the writes to the fragment list, which do not go through the slot memory.
\<close>

record 'sem state =
  initialized :: bool
  shm_ptr :: usize
  shm_ptr_phys :: usize
  shm_ptr_layout :: "usize \<times> usize"
  slot_state :: "'sem slot_state"
  conn_state :: connect_state
  slot_queue_available :: usize
  poll_needed :: bool
  quota_state :: "'sem quota_state"
  srv_state :: "'sem srv_state"
  default_slot_quota :: usize
  default_message_quota :: usize
  connect_sem :: 'sem
  slot_available_event :: 'sem
  slot_remove_event :: 'sem
  data_quota_event :: 'sem
  next_srv_handle :: usize
  mmio :: mmio_writes
  fragment_writes :: "(usize \<times> u32) list"

abbreviation services_of :: "'sem state \<Rightarrow> 'sem service option list" where
  "services_of st \<equiv> services (srv_state st)"

abbreviation quotas_of :: "'sem state \<Rightarrow> 'sem service_quota list" where
  "quotas_of st \<equiv> service_quotas (quota_state st)"

section \<open>Construction\<close>

text \<open>
  What comes from the allocator, the MMU and the mailbox.  The content of the allocated memory is
  whatever was there before; \<open>init_slot_zero\<close> is its reading as a \<^verbatim>\<open>SlotZero\<close>.
\<close>

record 'sem platform =
  page_align :: "usize \<Rightarrow> usize"
  page_size :: usize
  alloc :: "usize \<times> usize \<Rightarrow> usize"
  map_memory :: "usize \<Rightarrow> usize \<Rightarrow> usize \<Rightarrow> usize"
  init_mem :: "nat \<Rightarrow> u8"
  init_slot_zero :: "'sem slot_zero"
  set_vchiq_slot_base :: "u32 \<Rightarrow> string + u32"

text \<open>\<^verbatim>\<open>Layout::from_size_align\<close>: the alignment is a power of two and the size, rounded up to it,
  does not exceed \<^verbatim>\<open>isize::MAX\<close>.\<close>

definition layout_from_size_align :: "usize \<Rightarrow> usize \<Rightarrow> (usize \<times> usize) option" where
  "layout_from_size_align sz al =
     (if al \<noteq> 0 \<and> al AND (al - 1) = 0 \<and> unat sz + (unat al - 1) < 2 ^ 63 then Some (sz, al) else None)"

definition fragment_layout :: layout where
  "fragment_layout = c_struct [c_array 32 (1, 1), c_array 32 (1, 1)]"

fun chunks_exact :: "nat \<Rightarrow> 'a list \<Rightarrow> 'a list list" where
  "chunks_exact n xs =
     (if n = 0 \<or> length xs < n then [] else take n xs # chunks_exact n (drop n xs))"

declare chunks_exact.simps [simp del]

text \<open>Each fragment of a chunk gets the address of the next one written to its first word.\<close>

definition init_fragments :: "usize \<Rightarrow> (usize \<times> u32) list" where
  "init_fragments base =
     (let frag = (\<lambda>i. base + of_nat (i * fst fragment_layout))
      in concat (map (map (\<lambda>i. (frag i, ucast (frag (i + 1)))))
           (chunks_exact (unat MAX_FRAGMENTS - 1) [0..<unat MAX_FRAGMENTS])))"

text \<open>The value that \<^verbatim>\<open>State::new\<close> returns in the end, from the parts it has set up.\<close>

definition state_build ::
  "'sem sem_ops \<Rightarrow> usize \<times> usize \<Rightarrow> usize \<Rightarrow> usize \<Rightarrow> 'sem slot_zero \<Rightarrow> slot_accessor
   \<Rightarrow> (usize \<times> u32) list \<Rightarrow> usize \<Rightarrow> 'sem state" where
  "state_build S lay shm phys z data frags next_handle =
     (let available = ucast (slot_last (sz_local z) - slot_first (sz_local z) + 1);
          slot_quota' = available div 2;
          message_quota' = min (slot_quota' * 256) (NOT 0)
      in \<lparr>initialized = False, shm_ptr = shm, shm_ptr_phys = phys, shm_ptr_layout = lay,
          slot_state = \<lparr>slot_zero = z, slot_data = data, tx_data = None, rx_data = None,
            local_tx_pos = 0, rx_pos = 0\<rparr>,
          conn_state = DISCONNECTED, slot_queue_available = available, poll_needed = False,
          quota_state = \<lparr>previous_data_index = -1, data_use_count = 0, data_quota = available - 1,
            service_quotas = replicate (unat VCHIQ_MAX_SERVICES) (service_quota_default S)\<rparr>,
          srv_state = \<lparr>services = replicate (unat VCHIQ_MAX_SERVICES) None, unused_service = 0\<rparr>,
          default_slot_quota = slot_quota', default_message_quota = message_quota',
          connect_sem = asem_new S 0, slot_available_event = sem_new S (ucast available),
          slot_remove_event = sem_new S 0, data_quota_event = sem_new S 0,
          next_srv_handle = next_handle, mmio = [], fragment_writes = frags\<rparr>)"

definition state_new :: "'sem sem_ops \<Rightarrow> 'sem platform \<Rightarrow> usize \<Rightarrow> ('sem state, unit) result" where
  "state_new S P next_handle =
     (let slot_mem_size = page_align P (TOTAL_SLOTS * VCHIQ_SLOT_SIZE)
      in case layout_from_size_align slot_mem_size (page_size P) of
           None \<Rightarrow> Err (GenericErr ''invalid parameters to Layout::from_size_align'') ()
         | Some lay \<Rightarrow>
          (let ptr = alloc P lay;
               phys = ptr OR 0xC0000000;
               shm = map_memory P ptr (fst lay) (push_bit 10 1 OR push_bit 8 2 OR push_bit 2 3);
               slot_zero_offset = (VCHIQ_SLOT_SIZE - shm) AND VCHIQ_SLOT_MASK;
               slot_zero_ptr = shm + slot_zero_offset
           in if \<not> slot_zero_ptr mod VCHIQ_SLOT_SIZE = 0
              then Panic ''assertion failed: slot_zero_ptr as usize % VCHIQ_SLOT_SIZE == 0''
              else bind_res
                (slot_zero_initialize S
                   (slot_zero_accessor_new (init_slot_zero P) (slot_mem_size - slot_zero_offset)))
                (\<lambda>num_slots z.
                  (let data = slot_accessor_new (init_mem P) (num_slots + VCHIQ_SLOT_ZERO_SLOTS);
                       z = z\<lparr>platform_data := (platform_data z)
                              [0 := ucast (phys + slot_mem_size), 1 := ucast MAX_FRAGMENTS]\<rparr>
                   in Ok (state_build S lay shm phys z data (init_fragments (shm + slot_mem_size)) next_handle) ()))
                (\<lambda>_ _. ())))"

section \<open>Initialization and release\<close>

definition state_initialize :: "'sem platform \<Rightarrow> 'sem state \<Rightarrow> (unit, 'sem state) result" where
  "state_initialize P st =
     (let ss = slot_state st;
          slot_index = ucast (slot_sync (sz_local (slot_zero ss)))
      in bind_res
          (store_message (slot_data ss) 0 (SlotPosition slot_index 0)
             (\<lambda>m c. Ok (m\<lparr>header := (header m)\<lparr>msgid := VCHIQ_MSGID_PADDING\<rparr>\<rparr>) c) ())
          (\<lambda>_ (data, _).
            (let st = st\<lparr>slot_state := ss\<lparr>slot_data := data\<rparr>\<rparr>
             in case set_vchiq_slot_base P (ucast (shm_ptr_phys st)) of
                  Inl e \<Rightarrow> Err (ExternalError e) st
                | Inr status \<Rightarrow>
                    if status \<noteq> 0 then Err (GenericErr ''unable to set VCHIQ base address'') st
                    else Ok () (st\<lparr>initialized := True\<rparr>)))
          (\<lambda>_ _. st))"

text \<open>\<^verbatim>\<open>Drop\<close>: the address handed to \<^verbatim>\<open>dealloc\<close>.\<close>

definition state_drop :: "'sem state \<Rightarrow> usize \<times> (usize \<times> usize)" where
  "state_drop st = (shm_ptr_phys st AND NOT 0xC0000000, shm_ptr_layout st)"

section \<open>Looking up services\<close>

definition service_by_port :: "'sem state \<Rightarrow> u32 \<Rightarrow> (nat option, unit) result" where
  "service_by_port st port =
     (if unat port < length (services_of st) then
        (case services_of st ! unat port of
           Some s \<Rightarrow> if srvstate s = FREE then Ok None () else Ok (Some (unat port)) ()
         | None \<Rightarrow> Ok None ())
      else Panic ''index out of bounds'')"

definition has_handle :: "service_handle \<Rightarrow> 'sem service option \<Rightarrow> bool" where
  "has_handle h o_srv = (case o_srv of Some s \<Rightarrow> srv_handle s = h | None \<Rightarrow> False)"

definition service_from_handle :: "'sem state \<Rightarrow> service_handle \<Rightarrow> box_error + nat" where
  "service_from_handle st h =
     (case find_index (has_handle h) (services_of st) of
        Some i \<Rightarrow> Inr i
      | None \<Rightarrow> Inl (VchiqErr (ServiceNotFound h)))"

text \<open>Borrowing a service mutably through its reference.\<close>

definition get_service :: "'sem state \<Rightarrow> nat \<Rightarrow> 'sem service option" where
  "get_service st i = (if i < length (services_of st) then services_of st ! i else None)"

definition update_service :: "nat \<Rightarrow> ('sem service \<Rightarrow> 'sem service) \<Rightarrow> 'sem state \<Rightarrow> 'sem state" where
  "update_service i f st =
     st\<lparr>srv_state := (srv_state st)\<lparr>services := (services_of st)[i := map_option f (services_of st ! i)]\<rparr>\<rparr>"

definition update_quota :: "nat \<Rightarrow> ('sem service_quota \<Rightarrow> 'sem service_quota) \<Rightarrow> 'sem state \<Rightarrow> 'sem state" where
  "update_quota i f st =
     st\<lparr>quota_state := (quota_state st)\<lparr>service_quotas := (quotas_of st)[i := f (quotas_of st ! i)]\<rparr>\<rparr>"

lemma update_service_simps [simp]:
  "slot_state (update_service i f st) = slot_state st"
  "quota_state (update_service i f st) = quota_state st"
  "next_srv_handle (update_service i f st) = next_srv_handle st"
  "slot_queue_available (update_service i f st) = slot_queue_available st"
  "unused_service (srv_state (update_service i f st)) = unused_service (srv_state st)"
  "length (services_of (update_service i f st)) = length (services_of st)"
  "conn_state (update_service i f st) = conn_state st"
  "initialized (update_service i f st) = initialized st"
  "connect_sem (update_service i f st) = connect_sem st"
  "mmio (update_service i f st) = mmio st"
  by (simp_all add: update_service_def)

lemma update_quota_simps [simp]:
  "slot_state (update_quota i f st) = slot_state st"
  "srv_state (update_quota i f st) = srv_state st"
  "next_srv_handle (update_quota i f st) = next_srv_handle st"
  "slot_queue_available (update_quota i f st) = slot_queue_available st"
  "data_use_count (quota_state (update_quota i f st)) = data_use_count (quota_state st)"
  "data_quota (quota_state (update_quota i f st)) = data_quota (quota_state st)"
  "previous_data_index (quota_state (update_quota i f st)) = previous_data_index (quota_state st)"
  "length (quotas_of (update_quota i f st)) = length (quotas_of st)"
  "conn_state (update_quota i f st) = conn_state st"
  "initialized (update_quota i f st) = initialized st"
  "connect_sem (update_quota i f st) = connect_sem st"
  "mmio (update_quota i f st) = mmio st"
  by (simp_all add: update_quota_def)

lemma get_service_update [simp]:
  "get_service (update_service i f st) j =
     (if i = j then map_option f (get_service st j) else get_service st j)"
  by (auto simp: get_service_def update_service_def)

lemma get_service_quota [simp]: "get_service (update_quota i f st) j = get_service st j"
  by (simp add: get_service_def)

end
