(* ===== verification/Queueing.thy ===== *)
theory Queueing
  imports Vchiq_State
begin

text \<open>
  Sending: \<^verbatim>\<open>State::reserve_space\<close> and \<^verbatim>\<open>State::queue_message\<close> of \<^verbatim>\<open>src/vchiq/state.rs\<close>.
  Neither future suspends: the waits for quota are blocking calls, so a queued message is one step.
\<close>

section \<open>Reserving space\<close>

text \<open>Position in the transmitted stream, as index into the queue of slots.\<close>

definition queue_index :: "usize \<Rightarrow> isize" where
  "queue_index pos = sint (slot_queue_index_from_pos pos)"

definition padding_message :: "usize \<Rightarrow> slot_message \<Rightarrow> slot_message" where
  "padding_message sz m = m\<lparr>header := (header m)\<lparr>msgid := VCHIQ_MSGID_PADDING, msg_size := ucast sz\<rparr>\<rparr>"

text \<open>The first part: close the current slot with a padding message when the space does not fit.
  The value is the position in the stream to continue at.\<close>

definition reserve_padding :: "usize \<Rightarrow> 'sem state \<Rightarrow> (usize, 'sem state) result" where
  "reserve_padding space_needed st =
     (let ss = slot_state st;
          tx = local_tx_pos ss;
          slot_space = VCHIQ_SLOT_SIZE - (tx AND VCHIQ_SLOT_MASK)
      in if space_needed > slot_space then
           (case tx_data ss of
              None \<Rightarrow> Panic ''no slot available to be used''
            | Some slot_pos \<Rightarrow>
                bind_res
                  (store_message (slot_data ss) 0 slot_pos
                     (\<lambda>m c. Ok (padding_message (slot_space - size_of_header) m) c) ())
                  (\<lambda>_ (data, _). Ok (tx + slot_space) (st\<lparr>slot_state := ss\<lparr>slot_data := data\<rparr>\<rparr>))
                  (\<lambda>_ _. st))
         else Ok tx st)"

text \<open>The second part: the slot and the offset for the message.\<close>

definition reserve_position :: "usize \<Rightarrow> 'sem state \<Rightarrow> (slot_position, 'sem state) result" where
  "reserve_position tx st =
     (let ss = slot_state st
      in if tx AND VCHIQ_SLOT_MASK = 0 then
           (if tx = slot_queue_available st * VCHIQ_SLOT_SIZE
            then Panic ''assertion failed: tx_pos != self.slot_queue_available * VCHIQ_SLOT_SIZE''
            else
              (let slot_queue_index = slot_queue_index_from_pos tx AND VCHIQ_SLOT_QUEUE_MASK;
                   queue = slot_queue (sz_local (slot_zero ss))
               in if unat slot_queue_index < length queue
                  then Ok (SlotPosition (ucast (queue ! unat slot_queue_index)) 0) st
                  else Panic ''index out of bounds''))
         else
           (case tx_data ss of
              None \<Rightarrow> Panic ''called Option::unwrap() on a None value''
            | Some p \<Rightarrow> Ok (SlotPosition (pos_index p) (tx AND VCHIQ_SLOT_MASK)) st))"

definition reserve_space :: "usize \<Rightarrow> bool \<Rightarrow> 'sem state \<Rightarrow> (slot_position, 'sem state) result" where
  "reserve_space space_needed block st =
     seq_res (reserve_padding space_needed st)
       (\<lambda>tx st. seq_res (reserve_position tx st)
         (\<lambda>pos st. Ok pos (st\<lparr>slot_state := (slot_state st)\<lparr>local_tx_pos := tx + space_needed,
                                                        tx_data := Some pos\<rparr>\<rparr>)))"

section \<open>Waiting for quota\<close>

text \<open>
  The two loops of \<^verbatim>\<open>queue_message\<close> for data messages.  \<open>None\<close> is a loop that does not return: a
  blocking \<^verbatim>\<open>down()\<close> on a semaphore that nobody raises, or an endless repetition.
\<close>

partial_function (option) data_quota_loop ::
  "'sem sem_ops \<Rightarrow> usize \<Rightarrow> isize \<Rightarrow> 'sem state \<Rightarrow> (isize \<times> 'sem state) option" where
  "data_quota_loop S stride tx_end_index st =
     (if tx_end_index \<noteq> previous_data_index (quota_state st) \<and>
         data_use_count (quota_state st) = data_quota (quota_state st)
      then (case sem_down S (data_quota_event st) of
              None \<Rightarrow> None
            | Some s \<Rightarrow>
                (let st = st\<lparr>data_quota_event := s\<rparr>;
                     tx_end_index = queue_index (local_tx_pos (slot_state st) + stride - 1)
                 in if tx_end_index = previous_data_index (quota_state st) \<or>
                       data_use_count (quota_state st) < data_quota (quota_state st)
                    then Some (tx_end_index, st\<lparr>data_quota_event := sem_up S s\<rparr>)
                    else data_quota_loop S stride tx_end_index st))
      else Some (tx_end_index, st))"

partial_function (option) service_quota_loop ::
  "'sem sem_ops \<Rightarrow> usize \<Rightarrow> 'sem service \<Rightarrow> isize \<Rightarrow> 'sem state \<Rightarrow> (unit, 'sem state) result option" where
  "service_quota_loop S stride srv tx_end_index st =
     (let q = quotas_of st ! unat (localport srv)
      in if message_use_count q = message_quota q \<or>
            (tx_end_index \<noteq> previous_tx_index q \<and> slot_use_count q = slot_quota q)
         then (case sem_down S (quota_event q) of
                 None \<Rightarrow> None
               | Some s \<Rightarrow>
                   (let st = update_quota (unat (localport srv)) (\<lambda>q. q\<lparr>quota_event := s\<rparr>) st
                    in if closing srv then Some (Err (VchiqErr ServiceClosing) st)
                       else if srvstate srv \<noteq> OPEN
                       then Some (Err (VchiqErr (ServiceAlreadyClosed (srv_handle srv))) st)
                       else service_quota_loop S stride srv
                              (queue_index (local_tx_pos (slot_state st) + stride - 1)) st))
         else Some (Ok () st))"

definition data_quota_check ::
  "'sem sem_ops \<Rightarrow> nat option \<Rightarrow> usize \<Rightarrow> 'sem state \<Rightarrow> (unit, 'sem state) result" where
  "data_quota_check S service stride st =
     (case service of
        None \<Rightarrow> Err (VchiqErr DataMessageWithoutService) st
      | Some i \<Rightarrow>
         (case get_service st i of
            None \<Rightarrow> Panic ''dangling service reference''
          | Some srv \<Rightarrow>
              if closing srv then Err (VchiqErr (ServiceAlreadyClosed (srv_handle srv))) st
              else if \<not> unat (localport srv) < length (quotas_of st)
              then Panic ''called Option::unwrap() on a None value''
              else (case data_quota_loop S stride
                       (queue_index (local_tx_pos (slot_state st) + stride - 1)) st of
                      None \<Rightarrow> Blocked
                    | Some (tx_end_index, st) \<Rightarrow>
                        (case service_quota_loop S stride srv tx_end_index st of
                           None \<Rightarrow> Blocked
                         | Some r \<Rightarrow> r))))"

section \<open>Queueing a message\<close>

text \<open>
  The closure handed to \<^verbatim>\<open>store_message\<close>: it fills in the message and, for data messages, accounts
  for the slots in use in the quota state that it captures.
\<close>

definition account_data :: "isize \<Rightarrow> 'sem quota_state \<Rightarrow> 'sem quota_state" where
  "account_data tx_end_index q =
     (if tx_end_index \<noteq> previous_data_index q
      then q\<lparr>previous_data_index := tx_end_index, data_use_count := data_use_count q + 1\<rparr> else q)"

definition account_service :: "isize \<Rightarrow> 'sem service_quota \<Rightarrow> 'sem service_quota" where
  "account_service tx_end_index q =
     (if tx_end_index \<noteq> previous_tx_index q
      then q\<lparr>previous_tx_index := tx_end_index, slot_use_count := slot_use_count q + 1\<rparr> else q)"

definition fill_message ::
  "message_type \<Rightarrow> u32 \<Rightarrow> usize \<Rightarrow> u8 list option \<Rightarrow> 'sem service option \<Rightarrow> isize
   \<Rightarrow> slot_message \<Rightarrow> 'sem quota_state \<Rightarrow> (slot_message, 'sem quota_state) result" where
  "fill_message msg_type msg_id msize context srv tx_end_index m q =
     (let m = (case context of Some cx \<Rightarrow> m\<lparr>msg_data := cx\<rparr> | None \<Rightarrow> m);
          m = m\<lparr>header := \<lparr>msgid = msg_id, msg_size = ucast msize\<rparr>\<rparr>
      in if msg_type = DATA then
           (let q = account_data tx_end_index q
            in case srv of
                 None \<Rightarrow> Panic ''called Option::unwrap() on a None value''
               | Some s \<Rightarrow>
                   if unat (localport s) < length (service_quotas q)
                   then Ok m (q\<lparr>service_quotas := (service_quotas q)
                          [unat (localport s) := account_service tx_end_index (service_quotas q ! unat (localport s))]\<rparr>)
                   else Panic ''called Option::unwrap() on a None value'')
         else Ok m q)"

definition borrow_ref :: "'sem state \<Rightarrow> nat option \<Rightarrow> 'sem service option" where
  "borrow_ref st service = (case service of Some i \<Rightarrow> get_service st i | None \<Rightarrow> None)"

definition context_size :: "u8 list option \<Rightarrow> nat" where
  "context_size context = (case context of Some cx \<Rightarrow> length cx | None \<Rightarrow> 0)"

definition store_queued ::
  "nat option \<Rightarrow> message_type \<Rightarrow> u32 \<Rightarrow> u8 list option \<Rightarrow> slot_position \<Rightarrow> 'sem state \<Rightarrow> (unit, 'sem state) result" where
  "store_queued service msg_type msg_id context pos st =
     (let ss = slot_state st;
          tx_end_index = queue_index (local_tx_pos ss - 1);
          srv = borrow_ref st service
      in bind_res
           (store_message (slot_data ss) (context_size context) pos
              (fill_message msg_type msg_id (of_nat (context_size context)) context srv tx_end_index)
              (quota_state st))
           (\<lambda>_ (data, q). Ok () (st\<lparr>slot_state := ss\<lparr>slot_data := data\<rparr>, quota_state := q\<rparr>))
           (\<lambda>_ _. st))"

text \<open>Publishing: the new position goes to the shared state, then the VideoCore is signalled.\<close>

definition publish_tx_pos :: "'sem state \<Rightarrow> 'sem state" where
  "publish_tx_pos st =
     (let ss = slot_state st; z = slot_zero ss
      in st\<lparr>slot_state := ss\<lparr>slot_zero := z\<lparr>sz_local := (sz_local z)\<lparr>tx_pos := ucast (local_tx_pos ss)\<rparr>\<rparr>\<rparr>\<rparr>)"

definition signal_videocore :: "'sem state \<Rightarrow> 'sem state" where
  "signal_videocore st =
     (let ss = slot_state st; z = slot_zero ss;
          (e, b) = signal_remote (trigger (sz_remote z)) (mmio st)
      in st\<lparr>slot_state := ss\<lparr>slot_zero := z\<lparr>sz_remote := (sz_remote z)\<lparr>trigger := e\<rparr>\<rparr>\<rparr>, mmio := b\<rparr>)"

definition queue_message ::
  "'sem sem_ops \<Rightarrow> nat option \<Rightarrow> u32 \<Rightarrow> u8 list option \<Rightarrow> bool \<Rightarrow> 'sem state \<Rightarrow> (unit, 'sem state) result" where
  "queue_message S service msg_id context block st =
     (case msg_type_from_id msg_id of
        None \<Rightarrow> Panic ''internal error: entered unreachable code''
      | Some msg_type \<Rightarrow>
         (let msg_stride = calc_msg_stride (of_nat (context_size context))
          in seq_res (if msg_type = DATA then data_quota_check S service msg_stride st else Ok () st)
              (\<lambda>_ st. seq_res (reserve_space msg_stride block st)
                (\<lambda>pos st. seq_res (store_queued service msg_type msg_id context pos st)
                  (\<lambda>_ st.
                    (let st = publish_tx_pos st;
                         st = (case service of
                                 Some i \<Rightarrow> if msg_type = CLOSE
                                   then update_service i (set_state CLOSESENT) st else st
                               | None \<Rightarrow> st)
                     in Ok () (signal_videocore st)))))))"

section \<open>The transmit side of the slot state\<close>

abbreviation tx_of :: "'sem state \<Rightarrow> nat" where
  "tx_of st \<equiv> unat (local_tx_pos (slot_state st))"

abbreviation tx_slots :: "'sem state \<Rightarrow> nat" where
  "tx_slots st \<equiv> unat (slot_queue_available st)"

abbreviation tx_queue :: "'sem state \<Rightarrow> u32 list" where
  "tx_queue st \<equiv> slot_queue (sz_local (slot_zero (slot_state st)))"

abbreviation tx_mem :: "'sem state \<Rightarrow> nat \<Rightarrow> u8" where
  "tx_mem st \<equiv> mem (slot_data (slot_state st))"

text \<open>
  The invariant of the transmit side.  The stream position is a multiple of the header size and stays
  within the slots available; each of these is a slot of the memory other than the slot zero; the
  position of the last message lies in the slot of the last byte sent.
\<close>

definition tx_inv :: "'sem state \<Rightarrow> bool" where
  "tx_inv st \<longleftrightarrow>
     8 dvd tx_of st \<and> tx_of st \<le> tx_slots st * 4096 \<and> tx_slots st \<le> 64 \<and>
     length (tx_queue st) = 64 \<and>
     (\<forall>k < tx_slots st. 0 < unat (tx_queue st ! k) \<and>
        unat (tx_queue st ! k) < unat (slot_len (slot_data (slot_state st)))) \<and>
     (case tx_data (slot_state st) of
        None \<Rightarrow> tx_of st = 0
      | Some p \<Rightarrow> 0 < tx_of st \<and> pos_index p = ucast (tx_queue st ! ((tx_of st - 1) div 4096)) \<and>
          8 dvd unat (pos_offset p) \<and> unat (pos_offset p) < 4096)"

text \<open>Where a message of the given stride goes in the stream.\<close>

definition next_tx :: "nat \<Rightarrow> nat \<Rightarrow> nat" where
  "next_tx s tx = (if tx mod 4096 + s \<le> 4096 then tx else (tx div 4096 + 1) * 4096)"

definition tx_position :: "'sem state \<Rightarrow> nat \<Rightarrow> slot_position" where
  "tx_position st t = SlotPosition (ucast (tx_queue st ! (t div 4096))) (of_nat (t mod 4096))"

definition padded :: "'sem state \<Rightarrow> slot_accessor" where
  "padded st = (case tx_data (slot_state st) of
      None \<Rightarrow> slot_data (slot_state st)
    | Some p \<Rightarrow> (slot_data (slot_state st))\<lparr>mem := write_at (tx_mem st) (slot_addr p)
        \<lparr>header = \<lparr>msgid = VCHIQ_MSGID_PADDING, msg_size = of_nat (4096 - tx_of st mod 4096 - 8)\<rparr>,
         msg_data = []\<rparr>\<rparr>)"

lemma tx_invD:
  assumes "tx_inv st"
  shows "8 dvd tx_of st" "tx_of st \<le> tx_slots st * 4096" "tx_slots st \<le> 64" "length (tx_queue st) = 64"
    and "k < tx_slots st \<Longrightarrow> 0 < unat (tx_queue st ! k)"
    and "k < tx_slots st \<Longrightarrow> unat (tx_queue st ! k) < unat (slot_len (slot_data (slot_state st)))"
    and "tx_of st \<le> 262144"
  using assms by (auto simp: tx_inv_def)

lemma next_tx_cases:
  assumes "0 < s" "s \<le> 4096"
  obtains "tx mod 4096 + s \<le> 4096" "next_tx s tx = tx"
  | "0 < tx mod 4096" "4096 < tx mod 4096 + s" "next_tx s tx = (tx div 4096 + 1) * 4096"
  using assms by (cases "tx mod 4096 + s \<le> 4096") (auto simp: next_tx_def)

lemma next_tx_slot:
  assumes "0 < s" "s \<le> 4096"
  shows "next_tx s tx mod 4096 + s \<le> 4096" "tx \<le> next_tx s tx"
    "(next_tx s tx + s - 1) div 4096 = next_tx s tx div 4096"
proof -
  show *: "next_tx s tx mod 4096 + s \<le> 4096" "tx \<le> next_tx s tx"
    using assms by (auto simp: next_tx_def)
  show "(next_tx s tx + s - 1) div 4096 = next_tx s tx div 4096"
    using *(1) assms(1) by (rule div_same_slot)
qed

lemma slot_space_val:
  "unat (VCHIQ_SLOT_SIZE - (x AND VCHIQ_SLOT_MASK)) = 4096 - unat x mod 4096"
  by (subst unat_sub_small) (simp_all add: slot_consts unat_and_4095 less_imp_le)

lemma slot_space_padding:
  assumes "8 dvd unat x"
  shows "(ucast (VCHIQ_SLOT_SIZE - (x AND VCHIQ_SLOT_MASK) - size_of_header) :: u32) =
    of_nat (4096 - unat x mod 4096 - 8)"
proof -
  have "unat x mod 4096 \<le> 4088" using aligned_mod_room [OF assms] by simp
  then have "unat (VCHIQ_SLOT_SIZE - (x AND VCHIQ_SLOT_MASK) - size_of_header) = 4096 - unat x mod 4096 - 8"
    by (subst unat_sub_small) (simp_all add: slot_space_val size_of_header_def)
  then show ?thesis by (metis of_nat_unat)
qed

lemma next_slot_start:
  "x + (VCHIQ_SLOT_SIZE - (x AND VCHIQ_SLOT_MASK)) = of_nat ((unat x div 4096 + 1) * 4096)"
proof -
  have "x + (VCHIQ_SLOT_SIZE - (x AND VCHIQ_SLOT_MASK)) = of_nat (unat x + (4096 - unat x mod 4096))"
    by (subst slot_space_val [symmetric]) simp
  also have "unat x + (4096 - unat x mod 4096) = (unat x div 4096 + 1) * 4096"
    by (rule next_slot_eq) simp
  finally show ?thesis .
qed

lemma reserve_padding_pads:
  assumes "tx_inv st" "0 < tx_of st" "4096 < tx_of st mod 4096 + unat w"
  shows "reserve_padding w st = Ok (of_nat ((tx_of st div 4096 + 1) * 4096)) (st\<lparr>slot_state := (slot_state st)\<lparr>slot_data := padded st\<rparr>\<rparr>)"
proof -
  let ?ss = "slot_state st" and ?tx = "tx_of st"
  let ?space = "VCHIQ_SLOT_SIZE - (local_tx_pos ?ss AND VCHIQ_SLOT_MASK)"
  have gt: "w > ?space" using assms(3) by (simp add: word_less_nat_alt slot_space_val)
  obtain p where p: "tx_data ?ss = Some p"
    and idx: "pos_index p = ucast (tx_queue st ! ((?tx - 1) div 4096))"
    and off: "8 dvd unat (pos_offset p)" "unat (pos_offset p) < 4096"
    using assms(1,2) by (auto simp: tx_inv_def split: option.splits)
  have k: "(?tx - 1) div 4096 < tx_slots st"
    using tx_invD(2) [OF assms(1)] assms(2) by (simp add: less_mult_imp_div_less)
  note q = tx_invD(5,6) [OF assms(1) k]
  have ix: "0 < pos_index p" "pos_index p < slot_len (slot_data ?ss)"
    using q by (simp_all add: idx word_less_nat_alt unat_ucast_u32_usize)
  have "slot_addr p + 8 \<le> (unat (pos_index p) + 1) * 4096"
    using off by (auto simp: slot_addr_def slot_consts unat_and_4095)
  also have "\<dots> \<le> unat (slot_len (slot_data ?ss)) * 4096"
    using ix(2) by (simp add: word_less_nat_alt)
  finally have im: "in_memory (slot_data ?ss) (slot_addr p) (8 + 0)" by (simp add: in_memory_def)
  note sz = slot_space_padding [OF tx_invD(1) [OF assms(1)]]
  show ?thesis
    using gt p sz
    by (simp add: reserve_padding_def Let_def store_message_pure [OF ix im] padded_def
        padding_message_def load_message_def next_slot_start del: of_nat_mult of_nat_add of_nat_Suc)
qed

lemma reserve_padding_eq:
  assumes "tx_inv st" "0 < unat w" "unat w \<le> 4096"
  defines "t \<equiv> next_tx (unat w) (tx_of st)"
  shows "reserve_padding w st = Ok (of_nat t)
    (if t = tx_of st then st else st\<lparr>slot_state := (slot_state st)\<lparr>slot_data := padded st\<rparr>\<rparr>)"
  using assms(2,3)
proof (cases rule: next_tx_cases [of "unat w" "tx_of st"])
  case 1
  then have "\<not> w > VCHIQ_SLOT_SIZE - (local_tx_pos (slot_state st) AND VCHIQ_SLOT_MASK)"
    by (auto simp: word_less_nat_alt slot_space_val)
  with 1 show ?thesis by (simp add: reserve_padding_def t_def Let_def)
next
  case 2
  then have "0 < tx_of st" "tx_of st < t" by (auto simp: t_def intro: Nat.gr0I)
  with 2 show ?thesis using reserve_padding_pads [OF assms(1), of w] by (simp add: t_def)
qed

lemma reserve_position_eq:
  assumes "tx_inv st" "t = tx_of st \<and> t mod 4096 \<noteq> 0 \<or> t mod 4096 = 0" "t \<le> tx_slots st * 4096"
  shows "reserve_position (of_nat t) st =
    (if t = tx_slots st * 4096
     then Panic ''assertion failed: tx_pos != self.slot_queue_available * VCHIQ_SLOT_SIZE''
     else Ok (tx_position st t) st)"
proof -
  have n: "tx_slots st \<le> 64" by (rule tx_invD(3) [OF assms(1)])
  with assms(3) have u: "unat (of_nat t :: usize) = t" by (intro unat_of_nat_small) simp
  have m: "of_nat t AND VCHIQ_SLOT_MASK = of_nat (t mod 4096)"
    by (rule word_eq_of_nat) (simp add: slot_consts unat_and_4095 u)
  have um: "unat (of_nat (t mod 4096) :: usize) = t mod 4096" by (intro unat_of_nat_small) simp
  show ?thesis
  proof (cases "t mod 4096 = 0")
    case True
    have "slot_queue_available st * VCHIQ_SLOT_SIZE = of_nat (tx_slots st * 4096)"
      by (simp add: VCHIQ_SLOT_SIZE_def)
    moreover have "unat (of_nat (tx_slots st * 4096) :: usize) = tx_slots st * 4096"
      using n by (intro unat_of_nat_small) simp
    ultimately have e: "of_nat t = slot_queue_available st * VCHIQ_SLOT_SIZE \<longleftrightarrow> t = tx_slots st * 4096"
      using u by metis
    have i: "unat (slot_queue_index_from_pos (of_nat t) AND VCHIQ_SLOT_QUEUE_MASK) = t div 4096"
      if "t \<noteq> tx_slots st * 4096"
      using that n assms(3)
      by (simp add: slot_queue_index_from_pos_def slot_consts unat_and_63 unat_div u div_less_iff_less_mult)
    show ?thesis
      using True e i n assms(3) tx_invD(4) [OF assms(1)] m
      by (auto simp: reserve_position_def tx_position_def Let_def)
  next
    case False
    then have t: "t = tx_of st" "0 < t" using assms(2) by auto
    then obtain p where p: "tx_data (slot_state st) = Some p"
      "pos_index p = ucast (tx_queue st ! ((t - 1) div 4096))"
      using assms(1) by (auto simp: tx_inv_def split: option.splits)
    have "(t - 1) div 4096 = t div 4096"
      using False by (rule div_pred_slot) simp
    moreover have "of_nat (t mod 4096) \<noteq> (0 :: usize)"
      using False um by force
    moreover have "t \<noteq> tx_slots st * 4096" using False by auto
    ultimately show ?thesis
      using p m by (simp add: reserve_position_def tx_position_def Let_def)
  qed
qed

lemma next_tx_le:
  assumes "tx_inv st" "0 < s" "s \<le> 4096"
  defines "t \<equiv> next_tx s (tx_of st)"
  shows "t \<le> tx_slots st * 4096" "t = tx_of st \<and> t mod 4096 \<noteq> 0 \<or> t mod 4096 = 0"
proof -
  note le = tx_invD(2) [OF assms(1)]
  from assms(2,3) have "t \<le> tx_slots st * 4096 \<and> (t = tx_of st \<and> t mod 4096 \<noteq> 0 \<or> t mod 4096 = 0)"
  proof (cases rule: next_tx_cases [of s "tx_of st"])
    case 1
    then show ?thesis using le by (auto simp: t_def)
  next
    case 2
    then have "tx_of st < tx_slots st * 4096" using le by (cases "tx_of st = tx_slots st * 4096") auto
    then have "tx_of st div 4096 < tx_slots st" by (rule less_mult_imp_div_less)
    with 2 show ?thesis by (simp add: t_def)
  qed
  then show "t \<le> tx_slots st * 4096" "t = tx_of st \<and> t mod 4096 \<noteq> 0 \<or> t mod 4096 = 0" by auto
qed

lemma tx_inv_padded:
  assumes "tx_inv st"
  shows "tx_inv (st\<lparr>slot_state := (slot_state st)\<lparr>slot_data := padded st\<rparr>\<rparr>)"
    "slot_len (padded st) = slot_len (slot_data (slot_state st))"
  using assms by (simp_all add: tx_inv_def padded_def split: option.splits)

text \<open>The state after a reservation at position \<open>t\<close> of the stream.\<close>

definition reserved :: "'sem state \<Rightarrow> nat \<Rightarrow> nat \<Rightarrow> 'sem state" where
  "reserved st t s = st\<lparr>slot_state := (slot_state st)\<lparr>
     slot_data := (if t = tx_of st then slot_data (slot_state st) else padded st),
     local_tx_pos := of_nat (t + s), tx_data := Some (tx_position st t)\<rparr>\<rparr>"

lemma reserve_space_eq:
  assumes "tx_inv st" "0 < unat w" "unat w \<le> 4096"
  defines "t \<equiv> next_tx (unat w) (tx_of st)"
  shows "reserve_space w b st =
    (if t = tx_slots st * 4096
     then Panic ''assertion failed: tx_pos != self.slot_queue_available * VCHIQ_SLOT_SIZE''
     else Ok (tx_position st t) (reserved st t (unat w)))"
proof -
  let ?st = "if t = tx_of st then st else st\<lparr>slot_state := (slot_state st)\<lparr>slot_data := padded st\<rparr>\<rparr>"
  have inv: "tx_inv ?st" using assms(1) tx_inv_padded by auto
  have tl: "t \<le> tx_slots st * 4096" and tc: "t = tx_of st \<and> t mod 4096 \<noteq> 0 \<or> t mod 4096 = 0"
    using next_tx_le [OF assms(1-3)] by (simp_all add: t_def)
  have "reserve_position (of_nat t) ?st = (if t = tx_slots st * 4096
     then Panic ''assertion failed: tx_pos != self.slot_queue_available * VCHIQ_SLOT_SIZE''
     else Ok (tx_position st t) ?st)"
    using reserve_position_eq [OF inv, of t] tl tc by (auto simp: tx_position_def)
  then show ?thesis
    using reserve_padding_eq [OF assms(1-3)]
    by (auto simp: reserve_space_def t_def [symmetric] reserved_def)
qed

text \<open>Whatever does not fit is reserved from the start of the next slot, also more than a slot.\<close>

lemma reserve_space_pads:
  assumes "tx_inv st" "0 < tx_of st" "4096 < tx_of st mod 4096 + unat w"
    and "t = (tx_of st div 4096 + 1) * 4096" "t < tx_slots st * 4096"
  shows "reserve_space w b st = Ok (tx_position st t) (reserved st t (unat w))"
proof -
  let ?st = "st\<lparr>slot_state := (slot_state st)\<lparr>slot_data := padded st\<rparr>\<rparr>"
  have "tx_of st < t" using assms(4) by (simp add: dividend_less_div_times)
  moreover have "reserve_position (of_nat t) ?st = Ok (tx_position st t) ?st"
    using reserve_position_eq [OF tx_inv_padded(1) [OF assms(1)], of t] assms(4,5) by (simp add: tx_position_def)
  ultimately show ?thesis
    using reserve_padding_pads [OF assms(1-3), folded assms(4)] by (simp add: reserve_space_def reserved_def)
qed

text \<open>A reservation keeps the invariant and stays inside the slot it is made in.\<close>

lemma reserved_inv:
  assumes "tx_inv st" "0 < s" "s \<le> 4096" "8 dvd s"
  defines "t \<equiv> next_tx s (tx_of st)"
  assumes "t \<noteq> tx_slots st * 4096"
  shows "tx_inv (reserved st t s)" "t + s \<le> tx_slots st * 4096"
    "unat (pos_index (tx_position st t)) = unat (tx_queue st ! (t div 4096))"
    "unat (pos_offset (tx_position st t)) = t mod 4096" "t div 4096 < tx_slots st"
    "unat (local_tx_pos (slot_state (reserved st t s))) = t + s"
proof -
  note n = tx_invD(3) [OF assms(1)]
  note t = next_tx_slot [OF assms(2,3), of "tx_of st", folded t_def]
  have lt: "t < tx_slots st * 4096"
    using next_tx_le [OF assms(1-3)] assms(6) by (simp add: t_def)
  then show d: "t div 4096 < tx_slots st" by (rule less_mult_imp_div_less)
  then have "(t div 4096 + 1) * 4096 \<le> tx_slots st * 4096" by simp
  moreover have "t + s \<le> (t div 4096 + 1) * 4096"
    using t(1) by (rule slot_end_le)
  ultimately show le: "t + s \<le> tx_slots st * 4096" by linarith
  show "unat (pos_index (tx_position st t)) = unat (tx_queue st ! (t div 4096))"
    by (simp add: tx_position_def unat_ucast_u32_usize)
  show off: "unat (pos_offset (tx_position st t)) = t mod 4096"
    by (simp add: tx_position_def unat_of_nat_small)
  have "t + s < 2 ^ 64" using le n by simp
  then have u: "unat (of_nat (t + s) :: usize) = t + s" by (intro unat_of_nat_small) simp
  then show "unat (local_tx_pos (slot_state (reserved st t s))) = t + s"
    by (simp add: reserved_def)
  have dvd: "8 dvd t"
    using tx_invD(1) [OF assms(1)] by (auto simp: t_def next_tx_def)
  then have "8 dvd t mod 4096" by (simp add: dvd_mod)
  moreover have "tx_position st t = SlotPosition (ucast (tx_queue st ! ((t + s - 1) div 4096))) (of_nat (t mod 4096))"
    using t(3) by (simp add: tx_position_def)
  ultimately show "tx_inv (reserved st t s)"
    using assms(1,2,4) u le off dvd tx_inv_padded(2) [OF assms(1)]
    by (auto simp: tx_inv_def reserved_def simp del: of_nat_add)
qed

section \<open>Storing the message\<close>

definition queued_message :: "u32 \<Rightarrow> u8 list option \<Rightarrow> slot_message" where
  "queued_message msg_id context =
     \<lparr>header = \<lparr>msgid = msg_id, msg_size = of_nat (context_size context)\<rparr>,
      msg_data = (case context of Some cx \<Rightarrow> cx | None \<Rightarrow> [])\<rparr>"

text \<open>The quota state after a message has been stored.\<close>

definition accounted :: "message_type \<Rightarrow> 'sem service option \<Rightarrow> isize \<Rightarrow> 'sem quota_state \<Rightarrow> 'sem quota_state" where
  "accounted ty srv idx q =
     (case srv of
        Some s \<Rightarrow> if ty = DATA then
            (let q = account_data idx q in q\<lparr>service_quotas := (service_quotas q)
               [unat (localport s) := account_service idx (service_quotas q ! unat (localport s))]\<rparr>)
          else q
      | None \<Rightarrow> q)"

definition data_service_ok :: "message_type \<Rightarrow> 'sem service option \<Rightarrow> 'sem quota_state \<Rightarrow> bool" where
  "data_service_ok ty srv q \<longleftrightarrow>
     (ty = DATA \<longrightarrow> (case srv of Some s \<Rightarrow> unat (localport s) < length (service_quotas q) | None \<Rightarrow> False))"

lemma queued_message_simps [simp]:
  "length (msg_data (queued_message i c)) = context_size c"
  "msgid (header (queued_message i c)) = i"
  by (simp_all add: queued_message_def context_size_def split: option.splits)

lemma queued_well_sized: "context_size c < 2 ^ 32 \<Longrightarrow> well_sized (queued_message i c)"
  unfolding well_sized_def queued_message_simps by (simp add: queued_message_def unat_of_nat_u32)

lemma stride_queued:
  assumes "context_size c < 2 ^ 32"
  shows "unat (calc_msg_stride (of_nat (context_size c))) = stride_of (queued_message i c)"
proof -
  have "unat (of_nat (context_size c) :: usize) = context_size c"
    using assms by (intro unat_of_nat_small) simp
  moreover have "unat (msg_size (header (queued_message i c))) = context_size c"
    using assms by (simp add: queued_message_def unat_of_nat_u32)
  ultimately show ?thesis
    using assms by (simp add: stride_of_eq unat_calc_msg_stride)
qed

lemma stride_queued_bounds:
  assumes "context_size c \<le> 4088" "s = stride_of (queued_message i c)"
  shows "0 < s" "s \<le> 4096" "8 dvd s" "8 + context_size c \<le> s"
proof -
  have "unat (msg_size (header (queued_message i c))) = context_size c"
    using assms(1) by (simp add: queued_message_def unat_of_nat_u32)
  then show "0 < s" "s \<le> 4096" "8 dvd s" "8 + context_size c \<le> s"
    using assms stride_of_bounds [of "queued_message i c"] by (simp_all add: stride_of_eq)
qed

lemma fill_message_eq:
  assumes "data_service_ok ty srv q" "length (msg_data m) = context_size c" "context_size c < 2 ^ 32"
  shows "fill_message ty i (of_nat (context_size c)) c srv idx m q =
    Ok (queued_message i c) (accounted ty srv idx q)"
proof -
  have "(ucast (of_nat (context_size c) :: usize) :: u32) = of_nat (context_size c)"
    using assms(3) by (rule ucast_of_nat_u32)
  with assms(1,2) show ?thesis
    by (auto simp: fill_message_def accounted_def data_service_ok_def queued_message_def Let_def
        context_size_def account_data_def split: option.splits if_splits)
qed

lemma store_queued_eq:
  assumes "0 < pos_index pos" "pos_index pos < slot_len (slot_data (slot_state st))"
    and "in_memory (slot_data (slot_state st)) (slot_addr pos) (8 + context_size c)"
    and "context_size c < 2 ^ 32"
    and "data_service_ok ty (borrow_ref st service) (quota_state st)"
  shows "store_queued service ty msg_id c pos st =
    Ok () (st\<lparr>slot_state := (slot_state st)\<lparr>slot_data := (slot_data (slot_state st))\<lparr>mem :=
          write_at (tx_mem st) (slot_addr pos) (queued_message msg_id c)\<rparr>\<rparr>,
        quota_state := accounted ty (borrow_ref st service)
          (queue_index (local_tx_pos (slot_state st) - 1)) (quota_state st)\<rparr>)"
proof -
  let ?idx = "queue_index (local_tx_pos (slot_state st) - 1)"
  have "store_message (slot_data (slot_state st)) (context_size c) pos
      (fill_message ty msg_id (of_nat (context_size c)) c (borrow_ref st service) ?idx) (quota_state st) =
    Ok () ((slot_data (slot_state st))\<lparr>mem := write_at (tx_mem st) (slot_addr pos)
        ((\<lambda>_. queued_message msg_id c) (load_message (tx_mem st) (slot_addr pos) (context_size c)))\<rparr>,
      accounted ty (borrow_ref st service) ?idx (quota_state st))"
    by (rule store_message_pure [OF assms(1-3)]) (rule fill_message_eq [OF assms(5) _ assms(4)])
  then show ?thesis by (simp add: store_queued_def Let_def)
qed

text \<open>The state after a message has been queued at position \<open>t\<close> of the stream.\<close>

definition queued_state ::
  "nat option \<Rightarrow> message_type \<Rightarrow> u32 \<Rightarrow> u8 list option \<Rightarrow> nat \<Rightarrow> 'sem state \<Rightarrow> 'sem state" where
  "queued_state service ty msg_id c t st =
     (let st1 = reserved st t (stride_of (queued_message msg_id c));
          pos = tx_position st t;
          st2 = st1\<lparr>slot_state := (slot_state st1)\<lparr>slot_data := (slot_data (slot_state st1))\<lparr>mem :=
                   write_at (tx_mem st1) (slot_addr pos) (queued_message msg_id c)\<rparr>\<rparr>,
                 quota_state := accounted ty (borrow_ref st service)
                   (queue_index (local_tx_pos (slot_state st1) - 1)) (quota_state st)\<rparr>;
          st3 = publish_tx_pos st2;
          st4 = (case service of Some i \<Rightarrow> if ty = CLOSE then update_service i (set_state CLOSESENT) st3 else st3
                 | None \<Rightarrow> st3)
      in signal_videocore st4)"

lemma reserved_simps [simp]:
  "get_service (reserved st t s) i = get_service st i"
  "borrow_ref (reserved st t s) service = borrow_ref st service"
  "quota_state (reserved st t s) = quota_state st"
  "srv_state (reserved st t s) = srv_state st"
  "slot_queue_available (reserved st t s) = slot_queue_available st"
  "slot_zero (slot_state (reserved st t s)) = slot_zero (slot_state st)"
  by (simp_all add: reserved_def get_service_def borrow_ref_def split: option.splits)

lemma slot_len_reserved: "slot_len (slot_data (slot_state (reserved st t s))) = slot_len (slot_data (slot_state st))"
  by (simp add: reserved_def padded_def split: option.splits)

lemma tx_position_in_memory:
  assumes "tx_inv st" "t div 4096 < tx_slots st" "t mod 4096 + (8 + n) \<le> 4096"
  defines "p \<equiv> tx_position st t" and "A \<equiv> slot_data (slot_state st)"
  shows "0 < pos_index p" "pos_index p < slot_len A" "in_memory A (slot_addr p) (8 + n)"
    "slot_addr p = unat (tx_queue st ! (t div 4096)) * 4096 + t mod 4096"
proof -
  note q = tx_invD(5,6) [OF assms(1,2)]
  have i: "unat (pos_index p) = unat (tx_queue st ! (t div 4096))"
    by (simp add: p_def tx_position_def unat_ucast_u32_usize)
  with q show "0 < pos_index p" "pos_index p < slot_len A"
    by (simp_all add: word_less_nat_alt A_def)
  have o: "unat (pos_offset p) = t mod 4096"
    by (simp add: p_def tx_position_def unat_of_nat_small)
  then show a: "slot_addr p = unat (tx_queue st ! (t div 4096)) * 4096 + t mod 4096"
    by (simp add: slot_addr_def slot_consts unat_and_4095 i)
  have "slot_addr p + (8 + n) \<le> (unat (tx_queue st ! (t div 4096)) + 1) * 4096"
    using a assms(3) by simp
  also have "\<dots> \<le> unat (slot_len A) * 4096" using q(2) by (simp add: A_def)
  finally show "in_memory A (slot_addr p) (8 + n)" by (simp add: in_memory_def)
qed

text \<open>The part of \<^verbatim>\<open>queue_message\<close> after the quota check.\<close>

lemma queue_message_reserved:
  fixes st :: "'sem state" and t
  defines "p \<equiv> tx_position st t" and "A \<equiv> slot_data (slot_state st)"
  assumes "msg_type_from_id msg_id = Some ty" "context_size c < 2 ^ 32"
    and "ty = DATA \<Longrightarrow> data_quota_check S service (calc_msg_stride (of_nat (context_size c))) st = Ok () st"
    and "data_service_ok ty (borrow_ref st service) (quota_state st)"
    and "reserve_space (calc_msg_stride (of_nat (context_size c))) b st = Ok p (reserved st t (stride_of (queued_message msg_id c)))"
    and "0 < pos_index p" "pos_index p < slot_len A" "in_memory A (slot_addr p) (8 + context_size c)"
  shows "queue_message S service msg_id c b st = Ok () (queued_state service ty msg_id c t st)"
proof -
  let ?r = "reserved st t (stride_of (queued_message msg_id c))"
  have "(if ty = DATA then data_quota_check S service (calc_msg_stride (of_nat (context_size c))) st else Ok () st) = Ok () st"
    using assms(5) by simp
  moreover have "store_queued service ty msg_id c p ?r =
      Ok () (?r\<lparr>slot_state := (slot_state ?r)\<lparr>slot_data := (slot_data (slot_state ?r))\<lparr>mem :=
          write_at (tx_mem ?r) (slot_addr p) (queued_message msg_id c)\<rparr>\<rparr>,
        quota_state := accounted ty (borrow_ref st service) (queue_index (local_tx_pos (slot_state ?r) - 1)) (quota_state st)\<rparr>)"
    using store_queued_eq [of p ?r c ty service msg_id] assms(4,6,8-)
    by (simp add: A_def slot_len_reserved in_memory_def)
  ultimately show ?thesis
    using assms(3,7) by (simp add: queue_message_def Let_def queued_state_def p_def)
qed

lemma queue_message_eq:
  assumes "tx_inv st" "msg_type_from_id msg_id = Some ty" "context_size c \<le> 4088"
    and "ty = DATA \<Longrightarrow> data_quota_check S service (calc_msg_stride (of_nat (context_size c))) st = Ok () st"
    and "data_service_ok ty (borrow_ref st service) (quota_state st)"
    and "t = next_tx (stride_of (queued_message msg_id c)) (tx_of st)"
  shows "queue_message S service msg_id c b st =
    (if t = tx_slots st * 4096
     then Panic ''assertion failed: tx_pos != self.slot_queue_available * VCHIQ_SLOT_SIZE''
     else Ok () (queued_state service ty msg_id c t st))"
proof -
  let ?s = "stride_of (queued_message msg_id c)"
  have c: "context_size c < 2 ^ 32" using assms(3) by simp
  note s = stride_queued_bounds [OF assms(3) refl, of msg_id]
  have w: "unat (calc_msg_stride (of_nat (context_size c))) = ?s" by (rule stride_queued [OF c])
  have rs: "reserve_space (calc_msg_stride (of_nat (context_size c))) b st =
    (if t = tx_slots st * 4096
     then Panic ''assertion failed: tx_pos != self.slot_queue_available * VCHIQ_SLOT_SIZE''
     else Ok (tx_position st t) (reserved st t ?s))"
    using reserve_space_eq [OF assms(1), of "calc_msg_stride (of_nat (context_size c))" b] s
    unfolding w assms(6) by blast
  show ?thesis
  proof (cases "t = tx_slots st * 4096")
    case True
    with rs assms(2,4) show ?thesis by (simp add: queue_message_def Let_def)
  next
    case False
    note r = reserved_inv(5) [OF assms(1) s(1-3), folded assms(6), OF False]
    have "t mod 4096 + ?s \<le> 4096" unfolding assms(6) by (rule next_tx_slot [OF s(1,2)])
    then have "t mod 4096 + (8 + context_size c) \<le> 4096" using s(4) by linarith
    note p = tx_position_in_memory [OF assms(1) r this]
    from False rs show ?thesis
      by (simp add: queue_message_reserved [OF assms(2) c assms(4,5) _ p(1-3)])
  qed
qed

end
