(* ===== verification/Boot.thy ===== *)
theory Boot
  imports Queueing
begin

text \<open>
  What \<^verbatim>\<open>State::new\<close> and \<^verbatim>\<open>State::initialize\<close> set up: the division of the shared memory into
  slots, the invariant of the transmit side, and where the fragment list is written.  The page
  size, the allocator and the memory mapping are parameters; \<open>platform_ok\<close> is what the code relies
  on.  A concrete platform shows that it can hold, and its state is used for concrete runs.
\<close>

section \<open>The platform\<close>

text \<open>
  Rounding to pages does not shrink the memory and stays below 129 slots (pages of up to 64 KiB do),
  the page size is a power of two, and the memory read as a \<^verbatim>\<open>SlotZero\<close> has arrays of the declared
  lengths.
\<close>

definition shared_mem_size :: "'sem platform \<Rightarrow> nat" where
  "shared_mem_size P = unat (page_align P (TOTAL_SLOTS * VCHIQ_SLOT_SIZE))"

definition platform_ok :: "'sem platform \<Rightarrow> bool" where
  "platform_ok P \<longleftrightarrow>
     65 * 4096 \<le> shared_mem_size P \<and> shared_mem_size P < 129 * 4096 \<and>
     page_size P \<noteq> 0 \<and> page_size P AND (page_size P - 1) = 0 \<and> unat (page_size P) \<le> 2 ^ 32 \<and>
     shared_state_shape (sz_local (init_slot_zero P))"

definition mapped_ptr :: "'sem platform \<Rightarrow> usize" where
  "mapped_ptr P =
     (let lay = (page_align P (TOTAL_SLOTS * VCHIQ_SLOT_SIZE), page_size P)
      in map_memory P (alloc P lay) (fst lay) (push_bit 10 1 OR push_bit 8 2 OR push_bit 2 3))"

text \<open>The slots for data that fit behind the slot zero, once this is aligned.\<close>

definition slot_zero_offset :: "usize \<Rightarrow> usize" where
  "slot_zero_offset shm = (VCHIQ_SLOT_SIZE - shm) AND VCHIQ_SLOT_MASK"

definition data_slots :: "'sem platform \<Rightarrow> nat" where
  "data_slots P = (shared_mem_size P - unat (slot_zero_offset (mapped_ptr P))) div 4096 - 1"

lemma layout_ok:
  assumes "platform_ok P"
  shows "layout_from_size_align (page_align P (TOTAL_SLOTS * VCHIQ_SLOT_SIZE)) (page_size P) =
    Some (page_align P (TOTAL_SLOTS * VCHIQ_SLOT_SIZE), page_size P)"
proof -
  have "shared_mem_size P < 528384" "unat (page_size P) \<le> 4294967296"
    using assms by (simp_all add: platform_ok_def)
  then have "shared_mem_size P + (unat (page_size P) - 1) < 9223372036854775808" by linarith
  with assms show ?thesis
    by (simp add: platform_ok_def layout_from_size_align_def shared_mem_size_def)
qed

lemma slot_zero_offset_bound: "unat (slot_zero_offset shm) < 4096"
  by (simp add: slot_zero_offset_def slot_consts unat_and_4095)

lemma unat_add_mod_4096: "unat (a + b :: usize) mod 4096 = (unat a + unat b) mod 4096"
  by (simp add: unat_word_ariths mod_mod_cancel)

lemma slot_zero_aligned: "(shm + slot_zero_offset shm) mod VCHIQ_SLOT_SIZE = 0"
proof -
  have "unat (shm + slot_zero_offset shm) mod 4096 = (unat shm + unat (VCHIQ_SLOT_SIZE - shm) mod 4096) mod 4096"
    by (simp add: unat_add_mod_4096 slot_zero_offset_def VCHIQ_SLOT_MASK_val unat_and_4095)
  also have "\<dots> = unat (shm + (VCHIQ_SLOT_SIZE - shm)) mod 4096"
    unfolding unat_add_mod_4096 by (rule mod_add_right_eq)
  also have "\<dots> = 0" by (simp add: VCHIQ_SLOT_SIZE_def)
  finally show ?thesis by (simp add: VCHIQ_SLOT_SIZE_def word_unat_eq_iff unat_mod)
qed

lemma data_slots_bounds:
  assumes "platform_ok P"
  shows "63 \<le> data_slots P" "data_slots P \<le> 127"
proof -
  let ?m = "shared_mem_size P - unat (slot_zero_offset (mapped_ptr P))"
  have "64 * 4096 \<le> ?m" "?m < 129 * 4096"
    using assms slot_zero_offset_bound [of "mapped_ptr P"] by (auto simp: platform_ok_def)
  then have "64 \<le> ?m div 4096" "?m div 4096 < 129" by (simp_all add: div_le_mono less_mult_imp_div_less)
  then show "63 \<le> data_slots P" "data_slots P \<le> 127" by (simp_all add: data_slots_def)
qed

text \<open>The state that \<^verbatim>\<open>State::new\<close> builds, with the invariant of the transmit side.\<close>

definition fresh_state :: "'sem sem_ops \<Rightarrow> 'sem platform \<Rightarrow> 'sem state \<Rightarrow> bool" where
  "fresh_state S P st \<longleftrightarrow>
     slots_laid_out (data_slots P) (slot_zero (slot_state st)) \<and>
     tx_slots st = data_slots P - data_slots P div 2 - 1 \<and> tx_of st = 0 \<and>
     tx_data (slot_state st) = None \<and> rx_pos (slot_state st) = 0 \<and> rx_data (slot_state st) = None \<and>
     unat (slot_len (slot_data (slot_state st))) = data_slots P + 1 \<and>
     mem (slot_data (slot_state st)) = init_mem P \<and>
     conn_state st = DISCONNECTED \<and> \<not> initialized st \<and>
     services_of st = replicate 4096 None \<and> unused_service (srv_state st) = 0 \<and>
     quotas_of st = replicate 4096 (service_quota_default S) \<and>
     data_quota (quota_state st) = slot_queue_available st - 1 \<and> data_use_count (quota_state st) = 0 \<and>
     previous_data_index (quota_state st) = -1 \<and>
     default_slot_quota st = slot_queue_available st div 2 \<and>
     unat (default_message_quota st) = tx_slots st div 2 * 256 \<and>
     connect_sem st = asem_new S 0 \<and> data_quota_event st = sem_new S 0 \<and>
     fragment_writes st = init_fragments (shm_ptr st + page_align P (TOTAL_SLOTS * VCHIQ_SLOT_SIZE)) \<and>
     shm_ptr st = mapped_ptr P \<and>
     shm_ptr_layout st = (page_align P (TOTAL_SLOTS * VCHIQ_SLOT_SIZE), page_size P) \<and>
     shm_ptr_phys st = alloc P (shm_ptr_layout st) OR 0xC0000000"

lemma available_slots:
  assumes "slots_laid_out n z" "4 \<le> n" "n \<le> 128"
  shows "unat (ucast (slot_last (sz_local z) - slot_first (sz_local z) + 1) :: usize) = n - n div 2 - 1"
proof -
  have l: "slot_last (sz_local z) = of_nat n" "slot_first (sz_local z) = 2 + of_nat (n div 2)"
    using assms(1) half_slots(7,9) [OF assms(3)] by (simp_all add: slots_laid_out_def word_unat_eq_iff)
  show ?thesis
    unfolding l local_slots_available [OF assms(2)] unat_ucast_u32_usize
    using assms(3) by (intro unat_of_nat_u32) simp
qed

lemma message_quota_val:
  assumes "unat (a :: usize) \<le> 64"
  shows "unat (min (a div 2 * 256) (NOT 0)) = unat a div 2 * 256"
proof -
  have "unat (a div 2 * 256) = unat a div 2 * 256"
    using assms by (simp add: unat_word_ariths unat_div)
  moreover have "a div 2 * 256 \<le> NOT 0" by simp
  ultimately show ?thesis by (simp only: min_absorb1)
qed

lemma state_build_fresh:
  assumes "slots_laid_out n z" "63 \<le> n" "n \<le> 127" "n = data_slots P"
    and "lay = (page_align P (TOTAL_SLOTS * VCHIQ_SLOT_SIZE), page_size P)"
  shows "fresh_state S P (state_build S lay (mapped_ptr P) (alloc P lay OR 0xC0000000) (z\<lparr>platform_data := d\<rparr>)
    \<lparr>mem = init_mem P, slot_len = of_nat n + VCHIQ_SLOT_ZERO_SLOTS\<rparr> (init_fragments (mapped_ptr P + fst lay)) h)"
proof -
  define av where "av = (ucast (slot_last (sz_local z) - slot_first (sz_local z) + 1) :: usize)"
  have av: "unat av = n - n div 2 - 1"
    unfolding av_def using available_slots [OF assms(1)] assms(2,3) by simp
  have mq: "unat (min (av div 2 * 256) (NOT 0)) = (n - n div 2 - 1) div 2 * 256"
    using av assms(3) by (subst message_quota_val) simp_all
  have len: "unat (of_nat n + VCHIQ_SLOT_ZERO_SLOTS :: usize) = n + 1"
  proof -
    have "of_nat n + VCHIQ_SLOT_ZERO_SLOTS = (of_nat (n + 1) :: usize)" by (simp add: VCHIQ_SLOT_ZERO_SLOTS_val)
    moreover have "unat (of_nat (n + 1) :: usize) = n + 1"
      by (rule unat_of_nat_small) (use assms(3) in simp)
    ultimately show ?thesis by (simp only:)
  qed
  have lo: "slots_laid_out n (z\<lparr>platform_data := d\<rparr>)"
    using assms(1) by (simp add: slots_laid_out_def)
  have loc: "sz_local (z\<lparr>platform_data := d\<rparr>) = sz_local z" by simp
  have ms: "unat VCHIQ_MAX_SERVICES = 4096" by (simp add: VCHIQ_MAX_SERVICES_def)
  show ?thesis
    unfolding fresh_state_def state_build_def Let_def ms assms(4) [symmetric] assms(5)
      state.select_convs slot_state.select_convs quota_state.select_convs srv_state.select_convs
      slot_accessor.select_convs loc av_def [symmetric] fst_conv
    using lo av mq len by simp
qed

lemma state_new_fresh:
  assumes "platform_ok P"
  shows "\<exists>st. state_new S P h = Ok st () \<and> fresh_state S P st \<and> next_srv_handle st = h \<and> mmio st = [] \<and>
    trigger (sz_remote (slot_zero (slot_state st))) =
      (trigger (sz_remote (init_slot_zero P)))\<lparr>ev_sem := None\<rparr>"
proof -
  define sz where "sz = page_align P (TOTAL_SLOTS * VCHIQ_SLOT_SIZE)"
  define z0 where "z0 = slot_zero_accessor_new (init_slot_zero P) (sz - slot_zero_offset (mapped_ptr P))"
  have sz: "unat sz = shared_mem_size P" by (simp add: sz_def shared_mem_size_def)
  have n: "63 \<le> data_slots P" "data_slots P \<le> 127" using data_slots_bounds [OF assms] by simp_all
  have "unat (slot_zero_offset (mapped_ptr P)) \<le> unat sz"
    using assms slot_zero_offset_bound [of "mapped_ptr P"] by (simp add: sz platform_ok_def)
  then have tm: "unat (total_memory z0) = shared_mem_size P - unat (slot_zero_offset (mapped_ptr P))"
    by (simp add: z0_def slot_zero_accessor_new_def unat_sub_small sz)
  have sh: "shared_state_shape (sz_local z0)"
    using assms by (simp add: z0_def slot_zero_accessor_new_def shared_state_accessor_new_def
        platform_ok_def shared_state_shape_def)
  have b: "4096 * 5 \<le> unat (total_memory z0)" "unat (total_memory z0) < 4096 * 130"
    using assms slot_zero_offset_bound [of "mapped_ptr P"] unfolding tm platform_ok_def by linarith+
  obtain z where z: "slot_zero_initialize S z0 = Ok (of_nat (data_slots P)) z" "slots_laid_out (data_slots P) z"
      "trigger (sz_remote z) = trigger (sz_remote z0)"
    using initialize_ok [OF b sh, of "data_slots P" S] tm by (auto simp: data_slots_def)
  let ?z = "z\<lparr>platform_data := (platform_data z)[0 := ucast ((alloc P (sz, page_size P) OR 0xC0000000) + sz),
    1 := ucast MAX_FRAGMENTS]\<rparr>"
  let ?st = "state_build S (sz, page_size P) (mapped_ptr P) (alloc P (sz, page_size P) OR 0xC0000000) ?z
    \<lparr>mem = init_mem P, slot_len = of_nat (data_slots P) + VCHIQ_SLOT_ZERO_SLOTS\<rparr>
    (init_fragments (mapped_ptr P + sz)) h"
  have m: "map_memory P (alloc P (sz, page_size P)) sz (push_bit 10 1 OR push_bit 8 2 OR push_bit 2 3) = mapped_ptr P"
    by (simp add: mapped_ptr_def sz_def)
  have "state_new S P h = Ok ?st ()"
    unfolding state_new_def slot_accessor_new_def Let_def sz_def [symmetric] layout_ok [OF assms, folded sz_def] option.case fst_conv m
      slot_zero_offset_def [symmetric] z0_def [symmetric] z(1)
    using slot_zero_aligned [of "mapped_ptr P"] by simp
  moreover have "fresh_state S P ?st"
    using state_build_fresh [OF z(2) n refl refl, of S _ h] by (simp only: sz_def [symmetric] fst_conv)
  moreover have "next_srv_handle ?st = h" "mmio ?st = []"
    "trigger (sz_remote (slot_zero (slot_state ?st))) = (trigger (sz_remote (init_slot_zero P)))\<lparr>ev_sem := None\<rparr>"
    using z(3) by (simp_all add: state_build_def Let_def z0_def slot_zero_accessor_new_def shared_state_accessor_new_def)
  ultimately show ?thesis by blast
qed

section \<open>The fresh state\<close>

lemma fresh_queue:
  assumes "fresh_state S P st" "platform_ok P" "k < tx_slots st"
  shows "unat (tx_queue st ! k) = 2 + data_slots P div 2 + k" "unat (tx_queue st ! k) \<le> data_slots P"
  using assms data_slots_bounds [OF assms(2)] by (auto simp: fresh_state_def slots_laid_out_def)

lemma fresh_tx_inv:
  assumes "fresh_state S P st" "platform_ok P"
  shows "tx_inv st"
proof -
  have "tx_slots st \<le> 64" "length (tx_queue st) = 64" "tx_of st = 0" "tx_data (slot_state st) = None"
    "unat (slot_len (slot_data (slot_state st))) = data_slots P + 1"
    using assms(1) data_slots_bounds [OF assms(2)] by (auto simp: fresh_state_def slots_laid_out_def)
  with fresh_queue [OF assms] show ?thesis by (fastforce simp: tx_inv_def)
qed

lemma fresh_queue_distinct:
  assumes "fresh_state S P st" "platform_ok P"
  shows "distinct (take (tx_slots st) (tx_queue st))"
proof -
  have "tx_slots st \<le> length (tx_queue st)"
    using assms(1) data_slots_bounds [OF assms(2)] by (auto simp: fresh_state_def slots_laid_out_def)
  with fresh_queue(1) [OF assms] show ?thesis
    by (auto simp: distinct_conv_nth word_unat_eq_iff)
qed

text \<open>The addresses of the fragments: all of them lie behind the memory that was allocated.\<close>

lemma chunks_63_of_64: "chunks_exact 63 [0..<64] = [[0..<63]]"
  by (simp add: chunks_exact.simps [of 63])

lemma init_fragments_eq:
  "init_fragments base = map (\<lambda>i. (base + of_nat (i * 64), ucast (base + of_nat ((i + 1) * 64)))) [0..<63]"
proof -
  have "fst fragment_layout = 64" by code_simp
  moreover have "unat MAX_FRAGMENTS = 64" by (simp add: config_defs)
  ultimately show ?thesis
    by (simp add: init_fragments_def Let_def chunks_63_of_64 del: upt_rec_numeral of_nat_mult of_nat_add)
qed

text \<open>The address alias of the VideoCore: two high bits, set for the mailbox and cleared on release.\<close>

lemma alias_bits_cleared:
  assumes "unat (a :: usize) < 2 ^ 30"
  shows "(a OR 0xC0000000) AND NOT 0xC0000000 = a"
proof -
  have t: "take_bit 30 a = a"
    by (intro word_unat_eq_iff [THEN iffD2]) (use assms in \<open>simp add: unsigned_take_bit_eq take_bit_nat_eq_self\<close>)
  have low: "n < 30" if "bit a n" for n
    using that by (metis t bit_take_bit_iff)
  have high: "30 \<le> n" if "bit (push_bit 30 y) n" for y :: usize and n
    using that by (simp add: bit_simps)
  have "(a OR push_bit 30 y) AND NOT (push_bit 30 y) = a" for y :: usize
    by (rule bit_word_eqI) (use low high in \<open>fastforce simp: bit_and_iff bit_or_iff bit_not_iff\<close>)
  from this [of 3] show ?thesis by simp
qed

section \<open>A concrete platform\<close>

definition zero_event :: "nat event_accessor" where
  "zero_event = \<lparr>armed = 0, fired = 0, event_word = 0, ev_sem = None\<rparr>"

definition zero_shared_state :: "nat shared_state" where
  "zero_shared_state = \<lparr>ss_initialized = 0, slot_first = 0, slot_last = 0, slot_sync = 0, trigger = zero_event,
     tx_pos = 0, recycle = zero_event, slot_queue_recycle = 0, sync_trigger = zero_event,
     sync_release = zero_event, slot_queue = replicate 64 0, debug = replicate 11 0\<rparr>"

definition zero_slot_zero :: "nat slot_zero" where
  "zero_slot_zero = \<lparr>magic = 0, sz_version = 0, sz_version_min = 0, slot_zero_size = 0, slot_size = 0,
     max_slots = 0, max_slots_per_side = 0, platform_data = [0, 0], sz_remote = zero_shared_state,
     sz_local = zero_shared_state, sz_slots = replicate 128 \<lparr>use_count = 0, release_count = 0\<rparr>,
     total_memory = 0\<rparr>"

text \<open>Pages of 4 KiB, memory at 4 MiB filled with zeros, mapped where it is.\<close>

definition board :: "nat platform" where
  "board = \<lparr>page_align = (\<lambda>n. (n + 4095) AND NOT 4095), page_size = 4096, alloc = (\<lambda>_. 0x400000),
     map_memory = (\<lambda>p _ _. p), init_mem = (\<lambda>_. 0), init_slot_zero = zero_slot_zero,
     set_vchiq_slot_base = (\<lambda>_. Inr 0)\<rparr>"

definition boot_state :: "nat state" where
  "boot_state = (case state_new counter_sem board NEXT_SRV_HANDLE_init of Ok st _ \<Rightarrow> st | _ \<Rightarrow> undefined)"

lemma board_mem: "page_align board (TOTAL_SLOTS * VCHIQ_SLOT_SIZE) = 0x41000"
  by (simp add: board_def TOTAL_SLOTS_val VCHIQ_SLOT_SIZE_def)

lemma board_ok: "platform_ok board"
  unfolding platform_ok_def shared_mem_size_def board_mem
  by (simp add: board_def zero_slot_zero_def zero_shared_state_def shared_state_shape_def config_defs)

lemma board_data_slots: "data_slots board = 64"
proof -
  have "mapped_ptr board = 0x400000" by (simp add: mapped_ptr_def board_def)
  then show ?thesis
    unfolding data_slots_def shared_mem_size_def board_mem by (simp add: slot_zero_offset_def slot_consts)
qed

lemma boot_state_new: "state_new counter_sem board NEXT_SRV_HANDLE_init = Ok boot_state ()"
  and boot_fresh: "fresh_state counter_sem board boot_state"
  and boot_handle: "next_srv_handle boot_state = 4096"
  and boot_bell: "mmio boot_state = []"
  and boot_remote: "trigger (sz_remote (slot_zero (slot_state boot_state))) = zero_event"
proof -
  obtain st where st: "state_new counter_sem board NEXT_SRV_HANDLE_init = Ok st ()"
      "fresh_state counter_sem board st" "next_srv_handle st = NEXT_SRV_HANDLE_init" "mmio st = []"
      "trigger (sz_remote (slot_zero (slot_state st))) = (trigger (sz_remote (init_slot_zero board)))\<lparr>ev_sem := None\<rparr>"
    using state_new_fresh [OF board_ok] by blast
  then have b: "boot_state = st" by (simp add: boot_state_def)
  from st show "state_new counter_sem board NEXT_SRV_HANDLE_init = Ok boot_state ()"
    "fresh_state counter_sem board boot_state" "mmio boot_state = []"
    by (simp_all add: b)
  show "next_srv_handle boot_state = 4096"
    using st(3) by (simp add: b NEXT_SRV_HANDLE_init_def config_defs)
  show "trigger (sz_remote (slot_zero (slot_state boot_state))) = zero_event"
    using st(5) by (simp add: b board_def zero_slot_zero_def zero_shared_state_def zero_event_def)
qed

lemma boot_tx_inv: "tx_inv boot_state"
  using boot_fresh board_ok by (rule fresh_tx_inv)

lemma boot_tx: "tx_of boot_state = 0" "tx_slots boot_state = 31"
  using boot_fresh by (simp_all add: fresh_state_def board_data_slots)

section \<open>Properties\<close>

text \<open>
  C19: On a suitable platform \<^verbatim>\<open>State::new\<close> succeeds: the slot zero is aligned to a slot (its
  assertion cannot fail), the state is disconnected and uninitialized with empty service table, and
  the transmit side satisfies its invariant with all its slots unused.
\<close>

theorem state_new_establishes:
  assumes "platform_ok P"
  shows "\<exists>st. state_new S P h = Ok st () \<and> tx_inv st \<and> tx_of st = 0 \<and>
    (shm_ptr st + slot_zero_offset (shm_ptr st)) mod VCHIQ_SLOT_SIZE = 0 \<and>
    conn_state st = DISCONNECTED \<and> \<not> initialized st \<and> services_of st = replicate 4096 None \<and>
    31 \<le> tx_slots st \<and> tx_slots st \<le> 63 \<and> data_quota (quota_state st) = slot_queue_available st - 1"
proof -
  obtain st where st: "state_new S P h = Ok st ()" "fresh_state S P st"
    using state_new_fresh [OF assms] by blast
  have "31 \<le> tx_slots st" "tx_slots st \<le> 63"
    using st(2) data_slots_bounds [OF assms] unfolding fresh_state_def by linarith+
  with st fresh_tx_inv [OF st(2) assms] slot_zero_aligned show ?thesis
    by (auto simp: fresh_state_def)
qed

theorem state_new_establishes_witness:
  "platform_ok board \<and> (\<exists>st. state_new counter_sem board 4096 = Ok st () \<and> tx_inv st \<and> tx_of st = 0 \<and>
    (shm_ptr st + slot_zero_offset (shm_ptr st)) mod VCHIQ_SLOT_SIZE = 0 \<and>
    conn_state st = DISCONNECTED \<and> \<not> initialized st \<and> services_of st = replicate 4096 None \<and>
    31 \<le> tx_slots st \<and> tx_slots st \<le> 63 \<and> data_quota (quota_state st) = slot_queue_available st - 1)"
  using state_new_establishes [OF board_ok, of counter_sem 4096] board_ok by blast

text \<open>
  C20: The slots handed out for sending by a fresh state are pairwise different slots of the shared
  memory; none is the slot zero, a slot of the VideoCore or the synchronous slot of the ARM side.
\<close>

theorem fresh_slots_exclusive:
  assumes "platform_ok P" "state_new S P h = Ok st ()"
  shows "distinct (take (tx_slots st) (tx_queue st)) \<and>
    (\<forall>k < tx_slots st. unat (tx_queue st ! k) < unat (slot_len (slot_data (slot_state st))) \<and>
       slot_last (sz_remote (slot_zero (slot_state st))) < tx_queue st ! k \<and>
       slot_sync (sz_local (slot_zero (slot_state st))) < tx_queue st ! k)"
proof -
  have f: "fresh_state S P st" using state_new_fresh [OF assms(1), of S h] assms(2) by auto
  have "unat (slot_len (slot_data (slot_state st))) = data_slots P + 1"
    "unat (slot_last (sz_remote (slot_zero (slot_state st)))) = data_slots P div 2"
    "unat (slot_sync (sz_local (slot_zero (slot_state st)))) = 1 + data_slots P div 2"
    using f by (simp_all add: fresh_state_def slots_laid_out_def)
  with fresh_queue [OF f assms(1)] fresh_queue_distinct [OF f assms(1)] show ?thesis
    by (fastforce simp: word_less_nat_alt)
qed

theorem fresh_slots_exclusive_witness:
  "distinct (take 31 (tx_queue boot_state)) \<and>
   unat (tx_queue boot_state ! 30) < unat (slot_len (slot_data (slot_state boot_state))) \<and>
   slot_last (sz_remote (slot_zero (slot_state boot_state))) < tx_queue boot_state ! 0 \<and>
   slot_sync (sz_local (slot_zero (slot_state boot_state))) < tx_queue boot_state ! 0"
  using fresh_slots_exclusive [OF board_ok boot_state_new] boot_tx(2) by simp

text \<open>
  C40: The fragment list that \<^verbatim>\<open>State::new\<close> initializes does not lie in the memory it has allocated:
  each of the 63 words written is behind the end of the allocation.
\<close>

theorem fragments_outside_allocation:
  assumes "platform_ok P" "state_new S P h = Ok st ()"
    and "unat (shm_ptr st) + shared_mem_size P + 4096 < 2 ^ 64"
  shows "length (fragment_writes st) = 63 \<and>
    (\<forall>(a, v) \<in> set (fragment_writes st). unat (shm_ptr st) + unat (fst (shm_ptr_layout st)) \<le> unat a)"
proof -
  have f: "fresh_state S P st" using state_new_fresh [OF assms(1), of S h] assms(2) by auto
  let ?b = "shm_ptr st + page_align P (TOTAL_SLOTS * VCHIQ_SLOT_SIZE)"
  have w: "fragment_writes st = init_fragments ?b" "unat (fst (shm_ptr_layout st)) = shared_mem_size P"
    using f by (simp_all add: fresh_state_def shared_mem_size_def)
  have b: "unat ?b = unat (shm_ptr st) + shared_mem_size P"
    using assms(3) by (subst unat_add_small) (simp_all add: shared_mem_size_def)
  have "unat ?b \<le> unat (?b + of_nat (i * 64))" if "i < 63" for i
  proof -
    have u: "unat (of_nat (i * 64) :: usize) = i * 64" using that by (intro unat_of_nat_small) simp
    have "unat ?b + i * 64 < 2 ^ 64" unfolding b using assms(3) that by simp
    then show ?thesis using u unat_add_small [of ?b "of_nat (i * 64)"] by simp
  qed
  then show ?thesis
    unfolding w init_fragments_eq b [symmetric] by (auto simp del: upt_rec_numeral of_nat_mult)
qed

theorem fragments_outside_allocation_witness:
  "length (fragment_writes boot_state) = 63 \<and>
    list_all (\<lambda>(a, v). unat (shm_ptr boot_state) + unat (fst (shm_ptr_layout boot_state)) \<le> unat a)
      (fragment_writes boot_state)"
proof -
  have "shm_ptr boot_state = 0x400000" using boot_fresh by (simp add: fresh_state_def mapped_ptr_def board_def)
  then have "unat (shm_ptr boot_state) + shared_mem_size board + 4096 < 2 ^ 64"
    unfolding shared_mem_size_def board_mem by simp
  from fragments_outside_allocation [OF board_ok boot_state_new this] show ?thesis
    unfolding list_all_iff .
qed

text \<open>
  Dropping the state hands the address and layout obtained from the allocator back to it, as
  long as the allocator returns addresses below 1 GiB (the alias bits of the VideoCore are clear).
\<close>

theorem drop_returns_allocation:
  assumes "platform_ok P" "state_new S P h = Ok st ()"
    and "alloc P (page_align P (TOTAL_SLOTS * VCHIQ_SLOT_SIZE), page_size P) < 0x40000000"
  shows "state_drop st = (alloc P (shm_ptr_layout st), shm_ptr_layout st)"
proof -
  have f: "fresh_state S P st" using state_new_fresh [OF assms(1), of S h] assms(2) by auto
  let ?a = "alloc P (shm_ptr_layout st)"
  have a: "unat ?a < 2 ^ 30" using f assms(3) by (simp add: fresh_state_def word_less_nat_alt)
  then have "state_drop st = (?a, shm_ptr_layout st)"
    using alias_bits_cleared [of ?a] f by (simp add: state_drop_def fresh_state_def)
  then show ?thesis .
qed

theorem drop_returns_allocation_witness:
  "state_drop boot_state = (0x400000, shm_ptr_layout boot_state)"
  using drop_returns_allocation [OF board_ok boot_state_new] by (simp add: board_def)

end
