(* ===== verification/Transmit.thy ===== *)
theory Transmit
  imports Boot
begin

text \<open>
  What sending a message achieves: \<^verbatim>\<open>State::queue_message\<close> against the stream of messages that
  the VideoCore reads from the slots of the ARM side, the quotas that stop it, and the error paths.
\<close>

section \<open>The state after a message has been queued\<close>

lemma signal_videocore_simps [simp]:
  "slot_data (slot_state (signal_videocore st)) = slot_data (slot_state st)"
  "local_tx_pos (slot_state (signal_videocore st)) = local_tx_pos (slot_state st)"
  "rx_pos (slot_state (signal_videocore st)) = rx_pos (slot_state st)"
  "tx_data (slot_state (signal_videocore st)) = tx_data (slot_state st)"
  "rx_data (slot_state (signal_videocore st)) = rx_data (slot_state st)"
  "sz_local (slot_zero (slot_state (signal_videocore st))) = sz_local (slot_zero (slot_state st))"
  "slot_queue_available (signal_videocore st) = slot_queue_available st"
  "quota_state (signal_videocore st) = quota_state st"
  "srv_state (signal_videocore st) = srv_state st"
  "next_srv_handle (signal_videocore st) = next_srv_handle st"
  "conn_state (signal_videocore st) = conn_state st"
  "connect_sem (signal_videocore st) = connect_sem st"
  "initialized (signal_videocore st) = initialized st"
  "tx_pos (sz_remote (slot_zero (slot_state (signal_videocore st)))) = tx_pos (sz_remote (slot_zero (slot_state st)))"
  "slot_queue (sz_remote (slot_zero (slot_state (signal_videocore st)))) = slot_queue (sz_remote (slot_zero (slot_state st)))"
  "fired (trigger (sz_remote (slot_zero (slot_state (signal_videocore st))))) = 1"
  "mmio (signal_videocore st) = (if armed (trigger (sz_remote (slot_zero (slot_state st)))) \<noteq> 0
     then mmio st @ [(BELL2, 0)] else mmio st)"
  by (simp_all add: signal_videocore_def signal_remote_def ring_vc_doorbell_def Let_def)

lemma publish_tx_pos_simps [simp]:
  "slot_data (slot_state (publish_tx_pos st)) = slot_data (slot_state st)"
  "local_tx_pos (slot_state (publish_tx_pos st)) = local_tx_pos (slot_state st)"
  "rx_pos (slot_state (publish_tx_pos st)) = rx_pos (slot_state st)"
  "tx_data (slot_state (publish_tx_pos st)) = tx_data (slot_state st)"
  "rx_data (slot_state (publish_tx_pos st)) = rx_data (slot_state st)"
  "sz_remote (slot_zero (slot_state (publish_tx_pos st))) = sz_remote (slot_zero (slot_state st))"
  "slot_queue (sz_local (slot_zero (slot_state (publish_tx_pos st)))) = slot_queue (sz_local (slot_zero (slot_state st)))"
  "tx_pos (sz_local (slot_zero (slot_state (publish_tx_pos st)))) = ucast (local_tx_pos (slot_state st))"
  "slot_queue_available (publish_tx_pos st) = slot_queue_available st"
  "quota_state (publish_tx_pos st) = quota_state st"
  "srv_state (publish_tx_pos st) = srv_state st"
  "next_srv_handle (publish_tx_pos st) = next_srv_handle st"
  "conn_state (publish_tx_pos st) = conn_state st"
  "connect_sem (publish_tx_pos st) = connect_sem st"
  "initialized (publish_tx_pos st) = initialized st"
  "mmio (publish_tx_pos st) = mmio st"
  by (simp_all add: publish_tx_pos_def Let_def)

text \<open>The memory after a message has been queued: a padding message when the slot is left, then the
  message itself.\<close>

definition queued_mem :: "u32 \<Rightarrow> u8 list option \<Rightarrow> nat \<Rightarrow> 'sem state \<Rightarrow> (nat \<Rightarrow> u8)" where
  "queued_mem msg_id c t st =
     write_at (if t = tx_of st then tx_mem st else mem (padded st))
       (slot_addr (tx_position st t)) (queued_message msg_id c)"

definition sent_services :: "nat option \<Rightarrow> message_type \<Rightarrow> 'sem state \<Rightarrow> 'sem srv_state" where
  "sent_services service ty st =
     (case service of
        Some i \<Rightarrow> if ty = CLOSE then srv_state (update_service i (set_state CLOSESENT) st) else srv_state st
      | None \<Rightarrow> srv_state st)"

lemma srv_state_update_cong:
  "srv_state st = srv_state st' \<Longrightarrow> srv_state (update_service i f st) = srv_state (update_service i f st')"
  by (simp add: update_service_def)

lemma queued_state_simps:
  fixes st :: "'sem state" and service ty msg_id c t
  defines "st' \<equiv> queued_state service ty msg_id c t st"
    and "s \<equiv> stride_of (queued_message msg_id c)"
  shows "local_tx_pos (slot_state st') = of_nat (t + s)"
    "tx_pos (sz_local (slot_zero (slot_state st'))) = ucast (local_tx_pos (slot_state st'))"
    "tx_data (slot_state st') = Some (tx_position st t)"
    "rx_data (slot_state st') = rx_data (slot_state st)"
    "rx_pos (slot_state st') = rx_pos (slot_state st)"
    "tx_queue st' = tx_queue st"
    "tx_mem st' = queued_mem msg_id c t st"
    "slot_len (slot_data (slot_state st')) = slot_len (slot_data (slot_state st))"
    "slot_queue_available st' = slot_queue_available st"
    "srv_state st' = sent_services service ty st"
    "fired (trigger (sz_remote (slot_zero (slot_state st')))) = 1"
    "mmio st' = (if armed (trigger (sz_remote (slot_zero (slot_state st)))) \<noteq> 0 then mmio st @ [(BELL2, 0)] else mmio st)"
    "conn_state st' = conn_state st"
    "connect_sem st' = connect_sem st"
    "next_srv_handle st' = next_srv_handle st"
    "quota_state st' = accounted ty (borrow_ref st service) (queue_index (of_nat (t + s) - 1)) (quota_state st)"
  by (auto simp: st'_def s_def queued_state_def Let_def reserved_def queued_mem_def padded_def sent_services_def
      update_service_def split: option.splits)

lemma tx_inv_cong:
  assumes "local_tx_pos (slot_state st) = local_tx_pos (slot_state st')"
    "slot_queue_available st = slot_queue_available st'" "tx_queue st = tx_queue st'"
    "slot_len (slot_data (slot_state st)) = slot_len (slot_data (slot_state st'))"
    "tx_data (slot_state st) = tx_data (slot_state st')"
  shows "tx_inv st = tx_inv st'"
  unfolding tx_inv_def assms by (rule refl)

text \<open>A message is accepted when it fits into a slot, and a data message moreover passes the quota
  checks without waiting.\<close>

definition sendable ::
  "'sem sem_ops \<Rightarrow> nat option \<Rightarrow> u32 \<Rightarrow> u8 list option \<Rightarrow> 'sem state \<Rightarrow> bool" where
  "sendable S service msg_id c st \<longleftrightarrow>
     context_size c \<le> 4088 \<and>
     (case msg_type_from_id msg_id of
        None \<Rightarrow> False
      | Some ty \<Rightarrow> data_service_ok ty (borrow_ref st service) (quota_state st) \<and>
          (if ty = DATA then data_quota_check S service (calc_msg_stride (of_nat (context_size c))) st = Ok () st
           else True))"

text \<open>The position in the stream where the message goes.\<close>

definition tx_target :: "u32 \<Rightarrow> u8 list option \<Rightarrow> 'sem state \<Rightarrow> nat" where
  "tx_target msg_id c st = next_tx (stride_of (queued_message msg_id c)) (tx_of st)"

lemma queue_message_cases:
  assumes "tx_inv st" "sendable S service msg_id c st"
  obtains (full) "tx_target msg_id c st = tx_slots st * 4096"
      "queue_message S service msg_id c b st =
         Panic ''assertion failed: tx_pos != self.slot_queue_available * VCHIQ_SLOT_SIZE''"
  | (sent) ty where "msg_type_from_id msg_id = Some ty" "tx_target msg_id c st < tx_slots st * 4096"
      "queue_message S service msg_id c b st = Ok () (queued_state service ty msg_id c (tx_target msg_id c st) st)"
proof -
  from assms(2) obtain ty where ty: "context_size c \<le> 4088" "msg_type_from_id msg_id = Some ty"
    "data_service_ok ty (borrow_ref st service) (quota_state st)"
    "ty = DATA \<Longrightarrow> data_quota_check S service (calc_msg_stride (of_nat (context_size c))) st = Ok () st"
    by (auto simp: sendable_def split: option.splits if_splits)
  note q = queue_message_eq [OF assms(1) ty(2,1,4,3), of "tx_target msg_id c st" b]
  have "tx_target msg_id c st \<le> tx_slots st * 4096"
    using next_tx_le(1) [OF assms(1)] stride_queued_bounds [OF ty(1) refl]
    by (simp add: tx_target_def)
  with q ty(2) show ?thesis
    by (cases "tx_target msg_id c st = tx_slots st * 4096") (auto simp: tx_target_def intro: full sent)
qed

lemma queued_facts:
  fixes st :: "'sem state" and service ty
  assumes "tx_inv st" "context_size c \<le> 4088" "tx_target msg_id c st < tx_slots st * 4096"
  defines "t \<equiv> tx_target msg_id c st" and "s \<equiv> stride_of (queued_message msg_id c)"
    and "st' \<equiv> queued_state service ty msg_id c (tx_target msg_id c st) st"
  shows "tx_inv st'" "tx_of st' = t + s" "t + s \<le> tx_slots st * 4096"
    "unat (tx_pos (sz_local (slot_zero (slot_state st')))) = t + s"
    "read_message (slot_data (slot_state st')) (tx_position st t) = Ok (queued_message msg_id c) ()"
    "slot_addr (tx_position st t) = unat (tx_queue st ! (t div 4096)) * 4096 + t mod 4096"
    "t mod 4096 + s \<le> 4096" "t div 4096 < tx_slots st"
proof -
  note s = stride_queued_bounds [OF assms(2) refl, of msg_id, folded s_def]
  have t: "t = next_tx s (tx_of st)" "t < tx_slots st * 4096" "t \<noteq> tx_slots st * 4096"
    using assms(3) by (simp_all add: t_def tx_target_def s_def)
  note r = reserved_inv [OF assms(1) s(1-3), folded t(1), OF t(3)]
  note q = queued_state_simps [of service ty msg_id c t st, folded s_def]
  have st': "st' = queued_state service ty msg_id c t st" by (simp add: st'_def t_def)
  show tx: "tx_of st' = t + s"
    using r(6) q(1) by (simp add: st' reserved_def)
  show b: "t + s \<le> tx_slots st * 4096" "t div 4096 < tx_slots st" using r by simp_all
  have "tx_inv st' = tx_inv (reserved st t s)"
    by (rule tx_inv_cong) (simp_all add: st' q slot_len_reserved, simp_all add: reserved_def)
  with r(1) show "tx_inv st'" by simp
  have "t + s < 2 ^ 32" using b(1) tx_invD(3) [OF assms(1)] by simp
  then show "unat (tx_pos (sz_local (slot_zero (slot_state st')))) = t + s"
    using tx by (simp add: st' q(2) unat_ucast_usize_u32)
  show f: "t mod 4096 + s \<le> 4096" unfolding t(1) by (rule next_tx_slot [OF s(1,2)])
  then have "t mod 4096 + (8 + context_size c) \<le> 4096" using s(4) by linarith
  note p = tx_position_in_memory [OF assms(1) b(2) this]
  then show "slot_addr (tx_position st t) = unat (tx_queue st ! (t div 4096)) * 4096 + t mod 4096" by simp
  show "read_message (slot_data (slot_state st')) (tx_position st t) = Ok (queued_message msg_id c) ()"
    using p assms(2) unfolding st'
    by (intro read_message_at)
      (simp_all add: q queued_mem_def write_at_message_at queued_well_sized in_memory_def)
qed

section \<open>The stream of messages in a slot\<close>

definition slot_base :: "'sem state \<Rightarrow> nat \<Rightarrow> nat" where
  "slot_base st k = unat (tx_queue st ! k) * 4096"

definition slot_stream :: "'sem state \<Rightarrow> nat \<Rightarrow> slot_message list \<Rightarrow> bool" where
  "slot_stream st k ms \<longleftrightarrow>
     stream_at message_at stride_of (tx_mem st) (slot_base st k) ms \<and>
     sum_list (map stride_of ms) \<le> 4096"

text \<open>A message that fits into the current slot extends the stream of this slot and leaves the
  streams of the other slots alone.\<close>

lemma queued_stream:
  fixes st :: "'sem state" and service ty
  assumes "tx_inv st" "context_size c \<le> 4088" "tx_target msg_id c st < tx_slots st * 4096"
    and "tx_target msg_id c st = tx_of st"
    and "slot_stream st (tx_of st div 4096) ms" "sum_list (map stride_of ms) = tx_of st mod 4096"
  defines "st' \<equiv> queued_state service ty msg_id c (tx_target msg_id c st) st"
  shows "slot_stream st' (tx_of st div 4096) (ms @ [queued_message msg_id c])"
    "sum_list (map stride_of (ms @ [queued_message msg_id c])) = tx_of st' - tx_of st div 4096 * 4096"
proof -
  note f = queued_facts [OF assms(1-3)]
  note q = queued_state_simps [of service ty msg_id c "tx_target msg_id c st" st, folded st'_def]
  have m: "tx_mem st' = write_at (tx_mem st) (slot_base st (tx_of st div 4096) + sum_list (map stride_of ms))
      (queued_message msg_id c)"
    using f(6) assms(4,6) by (simp add: q queued_mem_def slot_base_def)
  have b: "slot_base st' k = slot_base st k" for k by (simp add: slot_base_def q)
  show "slot_stream st' (tx_of st div 4096) (ms @ [queued_message msg_id c])"
    using assms(2,4-6) f(7) slot_mem.stream_at_snoc [of "tx_mem st" _ ms "queued_message msg_id c"]
    by (simp add: slot_stream_def m b queued_well_sized)
  show "sum_list (map stride_of (ms @ [queued_message msg_id c])) = tx_of st' - tx_of st div 4096 * 4096"
    using f(2) assms(4,6) minus_mod_eq_div_mult [of "tx_of st" 4096]
    by (simp add: st'_def minus_div_mult_eq_mod [symmetric] add.commute)
qed

lemma queued_stream_other:
  assumes "tx_inv st" "context_size c \<le> 4088" "tx_target msg_id c st < tx_slots st * 4096"
    and "tx_target msg_id c st = tx_of st" "slot_stream st k ms"
    and "tx_queue st ! k \<noteq> tx_queue st ! (tx_of st div 4096)"
  shows "slot_stream (queued_state service ty msg_id c (tx_target msg_id c st) st) k ms"
proof -
  let ?st' = "queued_state service ty msg_id c (tx_target msg_id c st) st"
  note f = queued_facts [OF assms(1-3)]
  note q = queued_state_simps
  let ?a = "slot_base st (tx_of st div 4096) + tx_of st mod 4096"
  have m: "tx_mem ?st' = write_at (tx_mem st) ?a (queued_message msg_id c)"
    using f(6) assms(4) by (simp add: q queued_mem_def slot_base_def)
  have ne: "unat (tx_queue st ! k) \<noteq> unat (tx_queue st ! (tx_of st div 4096))"
    using assms(6) by (simp add: word_unat_eq_iff)
  have "stream_at message_at stride_of (write_at (tx_mem st) ?a (queued_message msg_id c)) (slot_base st k) ms"
    if "slot_base st k + 4096 \<le> ?a \<or> ?a + stride_of (queued_message msg_id c) \<le> slot_base st k"
    using that assms(2,5) by (intro slot_mem.stream_at_put_apart) (auto simp: slot_stream_def queued_well_sized)
  moreover have "slot_base st k + 4096 \<le> ?a \<or> ?a + stride_of (queued_message msg_id c) \<le> slot_base st k"
    using ne f(7) assms(4) unfolding slot_base_def by (rule_tac slot_apart) auto
  moreover have "slot_base ?st' k = slot_base st k" by (simp add: slot_base_def q)
  ultimately show ?thesis using assms(5) unfolding slot_stream_def m by simp
qed

section \<open>Sequences of control messages\<close>

text \<open>Several messages queued one after the other.\<close>

fun queue_all ::
  "'sem sem_ops \<Rightarrow> (nat option \<times> u32 \<times> u8 list option) list \<Rightarrow> 'sem state \<Rightarrow> (unit, 'sem state) result" where
  "queue_all S [] st = Ok () st"
| "queue_all S ((service, msg_id, c) # ms) st =
     seq_res (queue_message S service msg_id c True st) (\<lambda>_ st. queue_all S ms st)"

definition control_message :: "nat option \<times> u32 \<times> u8 list option \<Rightarrow> bool" where
  "control_message x = (case x of (service, msg_id, c) \<Rightarrow>
     context_size c \<le> 4088 \<and>
     (case msg_type_from_id msg_id of None \<Rightarrow> False | Some ty \<Rightarrow> ty \<noteq> DATA))"

definition as_queued :: "nat option \<times> u32 \<times> u8 list option \<Rightarrow> slot_message" where
  "as_queued x = (case x of (service, msg_id, c) \<Rightarrow> queued_message msg_id c)"

lemma as_queued_simps [simp]: "as_queued (service, msg_id, c) = queued_message msg_id c"
  by (simp add: as_queued_def)

lemma control_sendable: "control_message (service, msg_id, c) \<Longrightarrow> sendable S service msg_id c st"
  by (auto simp: control_message_def sendable_def data_service_ok_def split: option.splits)

lemma control_size: "control_message (service, msg_id, c) \<Longrightarrow> context_size c \<le> 4088"
  by (simp add: control_message_def)

lemma queue_all_stream:
  assumes "tx_inv st" "\<forall>x \<in> set ms. control_message x" "k < tx_slots st"
    and "slot_stream st k ns" "k * 4096 + sum_list (map stride_of ns) = tx_of st"
    and "sum_list (map stride_of (ns @ map as_queued ms)) \<le> 4096"
  shows "\<exists>st'. queue_all S ms st = Ok () st' \<and> tx_inv st' \<and> slot_stream st' k (ns @ map as_queued ms) \<and>
    tx_of st' = k * 4096 + sum_list (map stride_of (ns @ map as_queued ms))"
  using assms
proof (induction ms arbitrary: st ns)
  case (Cons x ms)
  obtain service msg_id c where x: "x = (service, msg_id, c)" by (cases x)
  let ?m = "queued_message msg_id c"
  have cm: "control_message (service, msg_id, c)" using Cons.prems(2) x by simp
  note sz = control_size [OF cm]
  have tot: "sum_list (map stride_of ns) + stride_of ?m \<le> 4096"
    using Cons.prems(6) by (simp add: x)
  then have lt: "sum_list (map stride_of ns) < 4096" using stride_of_pos [of ?m] by linarith
  then have d: "tx_of st div 4096 = k" and r: "tx_of st mod 4096 = sum_list (map stride_of ns)"
    unfolding Cons.prems(5) [symmetric] by simp_all
  have t: "tx_target msg_id c st = tx_of st"
    using tot r by (simp add: tx_target_def next_tx_def)
  have "(k + 1) * 4096 \<le> tx_slots st * 4096" using Cons.prems(3) by (intro mult_le_mono1) simp
  then have tl: "tx_target msg_id c st < tx_slots st * 4096"
    using t lt Cons.prems(5) unfolding add_mult_distrib by linarith
  from queue_message_cases [OF Cons.prems(1) control_sendable [OF cm]] tl
  obtain ty where q: "queue_message S service msg_id c True st =
      Ok () (queued_state service ty msg_id c (tx_target msg_id c st) st)"
    by (metis nat_less_le)
  let ?st = "queued_state service ty msg_id c (tx_target msg_id c st) st"
  note f = queued_facts [OF Cons.prems(1) sz tl]
  have tx: "k * 4096 + sum_list (map stride_of (ns @ [?m])) = tx_of ?st"
    using f(2) t Cons.prems(5) by simp
  have str: "slot_stream ?st k (ns @ [?m])"
    using queued_stream(1) [OF Cons.prems(1) sz tl t] Cons.prems(4) d r by simp
  have sl: "tx_slots ?st = tx_slots st" by (simp add: queued_state_simps)
  have "\<exists>st'. queue_all S ms ?st = Ok () st' \<and> tx_inv st' \<and> slot_stream st' k ((ns @ [?m]) @ map as_queued ms) \<and>
    tx_of st' = k * 4096 + sum_list (map stride_of ((ns @ [?m]) @ map as_queued ms))"
    using Cons.prems f(1) str tx sl by (intro Cons.IH) (auto simp: x)
  then show ?case by (simp add: x q)
qed simp

section \<open>Leaving a slot\<close>

text \<open>
  When the message does not fit into the rest of the slot, the header of the \<^emph>\<open>last\<close> message is
  overwritten with the padding header, since \<^verbatim>\<open>tx_data\<close> holds the position of that message.
\<close>

definition padding_at_tx :: "nat \<Rightarrow> slot_message" where
  "padding_at_tx tx = \<lparr>header = \<lparr>msgid = VCHIQ_MSGID_PADDING, msg_size = of_nat (4096 - tx mod 4096 - 8)\<rparr>, msg_data = []\<rparr>"

lemma padded_stride:
  assumes "8 dvd tx"
  shows "(4096 - tx mod 4096 - 8 + 15) div 8 * 8 = 4096 - tx mod (4096 :: nat)"
proof -
  have "8 dvd tx mod 4096" using assms by (simp add: dvd_mod)
  then obtain k where k: "tx mod 4096 = 8 * k" by blast
  then have "8 * k < 4096" by (metis mod_less_divisor zero_less_numeral)
  then have "4096 - 8 * k - 8 + 15 = 7 + (512 - k) * 8" "4096 - 8 * k = (512 - k) * 8" by simp_all
  then show ?thesis unfolding k by simp
qed

lemma padded_header:
  assumes "tx_data (slot_state st) = Some p"
  shows "header_of_bytes (load_bytes (mem (padded st)) (slot_addr p) 8) = header (padding_at_tx (tx_of st))"
  using assms by (simp add: padded_def write_at_def message_bytes_def padding_at_tx_def)

lemma queued_mem_elsewhere:
  assumes "t \<noteq> tx_of st" "well_sized (queued_message msg_id c)"
    and "a + n \<le> slot_addr (tx_position st t) \<or>
      slot_addr (tx_position st t) + stride_of (queued_message msg_id c) \<le> a"
  shows "load_bytes (queued_mem msg_id c t st) a n = load_bytes (mem (padded st)) a n"
  using assms stride_of_bounds(1) [of "queued_message msg_id c"]
  by (auto simp: queued_mem_def write_at_def well_sized_def intro!: load_store_disjoint)

section \<open>Waiting for quota\<close>

lemma data_quota_loop_free:
  assumes "idx = previous_data_index (quota_state st) \<or> data_use_count (quota_state st) \<noteq> data_quota (quota_state st)"
  shows "data_quota_loop S stride idx st = Some (idx, st)"
  using assms by (subst data_quota_loop.simps) auto

lemma service_quota_loop_free:
  assumes "q = quotas_of st ! unat (localport srv)"
    and "message_use_count q \<noteq> message_quota q"
    and "idx = previous_tx_index q \<or> slot_use_count q \<noteq> slot_quota q"
  shows "service_quota_loop S stride srv idx st = Some (Ok () st)"
  using assms by (subst service_quota_loop.simps) (auto simp: Let_def)

text \<open>Once all data slots are in use, a message for a new slot waits for an event that would have to
  come from a freed slot; without that, the semaphore is drained and the call does not return.\<close>

lemma data_quota_loop_stuck:
  assumes "sem_laws S cnt"
    and "idx = queue_index (local_tx_pos (slot_state st) + stride - 1)"
    and "idx \<noteq> previous_data_index (quota_state st)"
    and "data_use_count (quota_state st) = data_quota (quota_state st)"
  shows "data_quota_loop S stride idx st = None"
  using assms(2-)
proof (induction "cnt (data_quota_event st)" arbitrary: st)
  case 0
  then have "sem_down S (data_quota_event st) = None"
    using down_lawD(1) [OF sem_lawsD(7) [OF assms(1)]] by metis
  with 0 show ?case by (subst data_quota_loop.simps) simp
next
  case (Suc n)
  then obtain s where s: "sem_down S (data_quota_event st) = Some s" "cnt s = n"
    using down_lawD(2) [OF sem_lawsD(7) [OF assms(1)], of "data_quota_event st"] by auto
  have "data_quota_loop S stride idx (st\<lparr>data_quota_event := s\<rparr>) = None"
    using Suc.prems s(2) by (intro Suc.hyps) simp_all
  with Suc.prems s(1) show ?case
    by (subst data_quota_loop.simps) (simp add: Let_def)
qed

lemma service_quota_loop_stuck:
  assumes "sem_laws S cnt"
    and "idx = queue_index (local_tx_pos (slot_state st) + stride - 1)"
    and "unat (localport srv) < length (quotas_of st)"
    and "q = quotas_of st ! unat (localport srv)"
    and "message_use_count q = message_quota q \<or> idx \<noteq> previous_tx_index q \<and> slot_use_count q = slot_quota q"
    and "\<not> closing srv" "srvstate srv = OPEN"
  shows "service_quota_loop S stride srv idx st = None"
  using assms(2-5)
proof (induction "cnt (quota_event q)" arbitrary: st q)
  case 0
  then have "sem_down S (quota_event q) = None"
    using down_lawD(1) [OF sem_lawsD(7) [OF assms(1)]] by metis
  with 0 show ?case by (subst service_quota_loop.simps) (simp add: Let_def)
next
  case (Suc n)
  then obtain s where s: "sem_down S (quota_event q) = Some s" "cnt s = n"
    using down_lawD(2) [OF sem_lawsD(7) [OF assms(1)], of "quota_event q"] by auto
  let ?st = "update_quota (unat (localport srv)) (\<lambda>q. q\<lparr>quota_event := s\<rparr>) st"
  have "quotas_of ?st ! unat (localport srv) = q\<lparr>quota_event := s\<rparr>"
    using Suc.prems(2,3) by (simp add: update_quota_def)
  then have "service_quota_loop S stride srv idx ?st = None"
    using Suc.prems s(2) by (intro Suc.hyps(1) [of "q\<lparr>quota_event := s\<rparr>"]) simp_all
  with Suc.prems(1,3,4) s(1) assms(6,7) show ?case
    by (subst service_quota_loop.simps) (simp add: Let_def)
qed

text \<open>The conditions under which the two loops let a data message pass at once.\<close>

definition data_quota_free :: "usize \<Rightarrow> 'sem state \<Rightarrow> bool" where
  "data_quota_free stride st \<longleftrightarrow>
     (let idx = queue_index (local_tx_pos (slot_state st) + stride - 1); q = quota_state st
      in idx = previous_data_index q \<or> data_use_count q \<noteq> data_quota q)"

definition service_quota_free :: "usize \<Rightarrow> 'sem service \<Rightarrow> 'sem state \<Rightarrow> bool" where
  "service_quota_free stride srv st \<longleftrightarrow>
     (let idx = queue_index (local_tx_pos (slot_state st) + stride - 1);
          q = quotas_of st ! unat (localport srv)
      in message_use_count q \<noteq> message_quota q \<and>
         (idx = previous_tx_index q \<or> slot_use_count q \<noteq> slot_quota q))"

lemma data_quota_check_free:
  assumes "get_service st i = Some srv" "\<not> closing srv" "unat (localport srv) < length (quotas_of st)"
    and "data_quota_free stride st" "service_quota_free stride srv st"
  shows "data_quota_check S (Some i) stride st = Ok () st"
  using assms
  by (simp add: data_quota_check_def data_quota_free_def service_quota_free_def Let_def
      data_quota_loop_free service_quota_loop_free)

lemma data_quota_check_Ok:
  assumes "sem_laws S cnt" "data_quota_check S service stride st = Ok () st'"
  obtains i srv where "service = Some i" "get_service st i = Some srv" "\<not> closing srv"
    "unat (localport srv) < length (quotas_of st)" "data_quota_free stride st"
    "service_quota_free stride srv st" "st' = st"
proof -
  let ?idx = "queue_index (local_tx_pos (slot_state st) + stride - 1)"
  from assms(2) obtain i srv idx' st1 where s: "service = Some i" "get_service st i = Some srv"
      "\<not> closing srv" "unat (localport srv) < length (quotas_of st)"
    and l: "data_quota_loop S stride ?idx st = Some (idx', st1)"
      "service_quota_loop S stride srv idx' st1 = Some (Ok () st')"
    by (auto simp: data_quota_check_def split: option.splits if_splits prod.splits)
  have f: "data_quota_free stride st"
    using l(1) data_quota_loop_stuck [OF assms(1) refl, of st stride]
    by (auto simp: data_quota_free_def Let_def)
  then have e: "idx' = ?idx" "st1 = st"
    using l(1) by (auto simp: data_quota_loop_free data_quota_free_def Let_def)
  have g: "service_quota_free stride srv st"
  proof (rule ccontr)
    assume "\<not> ?thesis"
    then have stuck: "message_use_count (quotas_of st ! unat (localport srv)) = message_quota (quotas_of st ! unat (localport srv)) \<or>
        ?idx \<noteq> previous_tx_index (quotas_of st ! unat (localport srv)) \<and>
        slot_use_count (quotas_of st ! unat (localport srv)) = slot_quota (quotas_of st ! unat (localport srv))"
      by (auto simp: service_quota_free_def Let_def)
    show False
    proof (cases "srvstate srv = OPEN")
      case True
      then show False
        using service_quota_loop_stuck [OF assms(1) refl s(4) refl stuck s(3)] l(2) e by simp
    next
      case False
      then show False
        using l(2) stuck s(3) e by (subst (asm) service_quota_loop.simps) (auto simp: Let_def split: option.splits)
    qed
  qed
  then have "st' = st"
    using l(2) e by (auto simp: service_quota_loop_free service_quota_free_def Let_def)
  with s f g that show ?thesis by blast
qed

text \<open>Hence a message that has been accepted was sendable.\<close>

lemma queue_message_Ok_sendable:
  assumes "sem_laws S cnt" "context_size c \<le> 4088" "queue_message S service msg_id c b st = Ok () st'"
  shows "sendable S service msg_id c st"
proof -
  from assms(3) obtain ty where ty: "msg_type_from_id msg_id = Some ty"
    by (auto simp: queue_message_def split: option.splits)
  show ?thesis
  proof (cases "ty = DATA")
    case True
    then obtain st1 where c: "data_quota_check S service (calc_msg_stride (of_nat (context_size c))) st = Ok () st1"
      using assms(3) ty by (auto simp: queue_message_def Let_def outcome)
    then obtain i srv where "service = Some i" "get_service st i = Some srv"
      "unat (localport srv) < length (quotas_of st)" "st1 = st"
      by (rule data_quota_check_Ok [OF assms(1)])
    with True assms(2) ty c show ?thesis
      by (simp add: sendable_def data_service_ok_def borrow_ref_def)
  next
    case False
    with assms(2) ty show ?thesis by (simp add: sendable_def data_service_ok_def)
  qed
qed

lemma queue_message_Ok:
  assumes "sem_laws S cnt" "tx_inv st" "context_size c \<le> 4088" "queue_message S service msg_id c b st = Ok () st'"
  obtains ty where "msg_type_from_id msg_id = Some ty" "tx_target msg_id c st < tx_slots st * 4096"
    "st' = queued_state service ty msg_id c (tx_target msg_id c st) st"
    "sendable S service msg_id c st"
proof -
  note s = queue_message_Ok_sendable [OF assms(1,3,4)]
  from assms(2) s show ?thesis
  proof (cases rule: queue_message_cases [where b = b])
    case full
    with assms(4) show ?thesis by simp
  next
    case (sent ty)
    with assms(4) s show ?thesis by (intro that [of ty]) simp_all
  qed
qed

section \<open>Quota accounting\<close>

definition quota_inv :: "'sem state \<Rightarrow> bool" where
  "quota_inv st \<longleftrightarrow>
     data_use_count (quota_state st) \<le> data_quota (quota_state st) \<and>
     (\<forall>q \<in> set (quotas_of st). slot_use_count q \<le> slot_quota q)"

text \<open>The index used for the accounting is the one the check was made with, also when the message
  moves to the next slot.\<close>

lemma next_tx_index:
  assumes "0 < s" "s \<le> 4096"
  shows "(next_tx s tx + s - 1) div 4096 = (tx + s - 1) div 4096"
proof (cases "tx mod 4096 + s \<le> 4096")
  case False
  have "tx mod 4096 < 4096" by simp
  with False assms have "(tx mod 4096 + s - 1) div 4096 = 1" by (intro div_nat_eqI) auto
  moreover have "tx + s - 1 = (tx mod 4096 + s - 1) + tx div 4096 * 4096"
    using div_mult_mod_eq [of tx 4096] assms(1) by linarith
  moreover have "((tx mod 4096 + s - 1) + tx div 4096 * 4096) div 4096 = tx div 4096 + (tx mod 4096 + s - 1) div 4096"
    by (rule div_mult_self1) simp
  ultimately have "(tx + s - 1) div 4096 = tx div 4096 + 1" by (simp only:)
  then show ?thesis
    using next_tx_slot(3) [OF assms, of tx] False by (simp add: next_tx_def)
qed (simp add: next_tx_def)

lemma unat_pred: "0 < unat x \<Longrightarrow> unat (x - 1) = unat x - 1" for x :: "'a::len word"
  by (subst unat_sub_small) auto

lemma accounted_index:
  fixes st :: "'sem state" and msg_id
  assumes "tx_inv st" "context_size c \<le> 4088"
  defines "s \<equiv> stride_of (queued_message msg_id c)"
  shows "queue_index (of_nat (next_tx s (tx_of st) + s) - 1) =
    queue_index (local_tx_pos (slot_state st) + calc_msg_stride (of_nat (context_size c)) - 1)"
proof -
  note b = stride_queued_bounds [OF assms(2) refl, of msg_id, folded s_def]
  let ?x = "of_nat (next_tx s (tx_of st) + s) :: usize"
  let ?y = "local_tx_pos (slot_state st) + calc_msg_stride (of_nat (context_size c))"
  have n: "tx_of st \<le> 64 * 4096" "next_tx s (tx_of st) \<le> 64 * 4096"
    using tx_invD(2,3) [OF assms(1)] next_tx_le(1) [OF assms(1) b(1,2)] by linarith+
  have w: "unat (calc_msg_stride (of_nat (context_size c))) = s"
    using assms(2) by (simp add: s_def stride_queued)
  have x: "unat ?x = next_tx s (tx_of st) + s" using n b by (intro unat_of_nat_small) simp
  have y: "unat ?y = tx_of st + s" using n b w by (subst unat_add_small) simp_all
  have "unat (slot_queue_index_from_pos (?x - 1)) = unat (slot_queue_index_from_pos (?y - 1))"
    using x y b(1) next_tx_index [OF b(1,2), of "tx_of st"]
    by (simp add: slot_queue_index_from_pos_def slot_consts unat_div unat_pred del: of_nat_add)
  then have "slot_queue_index_from_pos (?x - 1) = slot_queue_index_from_pos (?y - 1)"
    by (simp only: word_unat_eq_iff)
  then show ?thesis by (simp only: queue_index_def)
qed

lemma use_count_step: "a \<noteq> b \<Longrightarrow> a \<le> b \<Longrightarrow> a + 1 \<le> (b :: usize)"
  by (metis inc_le order_le_neq_trans)

lemma accounted_quota:
  assumes "quota_inv st" "get_service st i = Some srv" "unat (localport srv) < length (quotas_of st)"
    and "data_quota_free stride st" "service_quota_free stride srv st"
    and "idx = queue_index (local_tx_pos (slot_state st) + stride - 1)"
    and "quota_state st' = accounted DATA (Some srv) idx (quota_state st)"
  shows "quota_inv st'"
proof -
  let ?q = "quotas_of st ! unat (localport srv)"
  have q: "slot_use_count ?q \<le> slot_quota ?q"
    using assms(1,3) by (simp add: quota_inv_def)
  have "slot_use_count (account_service idx ?q) \<le> slot_quota (account_service idx ?q)"
    using assms(5,6) q by (auto simp: account_service_def service_quota_free_def Let_def intro: use_count_step)
  moreover have "data_use_count (account_data idx (quota_state st)) \<le> data_quota (account_data idx (quota_state st))"
    using assms(1,4,6)
    by (auto simp: account_data_def data_quota_free_def quota_inv_def Let_def intro: use_count_step)
  moreover have "service_quotas (account_data idx (quota_state st)) = quotas_of st"
    by (simp add: account_data_def)
  ultimately show ?thesis
    using assms(1) set_update_subset_insert
    by (fastforce simp: quota_inv_def assms(7) accounted_def Let_def)
qed

lemma queued_quota_inv:
  assumes "sem_laws S cnt" "tx_inv st" "quota_inv st" "context_size c \<le> 4088"
    and "queue_message S service msg_id c b st = Ok () st'"
  shows "quota_inv st'"
proof -
  obtain ty where ty: "msg_type_from_id msg_id = Some ty"
      "st' = queued_state service ty msg_id c (tx_target msg_id c st) st" "sendable S service msg_id c st"
    by (rule queue_message_Ok [OF assms(1,2,4,5)])
  have q: "quota_state st' = accounted ty (borrow_ref st service)
      (queue_index (local_tx_pos (slot_state st) + calc_msg_stride (of_nat (context_size c)) - 1)) (quota_state st)"
    unfolding ty(2) queued_state_simps(16) tx_target_def accounted_index [OF assms(2,4)] by (rule refl)
  show ?thesis
  proof (cases "ty = DATA")
    case True
    with ty have "data_quota_check S service (calc_msg_stride (of_nat (context_size c))) st = Ok () st"
      by (simp add: sendable_def)
    from data_quota_check_Ok [OF assms(1) this] obtain i srv where
      "service = Some i" "get_service st i = Some srv" "unat (localport srv) < length (quotas_of st)"
      "data_quota_free (calc_msg_stride (of_nat (context_size c))) st"
      "service_quota_free (calc_msg_stride (of_nat (context_size c))) srv st" by blast
    with True q show ?thesis by (intro accounted_quota [OF assms(3)]) (auto simp: borrow_ref_def)
  next
    case False
    then have "quota_state st' = quota_state st" by (simp add: q accounted_def split: option.splits)
    with assms(3) show ?thesis by (simp add: quota_inv_def)
  qed
qed

section \<open>Concrete states\<close>

text \<open>The connect message as it is sent first, and a data message for the service with port 0.\<close>

definition connect_id :: u32 where "connect_id = make_msg_id CONNECT 0 0"
definition data_id :: u32 where "data_id = make_msg_id DATA 0 1"

definition demo_params :: "nat vchiq_params" where
  "demo_params = \<lparr>sp_fourcc = four_cc_from 0x65 0x63 0x68 0x6F, sp_callback = Some InternalCallback,
     sp_userdata = None, sp_version = 3, sp_version_min = 3\<rparr>"

definition demo_service :: "nat service" where
  "demo_service = (set_state OPEN (fst (service_new counter_sem demo_params 4096)))\<lparr>localport := 0, remoteport := 1\<rparr>"

text \<open>A state with an open service at port 0, within its quota, and one that has used up its data slots.\<close>

definition open_state :: "nat state" where
  "open_state = update_quota 0 (\<lambda>q. q\<lparr>slot_quota := 15, message_quota := 3840, previous_tx_index := -1\<rparr>)
     (boot_state\<lparr>srv_state := (srv_state boot_state)\<lparr>services := (services_of boot_state)[0 := Some demo_service],
        unused_service := 1\<rparr>, next_srv_handle := 4097\<rparr>)"

definition exhausted_state :: "nat state" where
  "exhausted_state = open_state\<lparr>quota_state := (quota_state open_state)\<lparr>data_use_count := data_quota (quota_state open_state)\<rparr>\<rparr>"

lemma msg_ids [simp]: "msg_type_from_id connect_id = Some CONNECT" "msg_type_from_id data_id = Some DATA"
  by (simp_all add: connect_id_def data_id_def make_msg_id_type)

lemma demo_service_simps [simp]:
  "srvstate demo_service = OPEN" "closing demo_service = False" "localport demo_service = 0"
  "srv_handle demo_service = 4096" "remoteport demo_service = 1"
  by (simp_all add: demo_service_def)

lemma boot_tables: "length (services_of boot_state) = 4096" "length (quotas_of boot_state) = 4096"
  using boot_fresh by (simp_all add: fresh_state_def)

lemma open_state_slots: "slot_state open_state = slot_state boot_state"
    "slot_queue_available open_state = slot_queue_available boot_state"
  by (simp_all add: open_state_def)

lemma open_state_inv: "tx_inv open_state" "tx_of open_state = 0" "tx_slots open_state = 31"
  using boot_tx_inv boot_tx tx_inv_cong [of open_state boot_state] by (simp_all add: open_state_slots)

lemma open_state_service: "get_service open_state 0 = Some demo_service"
  using boot_tables by (simp add: open_state_def get_service_def)

lemma open_state_quotas:
  "length (quotas_of open_state) = 4096"
  "quotas_of open_state ! 0 = (service_quota_default counter_sem)
     \<lparr>slot_quota := 15, message_quota := 3840, previous_tx_index := -1\<rparr>"
  "data_use_count (quota_state open_state) = 0" "unat (data_quota (quota_state open_state)) = 30"
  "previous_data_index (quota_state open_state) = -1"
proof -
  show "length (quotas_of open_state) = 4096" using boot_tables by (simp add: open_state_def)
  have "quotas_of boot_state ! 0 = service_quota_default counter_sem"
    using boot_fresh by (simp add: fresh_state_def)
  then show "quotas_of open_state ! 0 = (service_quota_default counter_sem)
     \<lparr>slot_quota := 15, message_quota := 3840, previous_tx_index := -1\<rparr>"
    using boot_tables by (simp add: open_state_def update_quota_def)
  show "data_use_count (quota_state open_state) = 0" "previous_data_index (quota_state open_state) = -1"
    using boot_fresh by (simp_all add: open_state_def fresh_state_def)
  have "data_quota (quota_state open_state) = slot_queue_available boot_state - 1"
    using boot_fresh by (simp add: open_state_def fresh_state_def)
  moreover have "unat (slot_queue_available boot_state - 1) = 30"
    using boot_tx(2) by (subst unat_sub_small) simp_all
  ultimately show "unat (data_quota (quota_state open_state)) = 30" by (simp only:)
qed

lemma open_state_quota_inv: "quota_inv open_state"
proof -
  have "\<forall>q \<in> set (quotas_of boot_state). slot_use_count q \<le> slot_quota q"
    using boot_fresh by (simp add: fresh_state_def service_quota_default_def)
  moreover have "quotas_of open_state = (quotas_of boot_state)[0 := quotas_of open_state ! 0]"
    using boot_tables by (simp add: open_state_def update_quota_def)
  moreover have "slot_use_count (quotas_of open_state ! 0) \<le> slot_quota (quotas_of open_state ! 0)"
    by (simp add: open_state_quotas(2) service_quota_default_def)
  ultimately show ?thesis
    using set_update_subset_insert [of "quotas_of boot_state" 0 "quotas_of open_state ! 0"]
    by (auto simp: quota_inv_def open_state_quotas(3))
qed

lemma open_state_sendable:
  assumes "context_size c \<le> 4088"
  shows "sendable counter_sem (Some 0) data_id c open_state"
proof -
  have "data_quota_free w open_state" for w
    using open_state_quotas(3,4) by (auto simp: data_quota_free_def Let_def)
  moreover have "service_quota_free w demo_service open_state" for w
    by (simp add: service_quota_free_def Let_def open_state_quotas(2) service_quota_default_def)
  ultimately have "data_quota_check counter_sem (Some 0) w open_state = Ok () open_state" for w
    using open_state_quotas(1) by (intro data_quota_check_free [OF open_state_service]) simp_all
  then show ?thesis
    using assms open_state_service open_state_quotas(1)
    by (simp add: sendable_def data_service_ok_def borrow_ref_def)
qed

lemma tx_target_small: "tx_of st = 0 \<Longrightarrow> context_size c \<le> 4088 \<Longrightarrow> tx_target msg_id c st = 0"
  using stride_queued_bounds(2) [of c _ msg_id] by (simp add: tx_target_def next_tx_def)

section \<open>Properties\<close>

text \<open>
  C1: A message of at most a slot, sent while slots are left, is delivered to the VideoCore: the call
  returns, the message can be read back from the shared memory at its place in the stream, the
  published transmit position is its end, the remote event is fired, the doorbell rung if the
  VideoCore waits for it, and the invariant of the transmit side is kept.
\<close>

theorem queue_message_delivers:
  assumes "tx_inv st" "sendable S service msg_id c st" "tx_target msg_id c st < tx_slots st * 4096"
  shows "\<exists>st'. queue_message S service msg_id c b st = Ok () st' \<and> tx_inv st' \<and>
    read_message (slot_data (slot_state st')) (tx_position st (tx_target msg_id c st)) = Ok (queued_message msg_id c) () \<and>
    tx_of st' = tx_target msg_id c st + stride_of (queued_message msg_id c) \<and>
    unat (tx_pos (sz_local (slot_zero (slot_state st')))) = tx_of st' \<and>
    fired (trigger (sz_remote (slot_zero (slot_state st')))) = 1 \<and>
    mmio st' = (if armed (trigger (sz_remote (slot_zero (slot_state st)))) \<noteq> 0 then mmio st @ [(BELL2, 0)] else mmio st)"
  using assms(1,2)
proof (cases rule: queue_message_cases [where b = b])
  case full
  with assms(3) show ?thesis by simp
next
  case (sent ty)
  have "context_size c \<le> 4088" using assms(2) by (simp add: sendable_def)
  note f = queued_facts [OF assms(1) this sent(2)]
  show ?thesis
    by (rule exI [of _ "queued_state service ty msg_id c (tx_target msg_id c st) st"])
      (use sent(3) f in \<open>simp add: queued_state_simps(11,12)\<close>)
qed

theorem queue_message_delivers_witness:
  "\<exists>st'. queue_message counter_sem (Some 0) data_id (Some [1, 2, 3]) True open_state = Ok () st' \<and>
    read_message (slot_data (slot_state st')) (tx_position open_state 0) =
      Ok \<lparr>header = \<lparr>msgid = data_id, msg_size = 3\<rparr>, msg_data = [1, 2, 3]\<rparr> () \<and>
    tx_of st' = 16"
proof -
  let ?c = "Some [1, 2, 3] :: u8 list option"
  have sz: "context_size ?c \<le> 4088" by (simp add: context_size_def)
  have t: "tx_target data_id ?c open_state = 0" using open_state_inv(2) sz by (rule tx_target_small)
  have m: "queued_message data_id ?c = \<lparr>header = \<lparr>msgid = data_id, msg_size = 3\<rparr>, msg_data = [1, 2, 3]\<rparr>"
    by (simp add: queued_message_def context_size_def)
  have "stride_of (queued_message data_id ?c) = 16" by (simp add: m stride_of_eq)
  then show ?thesis
    using queue_message_delivers [OF open_state_inv(1) open_state_sendable [OF sz], of True]
      open_state_inv(3) t m by auto
qed

text \<open>
  C17: Control messages queued one after the other into a slot are received in order and unchanged:
  parsing the slot from its start, as the receiver does with the strides of the headers, gives
  exactly the messages sent.
\<close>

theorem control_messages_in_order:
  assumes "tx_inv st" "tx_of st = k * 4096" "k < tx_slots st" "\<forall>x \<in> set ms. control_message x"
    and "sum_list (map (stride_of \<circ> as_queued) ms) \<le> 4096"
  shows "\<exists>st'. queue_all S ms st = Ok () st' \<and> tx_inv st' \<and>
    parse_stream read_at stride_of (tx_mem st') (slot_base st' k) (length ms) = map as_queued ms \<and>
    tx_of st' = tx_of st + sum_list (map (stride_of \<circ> as_queued) ms)"
proof -
  have e: "slot_stream st k []" by (simp add: slot_stream_def)
  obtain st' where "queue_all S ms st = Ok () st'" "tx_inv st'" "slot_stream st' k (map as_queued ms)"
      "tx_of st' = k * 4096 + sum_list (map (stride_of \<circ> as_queued) ms)"
    using queue_all_stream [OF assms(1,4,3) e, of S] assms(2,5) by auto
  then show ?thesis
    using slot_mem.parse_stream_at [of "tx_mem st'" "slot_base st' k" "map as_queued ms"] assms(2)
    by (auto simp: slot_stream_def)
qed

theorem control_messages_in_order_witness:
  "\<exists>st'. queue_all counter_sem [(None, connect_id, None), (None, make_msg_id OPEN_MSG 0 0, Some [7])] boot_state = Ok () st' \<and>
    parse_stream read_at stride_of (tx_mem st') (slot_base st' 0) 2 =
      [queued_message connect_id None, queued_message (make_msg_id OPEN_MSG 0 0) (Some [7])] \<and> tx_of st' = 24"
proof -
  let ?ms = "[(None, connect_id, None), (None, make_msg_id OPEN_MSG 0 0, Some [7])] :: (nat option \<times> u32 \<times> u8 list option) list"
  have c: "\<forall>x \<in> set ?ms. control_message x"
    by (simp add: control_message_def context_size_def make_msg_id_type)
  have s: "sum_list (map (stride_of \<circ> as_queued) ?ms) = 24"
    by (simp add: stride_of_eq queued_message_def context_size_def)
  have "tx_of boot_state = 0 * 4096" "0 < tx_slots boot_state" using boot_tx by simp_all
  from control_messages_in_order [OF boot_tx_inv this c, of counter_sem] s boot_tx(1)
  show ?thesis by (auto simp: numeral_2_eq_2)
qed

text \<open>
  C33: Slots are never recycled: as soon as the stream has reached the end of the last slot, every
  further message panics at the assertion of \<^verbatim>\<open>reserve_space\<close>, also when the VideoCore has consumed
  everything.
\<close>

theorem queue_message_slots_exhausted:
  assumes "tx_inv st" "sendable S service msg_id c st" "tx_target msg_id c st = tx_slots st * 4096"
  shows "queue_message S service msg_id c b st =
    Panic ''assertion failed: tx_pos != self.slot_queue_available * VCHIQ_SLOT_SIZE''"
  using assms(1,2) by (cases rule: queue_message_cases [where b = b]) (use assms(3) in auto)

text \<open>A state whose stream has reached its end: the last slot is full.\<close>

definition full_state :: "nat state" where
  "full_state = boot_state\<lparr>slot_state := (slot_state boot_state)\<lparr>local_tx_pos := of_nat (31 * 4096),
     tx_data := Some (tx_position boot_state (30 * 4096))\<rparr>\<rparr>"

lemma full_state_inv: "tx_inv full_state" "tx_of full_state = 31 * 4096" "tx_slots full_state = 31"
proof -
  show "tx_of full_state = 31 * 4096" "tx_slots full_state = 31"
    using boot_tx by (simp_all add: full_state_def)
  then show "tx_inv full_state"
    using boot_tx_inv boot_tx(2) by (simp add: tx_inv_def full_state_def tx_position_def)
qed

theorem queue_message_slots_exhausted_witness:
  "queue_message counter_sem None connect_id None True full_state =
    Panic ''assertion failed: tx_pos != self.slot_queue_available * VCHIQ_SLOT_SIZE''"
proof -
  have s: "sendable counter_sem None connect_id None full_state"
    by (rule control_sendable) (simp add: control_message_def context_size_def)
  have "stride_of (queued_message connect_id None) = 8"
    by (simp add: stride_of_eq queued_message_def context_size_def)
  then have "tx_target connect_id None full_state = tx_slots full_state * 4096"
    using full_state_inv(2,3) by (simp add: tx_target_def next_tx_def)
  from queue_message_slots_exhausted [OF full_state_inv(1) s this] show ?thesis .
qed

text \<open>
  C18: The accounting of data slots never exceeds the quotas: the index that is accounted for is the
  one that was checked, also when the message moves to a new slot.
\<close>

theorem queue_message_quota_inv:
  assumes "sem_laws S cnt" "tx_inv st" "quota_inv st" "context_size c \<le> 4088"
    and "queue_message S service msg_id c b st = Ok () st'"
  shows "quota_inv st'"
  using assms by (rule queued_quota_inv)

theorem queue_message_quota_inv_witness:
  "\<exists>st'. queue_message counter_sem (Some 0) data_id (Some [1, 2, 3]) True open_state = Ok () st' \<and> quota_inv st'"
proof -
  let ?c = "Some [1, 2, 3] :: u8 list option"
  have sz: "context_size ?c \<le> 4088" by (simp add: context_size_def)
  have "tx_target data_id ?c open_state \<noteq> tx_slots open_state * 4096"
    using tx_target_small [OF open_state_inv(2) sz] open_state_inv(3) by simp
  then obtain st' where "queue_message counter_sem (Some 0) data_id ?c True open_state = Ok () st'"
    using queue_message_cases [OF open_state_inv(1) open_state_sendable [OF sz]] by metis
  with queue_message_quota_inv [OF counter_sem_laws open_state_inv(1) open_state_quota_inv sz this]
  show ?thesis by blast
qed

text \<open>
  C34: Nothing lowers the use count of the data slots.  Once it has reached the quota, a data message
  that would start in a new slot waits for an event that nobody raises: the call never returns.
\<close>

theorem data_quota_never_recovers:
  assumes "sem_laws S cnt" "msg_type_from_id msg_id = Some DATA"
    and "get_service st i = Some srv" "\<not> closing srv" "unat (localport srv) < length (quotas_of st)"
    and "data_use_count (quota_state st) = data_quota (quota_state st)"
    and "queue_index (local_tx_pos (slot_state st) + calc_msg_stride (of_nat (context_size c)) - 1)
      \<noteq> previous_data_index (quota_state st)"
  shows "queue_message S (Some i) msg_id c b st = Blocked"
  using assms(2-) data_quota_loop_stuck [OF assms(1) refl assms(7,6)]
  by (simp add: queue_message_def data_quota_check_def Let_def)

theorem data_quota_never_recovers_witness:
  "queue_message counter_sem (Some 0) data_id (Some [1]) True exhausted_state = Blocked"
proof -
  have l: "local_tx_pos (slot_state exhausted_state) = 0"
    using open_state_inv(2) by (simp add: exhausted_state_def unsigned_word_eqI)
  have n: "queue_index (local_tx_pos (slot_state exhausted_state) + calc_msg_stride (of_nat (context_size (Some [1]))) - 1)
      \<noteq> previous_data_index (quota_state exhausted_state)"
    unfolding l by (simp add: exhausted_state_def open_state_quotas(5)) code_simp
  have g: "get_service exhausted_state 0 = Some demo_service"
    using open_state_service by (simp add: exhausted_state_def get_service_def split: if_splits)
  have q: "unat (localport demo_service) < length (quotas_of exhausted_state)"
    "data_use_count (quota_state exhausted_state) = data_quota (quota_state exhausted_state)"
    using open_state_quotas(1) by (simp_all add: exhausted_state_def)
  show ?thesis
    using data_quota_never_recovers [OF counter_sem_laws msg_ids(2) g _ q n] by simp
qed

text \<open>
  C32: When a message does not fit into the rest of the slot, the padding header goes to the position
  of the last message instead of the end of the stream: the header of that message, which the
  VideoCore may not have read yet, is overwritten, and a receiver that follows the padding stays
  inside the slot instead of reaching its end.
\<close>

theorem padding_overwrites_last_message:
  assumes "tx_inv st" "sendable S service msg_id c st"
    and "tx_of st < tx_target msg_id c st" "tx_target msg_id c st < tx_slots st * 4096"
    and "tx_data (slot_state st) = Some p" "unat (pos_offset p) < tx_of st mod 4096"
    and "tx_queue st ! (tx_target msg_id c st div 4096) \<noteq> tx_queue st ! ((tx_of st - 1) div 4096)"
  shows "\<exists>st'. queue_message S service msg_id c b st = Ok () st' \<and>
    (let h = header_of_bytes (load_bytes (tx_mem st') (slot_addr p) 8)
     in msgid h = VCHIQ_MSGID_PADDING \<and>
        unat (pos_offset p) + unat (calc_msg_stride (ucast (msg_size h))) < 4096)"
  using assms(1,2)
proof (cases rule: queue_message_cases [where b = b])
  case full
  with assms(4) show ?thesis by simp
next
  case (sent ty)
  let ?t = "tx_target msg_id c st" and ?tx = "tx_of st"
  have sz: "context_size c \<le> 4088" using assms(2) by (simp add: sendable_def)
  note f = queued_facts [OF assms(1) sz sent(2)]
  have p: "pos_index p = ucast (tx_queue st ! ((?tx - 1) div 4096))" "8 dvd unat (pos_offset p)"
      "unat (pos_offset p) < 4096"
    using assms(1,5) by (simp_all add: tx_inv_def)
  have pa: "slot_addr p = unat (tx_queue st ! ((?tx - 1) div 4096)) * 4096 + unat (pos_offset p)"
    using p by (simp add: slot_addr_def slot_consts unat_and_4095 unat_ucast_u32_usize)
  have "unat (tx_queue st ! ((?tx - 1) div 4096)) \<noteq> unat (tx_queue st ! (?t div 4096))"
    using assms(7) by (simp add: word_unat_eq_iff)
  note apart = slot_apart [OF this f(7)]
  have "unat (pos_offset p) + 8 \<le> 4096" using p(2,3) by (rule aligned_room)
  with apart have "slot_addr p + 8 \<le> slot_addr (tx_position st ?t) \<or>
      slot_addr (tx_position st ?t) + stride_of (queued_message msg_id c) \<le> slot_addr p"
    unfolding pa f(6) by linarith
  then have h: "header_of_bytes (load_bytes (queued_mem msg_id c ?t st) (slot_addr p) 8) = header (padding_at_tx ?tx)"
    using queued_mem_elsewhere [of ?t st msg_id c "slot_addr p" 8] padded_header [OF assms(5)] assms(3) sz
    by (simp add: queued_well_sized)
  have m: "?tx mod 4096 \<le> 4088" using aligned_mod_room [OF tx_invD(1) [OF assms(1)]] by simp
  have "unat (of_nat (4096 - ?tx mod 4096 - 8) :: u32) = 4096 - ?tx mod 4096 - 8"
    by (rule unat_of_nat_u32) simp
  then have "unat (msg_size (header (padding_at_tx ?tx))) = 4096 - ?tx mod 4096 - 8"
    by (simp only: padding_at_tx_def slot_message.select_convs slot_header.select_convs)
  then have "stride_of (padding_at_tx ?tx) = 4096 - ?tx mod 4096"
    by (simp only: stride_of_eq padded_stride [OF tx_invD(1) [OF assms(1)]])
  with h assms(6) m show ?thesis
    by (intro exI [of _ "queued_state service ty msg_id c ?t st"])
      (simp add: sent(3) queued_state_simps(7) Let_def stride_of_def padding_at_tx_def)
qed

text \<open>The first message takes 3008 bytes, so that the second one does not fit into its slot.\<close>

definition big_message :: "u8 list option" where
  "big_message = Some (replicate 3000 0)"

definition big_state :: "nat state" where
  "big_state = queued_state None CONNECT connect_id big_message 0 boot_state"

lemma big_message_stride: "stride_of (queued_message i big_message) = 3008" "context_size big_message = 3000"
  by (simp_all add: stride_of_eq queued_message_def context_size_def big_message_def)

lemma big_state_facts: "tx_inv big_state" "tx_of big_state = 3008" "tx_slots big_state = 31"
  "tx_data (slot_state big_state) = Some (tx_position boot_state 0)" "tx_queue big_state = tx_queue boot_state"
proof -
  have t: "tx_target connect_id big_message boot_state = 0"
    using boot_tx(1) by (intro tx_target_small) (simp_all add: big_message_stride)
  then have "tx_target connect_id big_message boot_state < tx_slots boot_state * 4096" using boot_tx by simp
  note f = queued_facts [OF boot_tx_inv _ this, unfolded t]
  show "tx_inv big_state" "tx_of big_state = 3008"
    using f(1,2) by (simp_all add: big_state_def big_message_stride)
  show "tx_slots big_state = 31" "tx_queue big_state = tx_queue boot_state"
    "tx_data (slot_state big_state) = Some (tx_position boot_state 0)"
    using boot_tx by (simp_all add: big_state_def queued_state_simps)
qed

theorem padding_overwrites_last_message_witness:
  "\<exists>st'. queue_message counter_sem None connect_id big_message True big_state = Ok () st' \<and>
    (let h = header_of_bytes (load_bytes (tx_mem st') (slot_addr (tx_position boot_state 0)) 8)
     in msgid h = VCHIQ_MSGID_PADDING \<and>
        unat (pos_offset (tx_position boot_state 0)) + unat (calc_msg_stride (ucast (msg_size h))) < 4096)"
proof -
  note b = big_state_facts
  have s: "sendable counter_sem None connect_id big_message big_state"
    by (rule control_sendable) (simp add: control_message_def big_message_stride)
  have t: "tx_target connect_id big_message big_state = 4096"
    by (simp add: tx_target_def next_tx_def b(2) big_message_stride)
  have "unat (tx_queue boot_state ! 1) \<noteq> unat (tx_queue boot_state ! 0)"
    using fresh_queue(1) [OF boot_fresh board_ok] boot_tx(2) by simp
  then have q: "tx_queue big_state ! (tx_target connect_id big_message big_state div 4096)
      \<noteq> tx_queue big_state ! ((tx_of big_state - 1) div 4096)"
    unfolding t b(2,5) by auto
  show ?thesis
    by (rule padding_overwrites_last_message [OF b(1) s _ _ b(4) _ q])
      (simp_all add: t b(2,3) tx_position_def)
qed



text \<open>
  The errors of \<^verbatim>\<open>queue_message\<close> leave the state alone: a data message without a service, or for a
  service that is being closed, is refused before anything is reserved; an id without a message type
  panics.
\<close>

theorem queue_message_refuses:
  "(msg_type_from_id msg_id = None \<longrightarrow>
      queue_message S service msg_id c b st = Panic ''internal error: entered unreachable code'') \<and>
   (msg_type_from_id msg_id = Some DATA \<longrightarrow>
      queue_message S None msg_id c b st = Err (VchiqErr DataMessageWithoutService) st) \<and>
   (msg_type_from_id msg_id = Some DATA \<and> get_service st i = Some srv \<and> closing srv \<longrightarrow>
      queue_message S (Some i) msg_id c b st = Err (VchiqErr (ServiceAlreadyClosed (srv_handle srv))) st)"
  by (simp add: queue_message_def data_quota_check_def)

theorem queue_message_refuses_witness:
  "queue_message counter_sem None 0xFF000000 None True boot_state = Panic ''internal error: entered unreachable code'' \<and>
   queue_message counter_sem None data_id None True boot_state = Err (VchiqErr DataMessageWithoutService) boot_state \<and>
   queue_message counter_sem (Some 0) data_id None True (update_service 0 (\<lambda>s. s\<lparr>closing := True\<rparr>) open_state) =
     Err (VchiqErr (ServiceAlreadyClosed 4096)) (update_service 0 (\<lambda>s. s\<lparr>closing := True\<rparr>) open_state)"
proof -
  have n: "msg_type_from_id 0xFF000000 = None" by (simp add: msg_type_from_id_def message_type_from_def)
  let ?st = "update_service 0 (\<lambda>s. s\<lparr>closing := True\<rparr>) open_state"
  have g: "get_service ?st 0 = Some (demo_service\<lparr>closing := True\<rparr>)"
    by (simp add: open_state_service)
  note r = queue_message_refuses [where S = counter_sem and b = True and c = None]
  show ?thesis
    using r [of "0xFF000000" None boot_state 0 demo_service] r [of data_id None boot_state 0 demo_service]
      r [of data_id None ?st 0 "demo_service\<lparr>closing := True\<rparr>"] n g by simp
qed

end
