(* ===== verification/Service_Ops.thy ===== *)
theory Service_Ops
  imports Transmit
begin

text \<open>
  Connecting and the life cycle of services: \<^verbatim>\<open>connect\<close>, \<^verbatim>\<open>add_service\<close>, \<^verbatim>\<open>open_service\<close>,
  \<^verbatim>\<open>close_service\<close>, \<^verbatim>\<open>close_service_complete\<close> and \<^verbatim>\<open>free_service\<close> of \<^verbatim>\<open>src/vchiq/state.rs\<close>.  The
  futures that suspend are split at their suspension point: the part up to it is run by the first
  poll, and the waiting part is an operation that can be repeated, \<open>Pending\<close> meaning that the future
  stays where it is.

  The locale \<open>service_table\<close> is the contract of the table of services that all clients rely on.
\<close>

section \<open>Connecting\<close>

definition connect_poll :: "'sem sem_ops \<Rightarrow> 'sem state \<Rightarrow> (unit poll, 'sem state) result" where
  "connect_poll S st =
     (case asem_down S (connect_sem st) of
        None \<Rightarrow> Ok Pending st
      | Some s \<Rightarrow> Ok (Ready ()) (st\<lparr>connect_sem := s, conn_state := CONNECTED\<rparr>))"

definition connect :: "'sem sem_ops \<Rightarrow> 'sem state \<Rightarrow> (unit poll, 'sem state) result" where
  "connect S st =
     (if \<not> initialized st then Err (VchiqErr StateNotInitialized) st
      else seq_res
        (if conn_state st = DISCONNECTED
         then seq_res (queue_message S None (make_msg_id CONNECT 0 0) None True st)
                (\<lambda>_ st. Ok () (st\<lparr>conn_state := CONNECTING\<rparr>))
         else Ok () st)
        (\<lambda>_ st. if conn_state st = CONNECTING then connect_poll S st else Ok (Ready ()) st))"

section \<open>Adding a service\<close>

text \<open>The quota of the new service, at its index.\<close>

definition service_quota_setup :: "usize \<Rightarrow> usize \<Rightarrow> usize \<Rightarrow> 'sem service_quota \<Rightarrow> 'sem service_quota" where
  "service_quota_setup slots messages tx q =
     (let q = q\<lparr>slot_quota := slots, message_quota := messages\<rparr>
      in if slot_use_count q = 0
         then q\<lparr>previous_tx_index := sint (slot_queue_index_from_pos tx) - 1\<rparr> else q)"

definition find_service_index :: "'sem srv_state \<Rightarrow> nat option" where
  "find_service_index ss =
     (case find_index Option.is_none (take (unat (unused_service ss)) (services ss)) of
        Some i \<Rightarrow> Some i
      | None \<Rightarrow> if unused_service ss < VCHIQ_MAX_SERVICES then Some (unat (unused_service ss)) else None)"

definition insert_service :: "nat \<Rightarrow> 'sem service \<Rightarrow> 'sem state \<Rightarrow> 'sem state" where
  "insert_service i srv st =
     (let ss = srv_state st;
          st = st\<lparr>srv_state := \<lparr>services = (services ss)[i := Some srv], unused_service = unused_service ss + 1\<rparr>\<rparr>
      in if i < length (quotas_of st)
         then update_quota i (service_quota_setup (default_slot_quota st) (default_message_quota st)
                (local_tx_pos (slot_state st))) st
         else st)"

definition add_service ::
  "'sem sem_ops \<Rightarrow> 'sem vchiq_params \<Rightarrow> service_state \<Rightarrow> 'sem state \<Rightarrow> (service_handle, 'sem state) result" where
  "add_service S params new_state st =
     (let (srv, next_handle) = service_new S params (next_srv_handle st);
          st = st\<lparr>next_srv_handle := next_handle\<rparr>;
          srv = (if new_state = OPENING then srv\<lparr>public_fourcc := None\<rparr> else srv);
          ss = srv_state st
      in if new_state \<noteq> OPENING then Panic ''internal error: entered unreachable code''
         else if \<not> unat (unused_service ss) \<le> length (services ss) then Panic ''range end index out of range''
         else case find_service_index ss of
             None \<Rightarrow> Err (VchiqErr UnableToAddService) st
           | Some i \<Rightarrow>
               if i < length (services ss)
               then Ok (srv_handle srv)
                      (insert_service i (set_state new_state (srv\<lparr>localport := of_nat i\<rparr>)) st)
               else Panic ''index out of bounds'')"

section \<open>Opening a service\<close>

text \<open>
  The payload has no fixed layout (\<^verbatim>\<open>OpenPayload\<close> is not \<^verbatim>\<open>repr(C)\<close>), so its bytes are given by the
  argument \<open>enc\<close>.
\<close>

record open_payload =
  op_fourcc :: u32
  op_client_id :: int
  op_version :: u16
  op_version_min :: u16

definition open_send ::
  "'sem sem_ops \<Rightarrow> (open_payload \<Rightarrow> u8 list) \<Rightarrow> service_handle \<Rightarrow> 'sem state \<Rightarrow> (unit, 'sem state) result" where
  "open_send S enc h st =
     (case service_from_handle st h of
        Inl _ \<Rightarrow> Panic ''called Result::unwrap() on an Err value''
      | Inr i \<Rightarrow>
         (case get_service st i of
            None \<Rightarrow> Panic ''dangling service reference''
          | Some srv \<Rightarrow>
             queue_message S None (make_msg_id OPEN_MSG (localport srv) 0)
               (Some (enc \<lparr>op_fourcc = base_fourcc srv, op_client_id = 0, op_version = srv_version srv,
                      op_version_min = srv_version_min srv\<rparr>)) True st))"

text \<open>Waiting for the \<^verbatim>\<open>remove_event\<close> of a service: the state of the service once it is raised.\<close>

definition remove_event_poll ::
  "'sem sem_ops \<Rightarrow> service_handle \<Rightarrow> 'sem state \<Rightarrow> (service_state poll, 'sem state) result" where
  "remove_event_poll S h st =
     (case service_from_handle st h of
        Inl _ \<Rightarrow> Panic ''called Result::unwrap() on an Err value''
      | Inr i \<Rightarrow>
         (case get_service st i of
            None \<Rightarrow> Panic ''dangling service reference''
          | Some srv \<Rightarrow>
             (case sem_try_down S (remove_event srv) of
                None \<Rightarrow> Ok Pending st
              | Some s \<Rightarrow> Ok (Ready (srvstate srv)) (update_service i (\<lambda>s'. s'\<lparr>remove_event := s\<rparr>) st))))"

definition open_poll :: "'sem sem_ops \<Rightarrow> service_handle \<Rightarrow> 'sem state \<Rightarrow> (unit poll, 'sem state) result" where
  "open_poll S h st =
     seq_res (remove_event_poll S h st)
       (\<lambda>p st. case p of
           Pending \<Rightarrow> Ok Pending st
         | Ready s \<Rightarrow>
             if s = OPEN \<or> s = OPENSYNC \<or> s = CLOSEWAIT then Ok (Ready ()) st
             else Err (VchiqErr (UnableToOpenService h)) st)"

definition open_service ::
  "'sem sem_ops \<Rightarrow> (open_payload \<Rightarrow> u8 list) \<Rightarrow> service_handle \<Rightarrow> 'sem state \<Rightarrow> (unit poll, 'sem state) result" where
  "open_service S enc h st = seq_res (open_send S enc h st) (\<lambda>_ st. open_poll S h st)"

section \<open>Closing a service\<close>

definition free_service :: "'sem sem_ops \<Rightarrow> nat \<Rightarrow> 'sem state \<Rightarrow> 'sem state" where
  "free_service S i st =
     (case get_service st i of
        None \<Rightarrow> st
      | Some srv \<Rightarrow>
          if srvstate srv \<in> {OPENING, CLOSED, HIDDEN, LISTENING, CLOSEWAIT}
          then update_service i (\<lambda>s. (set_state FREE s)\<lparr>remove_event := sem_up S (remove_event s)\<rparr>) st
          else st)"

definition close_service_complete ::
  "'sem sem_ops \<Rightarrow> nat \<Rightarrow> service_state \<Rightarrow> 'sem state \<Rightarrow> (unit, 'sem state) result" where
  "close_service_complete S i failstate st =
     (case get_service st i of
        None \<Rightarrow> Panic ''dangling service reference''
      | Some srv \<Rightarrow>
          if srvstate srv \<in> {OPEN, CLOSESENT, CLOSERECVD} \<or> srvstate srv = LISTENING
          then (let st = (if srvstate srv = LISTENING then st else update_service i (set_state CLOSED) st);
                    st = update_service i (\<lambda>s. s\<lparr>client_id := 0, remoteport := VCHIQ_PORT_FREE\<rparr>) st;
                    state' = (if srvstate srv = LISTENING then LISTENING else CLOSED)
                in Ok () (if state' = CLOSED then free_service S i st
                          else if state' \<noteq> CLOSEWAIT
                          then update_service i (\<lambda>s. s\<lparr>remove_event := sem_up S (remove_event s)\<rparr>) st
                          else st))
          else Err (VchiqErr (UnableToCloseService (srv_handle srv))) st)"

definition close_message :: "'sem sem_ops \<Rightarrow> nat \<Rightarrow> 'sem service \<Rightarrow> 'sem state \<Rightarrow> (unit, 'sem state) result" where
  "close_message S i srv st =
     queue_message S (Some i) (make_msg_id CLOSE (localport srv) (remoteport srv AND 0x0FFF)) None False st"

text \<open>The part of \<^verbatim>\<open>close_service\<close> before the wait; a failure to send the close message of an open
  service is dropped.\<close>

definition close_start :: "'sem sem_ops \<Rightarrow> service_handle \<Rightarrow> 'sem state \<Rightarrow> (unit, 'sem state) result" where
  "close_start S h st =
     (case service_from_handle st h of
        Inl e \<Rightarrow> Err e st
      | Inr i \<Rightarrow>
         (case get_service st i of
            None \<Rightarrow> Panic ''dangling service reference''
          | Some srv \<Rightarrow>
             if srvstate srv \<in> {FREE, LISTENING, HIDDEN} then Err (VchiqErr (UnableToCloseService h)) st
             else (let st = update_service i (\<lambda>s. s\<lparr>closing := True\<rparr>) st
                   in case srvstate srv of
                        CLOSED \<Rightarrow> Ok () (free_service S i st)
                      | HIDDEN \<Rightarrow> Ok () (free_service S i st)
                      | LISTENING \<Rightarrow> Ok () (free_service S i st)
                      | CLOSEWAIT \<Rightarrow> Ok () (free_service S i st)
                      | OPENING \<Rightarrow> close_message S i srv st
                      | OPENSYNC \<Rightarrow>
                          (case close_message S i srv st of
                             Ok _ st \<Rightarrow> Ok () (update_service i (set_state CLOSESENT) st)
                           | Err _ st \<Rightarrow> Ok () st
                           | r \<Rightarrow> r)
                      | OPEN \<Rightarrow>
                          (case close_message S i srv st of
                             Ok _ st \<Rightarrow> Ok () (update_service i (set_state CLOSESENT) st)
                           | Err _ st \<Rightarrow> Ok () st
                           | r \<Rightarrow> r)
                      | CLOSESENT \<Rightarrow> Panic ''not yet implemented''
                      | CLOSERECVD \<Rightarrow> Panic ''not yet implemented''
                      | FREE \<Rightarrow> Ok () st)))"

definition close_poll :: "'sem sem_ops \<Rightarrow> service_handle \<Rightarrow> 'sem state \<Rightarrow> (unit poll, 'sem state) result" where
  "close_poll S h st =
     seq_res (remove_event_poll S h st)
       (\<lambda>p st. case p of
           Pending \<Rightarrow> Ok Pending st
         | Ready s \<Rightarrow>
             if s \<noteq> FREE \<and> s \<noteq> LISTENING then Err (VchiqErr (UnableToCloseService h)) st
             else Ok (Ready ()) st)"

definition close_service :: "'sem sem_ops \<Rightarrow> service_handle \<Rightarrow> 'sem state \<Rightarrow> (unit poll, 'sem state) result" where
  "close_service S h st = seq_res (close_start S h st) (\<lambda>_ st. close_poll S h st)"

section \<open>The table of services\<close>

text \<open>
  What the clients of the table rely on: changing an entry affects this entry only, a handle finds
  the one service that carries it, and changes that keep the handles keep the table well formed.
\<close>

locale service_table =
  fixes get :: "'t \<Rightarrow> nat \<Rightarrow> 's option"
    and upd :: "nat \<Rightarrow> ('s \<Rightarrow> 's) \<Rightarrow> 't \<Rightarrow> 't"
    and lookup :: "'t \<Rightarrow> 'h \<Rightarrow> nat option"
    and key :: "'s \<Rightarrow> 'h"
    and wf :: "'t \<Rightarrow> bool"
  assumes get_upd: "get (upd i f t) j = (if i = j then map_option f (get t j) else get t j)"
    and lookup_iff: "wf t \<Longrightarrow> lookup t h = Some i \<longleftrightarrow> (\<exists>s. get t i = Some s \<and> key s = h)"
    and wf_upd: "wf t \<Longrightarrow> (\<And>s. key (f s) = key s) \<Longrightarrow> wf (upd i f t)"
begin

lemma lookup_upd:
  assumes "wf t" "\<And>s. key (f s) = key s"
  shows "lookup (upd i f t) h = lookup t h"
proof -
  have "lookup (upd i f t) h = Some j \<longleftrightarrow> lookup t h = Some j" for j
    unfolding lookup_iff [OF wf_upd [OF assms]] lookup_iff [OF assms(1)] get_upd
    using assms(2) by (auto split: if_splits)
  then show ?thesis by (metis not_Some_eq)
qed

lemma get_lookup_upd:
  assumes "wf t" "\<And>s. key (f s) = key s" "lookup t h = Some i" "get t i = Some s"
  shows "lookup (upd i f t) h = Some i" "get (upd i f t) i = Some (f s)"
  using assms by (simp_all add: lookup_upd get_upd)

lemma lookup_key: "wf t \<Longrightarrow> get t i = Some s \<Longrightarrow> lookup t (key s) = Some i"
  by (auto simp: lookup_iff)

lemma keys_apart: "wf t \<Longrightarrow> get t i = Some s \<Longrightarrow> get t j = Some s' \<Longrightarrow> key s = key s' \<Longrightarrow> i = j"
  by (metis lookup_key option.inject)

end

definition table_wf :: "'sem state \<Rightarrow> bool" where
  "table_wf st \<longleftrightarrow>
     (\<forall>i < length (services_of st). \<forall>j < length (services_of st). \<forall>s s'.
        services_of st ! i = Some s \<longrightarrow> services_of st ! j = Some s' \<longrightarrow> srv_handle s = srv_handle s' \<longrightarrow> i = j)"

definition lookup_handle :: "'sem state \<Rightarrow> service_handle \<Rightarrow> nat option" where
  "lookup_handle st h = (case service_from_handle st h of Inr i \<Rightarrow> Some i | Inl _ \<Rightarrow> None)"

lemma get_service_Some: "get_service st i = Some s \<longleftrightarrow> i < length (services_of st) \<and> services_of st ! i = Some s"
  by (simp add: get_service_def)

lemma table_wf_alt:
  "table_wf st \<longleftrightarrow> (\<forall>i j s s'. get_service st i = Some s \<longrightarrow> get_service st j = Some s' \<longrightarrow>
     srv_handle s = srv_handle s' \<longrightarrow> i = j)"
  by (auto simp: table_wf_def get_service_Some)

lemma lookup_handle_iff:
  assumes "table_wf st"
  shows "lookup_handle st h = Some i \<longleftrightarrow> (\<exists>s. get_service st i = Some s \<and> srv_handle s = h)"
proof -
  have u: "find_index (has_handle h) (services_of st) = Some i" if g: "get_service st i = Some s" "srv_handle s = h" for s
  proof (rule find_index_unique)
    fix j
    assume "j < length (services_of st)" "has_handle h (services_of st ! j)"
    then obtain s' where "get_service st j = Some s'" "srv_handle s' = h"
      by (auto simp: has_handle_def get_service_Some split: option.splits)
    with assms g show "j = i" unfolding table_wf_alt by metis
  qed (use g in \<open>auto simp: get_service_Some has_handle_def\<close>)
  show ?thesis
  proof
    assume "lookup_handle st h = Some i"
    then have "find_index (has_handle h) (services_of st) = Some i"
      by (simp add: lookup_handle_def service_from_handle_def split: option.splits)
    then show "\<exists>s. get_service st i = Some s \<and> srv_handle s = h"
      by (auto simp: find_index_Some has_handle_def get_service_Some split: option.splits)
  next
    assume "\<exists>s. get_service st i = Some s \<and> srv_handle s = h"
    with u show "lookup_handle st h = Some i"
      by (auto simp: lookup_handle_def service_from_handle_def)
  qed
qed

lemma table_wf_update:
  assumes "table_wf st" "\<And>s. srv_handle (f s) = srv_handle s"
  shows "table_wf (update_service i f st)"
proof -
  have "\<exists>s0. get_service st j = Some s0 \<and> srv_handle s0 = srv_handle s"
    if "get_service (update_service i f st) j = Some s" for j s
    using that assms(2) by (auto split: if_splits)
  with assms(1) show ?thesis unfolding table_wf_alt by metis
qed

interpretation services: service_table get_service update_service lookup_handle srv_handle table_wf
  by unfold_locales (simp_all add: lookup_handle_iff table_wf_update)

lemma service_from_handle_lookup: "lookup_handle st h = Some i \<Longrightarrow> service_from_handle st h = Inr i"
  by (simp add: lookup_handle_def split: sum.splits)

section \<open>The invariant of the table\<close>

definition srv_inv :: "'sem state \<Rightarrow> bool" where
  "srv_inv st \<longleftrightarrow>
     length (services_of st) = 4096 \<and> length (quotas_of st) = 4096 \<and>
     unat (unused_service (srv_state st)) \<le> 4096 \<and> table_wf st \<and>
     (\<forall>i < 4096. case services_of st ! i of
        None \<Rightarrow> unat (unused_service (srv_state st)) \<le> i
      | Some s \<Rightarrow> i < unat (unused_service (srv_state st)) \<and> unat (localport s) = i \<and>
          srv_handle s < next_srv_handle st)"

lemma srv_inv_cong:
  assumes "srv_state st = srv_state st'" "length (quotas_of st) = length (quotas_of st')"
    "next_srv_handle st = next_srv_handle st'"
  shows "srv_inv st = srv_inv st'"
  unfolding srv_inv_def table_wf_def assms by (rule refl)

lemma srv_invD:
  assumes "srv_inv st"
  shows "length (services_of st) = 4096" "length (quotas_of st) = 4096"
    "unat (unused_service (srv_state st)) \<le> 4096" "table_wf st"
    "get_service st i = Some s \<Longrightarrow> i < unat (unused_service (srv_state st)) \<and> unat (localport s) = i \<and>
       srv_handle s < next_srv_handle st"
    "i < unat (unused_service (srv_state st)) \<Longrightarrow> \<exists>s. get_service st i = Some s"
    "unat (unused_service (srv_state st)) \<le> i \<Longrightarrow> get_service st i = None"
proof -
  show b: "length (services_of st) = 4096" "length (quotas_of st) = 4096"
    "unat (unused_service (srv_state st)) \<le> 4096" "table_wf st"
    using assms by (simp_all add: srv_inv_def)
  note c = assms [unfolded srv_inv_def, THEN conjunct2, THEN conjunct2, THEN conjunct2, THEN conjunct2, rule_format]
  show "get_service st i = Some s \<Longrightarrow> i < unat (unused_service (srv_state st)) \<and> unat (localport s) = i \<and>
       srv_handle s < next_srv_handle st"
    using c [of i] b by (simp add: get_service_Some)
  show "i < unat (unused_service (srv_state st)) \<Longrightarrow> \<exists>s. get_service st i = Some s"
    using c [of i] b by (auto simp: get_service_Some split: option.splits)
  show "unat (unused_service (srv_state st)) \<le> i \<Longrightarrow> get_service st i = None"
    using c [of i] b by (auto simp: get_service_def split: option.splits)
qed

lemma srv_inv_update:
  assumes "srv_inv st" "\<And>s. srv_handle (f s) = srv_handle s" "\<And>s. localport (f s) = localport s"
  shows "srv_inv (update_service i f st)"
proof -
  have "table_wf (update_service i f st)"
    using srv_invD(4) [OF assms(1)] assms(2) by (rule services.wf_upd)
  moreover have "services_of (update_service i f st) ! j =
      (if j = i then map_option f (services_of st ! j) else services_of st ! j)" if "j < 4096" for j
    using that srv_invD(1) [OF assms(1)] by (auto simp: update_service_def)
  ultimately show ?thesis
    using assms by (auto simp: srv_inv_def split: option.splits)
qed

text \<open>
  Every operation but \<^verbatim>\<open>add_service\<close> leaves the identities in the table alone: entries keep their handle
  and port, and none appears or disappears.
\<close>

definition same_table :: "'sem state \<Rightarrow> 'sem state \<Rightarrow> bool" where
  "same_table st st' \<longleftrightarrow>
     map (map_option (\<lambda>s. (srv_handle s, localport s))) (services_of st') =
       map (map_option (\<lambda>s. (srv_handle s, localport s))) (services_of st) \<and>
     unused_service (srv_state st') = unused_service (srv_state st) \<and>
     length (quotas_of st') = length (quotas_of st) \<and> next_srv_handle st' = next_srv_handle st"

lemma same_table_refl [simp]: "same_table st st"
  by (simp add: same_table_def)

lemma same_table_trans: "same_table a b \<Longrightarrow> same_table b c \<Longrightarrow> same_table a c"
  by (simp add: same_table_def)

lemma same_table_entry_update:
  assumes "\<And>s. get_service st i = Some s \<Longrightarrow> srv_handle (f s) = srv_handle s \<and> localport (f s) = localport s"
  shows "same_table st (update_service i f st)"
proof (cases "i < length (services_of st)")
  case True
  then have "map_option (\<lambda>s. (srv_handle (f s), localport (f s))) (services_of st ! i) =
      map_option (\<lambda>s. (srv_handle s, localport s)) (services_of st ! i)"
    using assms by (cases "services_of st ! i") (simp_all add: get_service_Some)
  with True show ?thesis
    by (simp add: same_table_def update_service_def map_update option.map_comp comp_def list_update_same_conv)
next
  case False
  then show ?thesis by (simp add: same_table_def update_service_def not_less list_update_beyond)
qed

lemma same_table_update:
  assumes "\<And>s. srv_handle (f s) = srv_handle s" "\<And>s. localport (f s) = localport s" "same_table st st'"
  shows "same_table st (update_service i f st')"
  using assms(3) by (rule same_table_trans) (simp add: same_table_entry_update assms(1,2))

lemma same_table_quota: "same_table st st' \<Longrightarrow> same_table st (update_quota i f st')"
  by (simp add: same_table_def)

lemma same_table_frame:
  "same_table st st' \<Longrightarrow> same_table st (st'\<lparr>slot_state := ss\<rparr>)"
  "same_table st st' \<Longrightarrow> same_table st (st'\<lparr>connect_sem := cs\<rparr>)"
  "same_table st st' \<Longrightarrow> same_table st (st'\<lparr>conn_state := c\<rparr>)"
  by (simp_all add: same_table_def)

lemma same_table_entry:
  assumes "same_table st st'"
  shows "map_option (\<lambda>s. (srv_handle s, localport s)) (get_service st' i) =
      map_option (\<lambda>s. (srv_handle s, localport s)) (get_service st i)"
    and "length (services_of st') = length (services_of st)"
proof -
  from assms have m: "map (map_option (\<lambda>s. (srv_handle s, localport s))) (services_of st') =
       map (map_option (\<lambda>s. (srv_handle s, localport s))) (services_of st)"
    by (simp add: same_table_def)
  show l: "length (services_of st') = length (services_of st)" using arg_cong [OF m, of length] by simp
  show "map_option (\<lambda>s. (srv_handle s, localport s)) (get_service st' i) =
      map_option (\<lambda>s. (srv_handle s, localport s)) (get_service st i)"
    using arg_cong [OF m, of "\<lambda>xs. xs ! i"] l by (cases "i < length (services_of st)") (simp_all add: get_service_def)
qed

lemma same_table_lookup:
  assumes "same_table st st'"
  shows "lookup_handle st' h = lookup_handle st h"
proof -
  have "find_index (has_handle h) xs = find_index (\<lambda>e. map_option fst e = Some h)
      (map (map_option (\<lambda>s. (srv_handle s, localport s))) xs)" for xs :: "'a service option list"
    by (induction xs) (auto simp: has_handle_def split: option.splits)
  then show ?thesis
    using assms by (simp add: lookup_handle_def service_from_handle_def same_table_def)
qed

lemma same_table_wf:
  assumes "same_table st st'" "table_wf st"
  shows "table_wf st'"
proof -
  have "\<exists>s0. get_service st i = Some s0 \<and> srv_handle s0 = srv_handle s" if "get_service st' i = Some s" for i s
    using same_table_entry(1) [OF assms(1), of i] that by (auto simp: map_option_case split: option.splits)
  with assms(2) show ?thesis unfolding table_wf_alt by metis
qed

lemma same_table_inv:
  assumes "same_table st st'" "srv_inv st"
  shows "srv_inv st'"
proof -
  note e = same_table_entry [OF assms(1)]
  have f: "unused_service (srv_state st') = unused_service (srv_state st)"
      "length (quotas_of st') = length (quotas_of st)" "next_srv_handle st' = next_srv_handle st"
    using assms(1) by (simp_all add: same_table_def)
  have "case services_of st' ! i of None \<Rightarrow> unat (unused_service (srv_state st)) \<le> i
      | Some s \<Rightarrow> i < unat (unused_service (srv_state st)) \<and> unat (localport s) = i \<and> srv_handle s < next_srv_handle st"
    if i: "i < 4096" for i
  proof -
    have g: "services_of st' ! i = get_service st' i"
      using i e(2) srv_invD(1) [OF assms(2)] by (simp add: get_service_def)
    show ?thesis
    proof (cases "get_service st' i")
      case None
      then have "get_service st i = None" using e(1) [of i] by simp
      with None srv_invD(6) [OF assms(2), of i] show ?thesis unfolding g by force
    next
      case (Some s)
      then obtain s0 where "get_service st i = Some s0" "srv_handle s0 = srv_handle s" "localport s0 = localport s"
        using e(1) [of i] by (auto simp: map_option_case split: option.splits)
      with Some srv_invD(5) [OF assms(2), of i s0] show ?thesis unfolding g by simp
    qed
  qed
  then show ?thesis
    using same_table_wf [OF assms(1) srv_invD(4) [OF assms(2)]] srv_invD(1-3) [OF assms(2)] e(2)
    unfolding srv_inv_def f by simp
qed

lemma fresh_srv_inv:
  assumes "fresh_state S P st"
  shows "srv_inv st"
  using assms by (simp add: fresh_state_def srv_inv_def table_wf_def)

lemma accounted_length: "length (service_quotas (accounted ty srv idx q)) = length (service_quotas q)"
  by (simp add: accounted_def account_data_def Let_def split: option.splits)

lemma queued_srv_inv:
  assumes "srv_inv st"
  shows "srv_inv (queued_state service ty msg_id c t st)"
proof -
  note q = queued_state_simps [of service ty msg_id c t st]
  have c: "srv_inv (queued_state service ty msg_id c t st) = srv_inv st'"
    if "srv_state st' = sent_services service ty st" "length (quotas_of st') = length (quotas_of st)"
      "next_srv_handle st' = next_srv_handle st" for st'
    using that by (intro srv_inv_cong) (simp_all add: q accounted_length)
  show ?thesis
  proof (cases "ty = CLOSE \<and> service \<noteq> None")
    case True
    then obtain i where "service = Some i" by auto
    with True show ?thesis
      using c [of "update_service i (set_state CLOSESENT) st"] srv_inv_update [OF assms, of "set_state CLOSESENT" i]
      by (simp add: sent_services_def)
  next
    case False
    then show ?thesis using c [of st] assms by (auto simp: sent_services_def split: option.splits)
  qed
qed

lemma queue_message_srv_inv:
  assumes "sem_laws S cnt" "tx_inv st" "context_size c \<le> 4088" "queue_message S service msg_id c b st = Ok () st'"
    and "srv_inv st"
  shows "srv_inv st'"
  using queue_message_Ok [OF assms(1-4)] queued_srv_inv [OF assms(5)] by metis

section \<open>Adding services\<close>

lemma find_service_index_eq:
  assumes "srv_inv st"
  shows "find_service_index (srv_state st) =
    (if unat (unused_service (srv_state st)) < 4096 then Some (unat (unused_service (srv_state st))) else None)"
proof -
  let ?u = "unat (unused_service (srv_state st))"
  have "\<not> Option.is_none x" if x: "x \<in> set (take ?u (services_of st))" for x
  proof -
    obtain i where i: "i < ?u" "x = services_of st ! i"
      using x unfolding in_set_conv_nth by auto
    then show ?thesis using srv_invD(6) [OF assms i(1)] by (auto simp: get_service_Some)
  qed
  then have "find_index Option.is_none (take ?u (services_of st)) = None" by (simp add: find_index_None)
  then show ?thesis
    by (simp add: find_service_index_def VCHIQ_MAX_SERVICES_def word_less_nat_alt)
qed

lemma add_service_eq:
  assumes "srv_inv st"
  defines "u \<equiv> unat (unused_service (srv_state st))"
  shows "add_service S params OPENING st =
    (let st0 = st\<lparr>next_srv_handle := next_srv_handle st + 1\<rparr>
     in if u < 4096
        then Ok (next_srv_handle st)
          (insert_service u (set_state OPENING ((fst (service_new S params (next_srv_handle st)))
             \<lparr>public_fourcc := None, localport := of_nat u\<rparr>)) st0)
        else Err (VchiqErr UnableToAddService) st0)"
  using srv_invD(1,3) [OF assms(1)] find_service_index_eq [OF assms(1)]
  by (simp add: add_service_def Let_def split_def u_def)

text \<open>Inserting at the first unused index.\<close>

lemma insert_service_simps:
  assumes "i < length (quotas_of st)"
  shows "srv_state (insert_service i srv st) =
      \<lparr>services = (services_of st)[i := Some srv], unused_service = unused_service (srv_state st) + 1\<rparr>"
    "slot_state (insert_service i srv st) = slot_state st"
    "next_srv_handle (insert_service i srv st) = next_srv_handle st"
    "length (quotas_of (insert_service i srv st)) = length (quotas_of st)"
    "slot_queue_available (insert_service i srv st) = slot_queue_available st"
    "conn_state (insert_service i srv st) = conn_state st"
    "initialized (insert_service i srv st) = initialized st"
    "quotas_of (insert_service i srv st) ! i =
      service_quota_setup (default_slot_quota st) (default_message_quota st) (local_tx_pos (slot_state st)) (quotas_of st ! i)"
  using assms by (simp_all add: insert_service_def Let_def update_quota_def)

lemma insert_service_get:
  assumes "i < length (quotas_of st)" "i < length (services_of st)"
  shows "get_service (insert_service i srv st) j = (if j = i then Some srv else get_service st j)"
  using assms by (auto simp: get_service_def insert_service_simps)

lemma insert_service_inv:
  assumes "srv_inv st" "u = unat (unused_service (srv_state st))" "u < 4096" "unat (localport srv) = u"
    and "srv_handle srv = h" "\<And>i s. get_service st i = Some s \<Longrightarrow> srv_handle s < h" "h < n"
  shows "srv_inv (insert_service u srv (st\<lparr>next_srv_handle := n\<rparr>))" (is "srv_inv ?st")
proof -
  let ?old = "st\<lparr>next_srv_handle := n\<rparr>"
  have l: "u < length (quotas_of ?old)" "u < length (services_of ?old)"
    using assms(3) srv_invD(1,2) [OF assms(1)] by simp_all
  note q = insert_service_simps [OF l(1), of srv] and g = insert_service_get [OF l, of srv]
  have g0: "get_service ?old i = get_service st i" for i by (simp add: get_service_def)
  have uu: "unat (unused_service (srv_state st) + 1) = u + 1"
    using assms(2,3) by (subst unat_add_small) simp_all
  have ne: "srv_handle s \<noteq> h" if "get_service st i = Some s" for i s
    using assms(6) [OF that] by simp
  have wf: "table_wf ?st"
    using srv_invD(4) [OF assms(1)] assms(5) ne
    unfolding table_wf_alt g g0 by (metis option.inject)
  have "case services_of ?st ! i of None \<Rightarrow> u + 1 \<le> i
      | Some s \<Rightarrow> i < u + 1 \<and> unat (localport s) = i \<and> srv_handle s < n" if "i < 4096" for i
  proof -
    have e: "services_of ?st ! i = get_service ?st i"
      using that srv_invD(1) [OF assms(1)] by (simp add: get_service_def q)
    show ?thesis
    proof (cases "i = u")
      case True
      then have gi: "get_service ?st i = Some srv" by (simp add: g)
      show ?thesis unfolding e gi using True assms(4,5,7) by simp
    next
      case False
      then have gi: "get_service ?st i = get_service st i" by (simp only: g g0 if_False)
      show ?thesis
      proof (cases "get_service st i")
        case None
        then show ?thesis
          unfolding e gi using False srv_invD(6) [OF assms(1), of i] assms(2) by force
      next
        case (Some s)
        then show ?thesis
          unfolding e gi using srv_invD(5) [OF assms(1) Some] assms(2,6,7) by force
      qed
    qed
  qed
  moreover have "unat (unused_service (srv_state ?st)) = u + 1" "next_srv_handle ?st = n"
      "length (services_of ?st) = 4096" "length (quotas_of ?st) = 4096" "u + 1 \<le> 4096"
    using uu srv_invD(1,2) [OF assms(1)] assms(3) by (simp_all add: q)
  ultimately show ?thesis using wf unfolding srv_inv_def by presburger
qed

section \<open>Properties\<close>

text \<open>
  C14: While there is room in the table, \<^verbatim>\<open>add_service\<close> returns a fresh handle, under which exactly the
  new service is found, in state \<^verbatim>\<open>OPENING\<close> and with the default quotas; all other handles find what
  they found before, and the invariant of the table is kept.
\<close>

theorem add_service_fresh:
  assumes "srv_inv st" "unat (unused_service (srv_state st)) < 4096" "unat (next_srv_handle st) + 1 < 2 ^ 64"
  shows "\<exists>st' i srv. add_service S params OPENING st = Ok (next_srv_handle st) st' \<and> srv_inv st' \<and>
    i = unat (unused_service (srv_state st)) \<and> lookup_handle st (next_srv_handle st) = None \<and>
    lookup_handle st' (next_srv_handle st) = Some i \<and> get_service st' i = Some srv \<and>
    srvstate srv = OPENING \<and> unat (localport srv) = i \<and> base_userdata srv = sp_userdata params \<and>
    service_by_port st' (of_nat i) = Ok (Some i) () \<and>
    slot_quota (quotas_of st' ! i) = default_slot_quota st \<and>
    (\<forall>h. h \<noteq> next_srv_handle st \<longrightarrow> lookup_handle st' h = lookup_handle st h) \<and>
    (\<forall>j. j \<noteq> i \<longrightarrow> get_service st' j = get_service st j) \<and> slot_state st' = slot_state st"
proof -
  let ?h = "next_srv_handle st" and ?u = "unat (unused_service (srv_state st))"
  let ?old = "st\<lparr>next_srv_handle := ?h + 1\<rparr>"
  define srv where "srv = set_state OPENING ((fst (service_new S params ?h))\<lparr>public_fourcc := None, localport := of_nat ?u\<rparr>)"
  define st' where "st' = insert_service ?u srv ?old"
  have add: "add_service S params OPENING st = Ok ?h st'"
    using add_service_eq [OF assms(1), of S params] assms(2) by (simp add: srv_def st'_def)
  have l: "?u < length (quotas_of ?old)" "?u < length (services_of ?old)"
    using assms(2) srv_invD(1,2) [OF assms(1)] by simp_all
  note q = insert_service_simps [OF l(1), of srv, folded st'_def]
  have u: "unat (of_nat ?u :: u32) = ?u" using assms(2) by (intro unat_of_nat_u32) simp
  have srv: "srv_handle srv = ?h" "srvstate srv = OPENING" "unat (localport srv) = ?u"
      "base_userdata srv = sp_userdata params"
    using u by (simp_all add: srv_def service_new_def)
  have g: "get_service st' j = (if j = ?u then Some srv else get_service st j)" for j
    using insert_service_get [OF l, of srv j] by (simp add: st'_def get_service_def)
  have old: "srv_handle s < ?h" if "get_service st i = Some s" for i s
    using srv_invD(5) [OF assms(1) that] by simp
  have lt: "?h < ?h + 1"
    using assms(3) unat_add_small [of ?h 1] by (simp add: word_less_nat_alt)
  have inv: "srv_inv st'"
    unfolding st'_def
    using insert_service_inv [OF assms(1) refl assms(2) srv(3,1) old lt] by simp
  note wf = srv_invD(4) [OF assms(1)] srv_invD(4) [OF inv]
  have none: "lookup_handle st ?h = None"
  proof (rule ccontr)
    assume "lookup_handle st ?h \<noteq> None"
    then obtain i s where "get_service st i = Some s" "srv_handle s = ?h"
      using services.lookup_iff [OF wf(1)] by blast
    then show False using old [of i s] by simp
  qed
  have new: "lookup_handle st' ?h = Some ?u"
    unfolding services.lookup_iff [OF wf(2)] using g srv(1) by auto
  have others: "lookup_handle st' h = lookup_handle st h" if "h \<noteq> ?h" for h
  proof -
    have "lookup_handle st' h = Some j \<longleftrightarrow> lookup_handle st h = Some j" for j
      unfolding services.lookup_iff [OF wf(1)] services.lookup_iff [OF wf(2)]
      using g that srv(1) srv_invD(7) [OF assms(1), of ?u] by (cases "j = ?u") simp_all
    then show ?thesis by (metis not_Some_eq)
  qed
  have port: "service_by_port st' (of_nat ?u) = Ok (Some ?u) ()"
    unfolding service_by_port_def u using g [of ?u] srv(2) by (simp add: get_service_Some)
  have quota: "slot_quota (quotas_of st' ! ?u) = default_slot_quota st"
    unfolding q by (simp add: service_quota_setup_def Let_def)
  show ?thesis
    by (rule exI [of _ st'], rule exI [of _ ?u], rule exI [of _ srv])
      (use add inv none new others port quota g srv q(2) in simp)
qed

theorem add_service_fresh_witness:
  "\<exists>st'. add_service counter_sem demo_params OPENING boot_state = Ok 4096 st' \<and> srv_inv st' \<and>
    lookup_handle boot_state 4096 = None \<and> lookup_handle st' 4096 = Some 0 \<and> service_by_port st' 0 = Ok (Some 0) ()"
proof -
  have u: "unat (unused_service (srv_state boot_state)) = 0" using boot_fresh by (simp add: fresh_state_def)
  show ?thesis
    using add_service_fresh [OF fresh_srv_inv [OF boot_fresh], of counter_sem demo_params] u boot_handle by auto
qed

end
