(* ===== verification/Ring.thy ===== *)
theory Ring
  imports Vchiq_Types
begin

text \<open>
  The contract of the two ring buffers of the driver, the completion queue of an instance and the
  message queue of a service.  Both keep free running insert and remove counters of the width of
  \<^verbatim>\<open>usize\<close> and 128 optional entries; an index is the counter reduced with a bit mask.  The locale
  \<open>ring_queue\<close> states what insertion and removal do to the entries and the counters, as the code does it
  without looking whether there is room; it is interpreted on both queues where they are defined.  Under
  the locale, a queue with at most 128 entries behaves as a list, also across the wrap-around of
  the counters, and one more insertion destroys the oldest entry.
\<close>

definition ring_len :: "usize \<Rightarrow> usize \<Rightarrow> nat" where
  "ring_len ins rem = unat (ins - rem)"

definition ring_slot :: "usize \<Rightarrow> nat \<Rightarrow> nat" where
  "ring_slot rem k = unat ((rem + of_nat k) AND 127)"

definition ring_content :: "'a option list \<Rightarrow> usize \<Rightarrow> usize \<Rightarrow> 'a option list" where
  "ring_content xs ins rem = map (\<lambda>k. xs ! ring_slot rem k) [0..<ring_len ins rem]"

definition ring_ok :: "'a option list \<Rightarrow> usize \<Rightarrow> usize \<Rightarrow> bool" where
  "ring_ok xs ins rem \<longleftrightarrow> length xs = 128 \<and> ring_len ins rem \<le> 128"

lemma ring_slot_mod: "ring_slot rem k = (unat rem + k) mod 128"
proof -
  have "unat (rem + of_nat k) mod 128 = (unat rem + unat (of_nat k :: usize)) mod 128"
    by (simp add: unat_word_ariths mod_mod_cancel)
  also have "unat (of_nat k :: usize) mod 128 = k mod 128"
    by (simp add: unsigned_of_nat take_bit_eq_mod mod_mod_cancel)
  then have "(unat rem + unat (of_nat k :: usize)) mod 128 = (unat rem + k) mod 128"
    by (metis mod_add_right_eq)
  finally show ?thesis by (simp add: ring_slot_def unat_and_127)
qed

lemma ring_slot_less: "ring_slot rem k < 128"
  by (simp add: ring_slot_mod)

lemma ring_slot_inj: "ring_slot rem j = ring_slot rem k \<Longrightarrow> j < 128 \<Longrightarrow> k < 128 \<Longrightarrow> j = k"
  using mod_ring_inj [of "unat rem + j" 128 "unat rem + k" "unat rem"] by (simp add: ring_slot_mod)

lemma ring_slot_0: "ring_slot rem 0 = unat (rem AND 127)"
  by (simp add: ring_slot_def)

lemma ring_slot_insert: "ring_slot rem (ring_len ins rem) = unat (ins AND 127)"
  by (simp add: ring_slot_def ring_len_def)

lemma ring_slot_Suc: "ring_slot (rem + 1) k = ring_slot rem (Suc k)"
  by (simp add: ring_slot_def algebra_simps)

lemma ring_len_insert: "ring_len ins rem < 2 ^ 64 - 1 \<Longrightarrow> ring_len (ins + 1) rem = Suc (ring_len ins rem)"
proof -
  assume a: "ring_len ins rem < 2 ^ 64 - 1"
  have "ins + 1 - rem = (ins - rem) + 1" by simp
  then show ?thesis using a unfolding ring_len_def by (simp only:) (subst unat_add_small, simp_all)
qed

lemma ring_len_remove: "ins \<noteq> rem \<Longrightarrow> ring_len ins (rem + 1) = ring_len ins rem - 1"
proof -
  assume "ins \<noteq> rem"
  then have "0 < unat (ins - rem)" by (simp add: unat_gt_0)
  then have "unat (ins - rem - 1) = unat (ins - rem) - 1" by (subst unat_sub_small) auto
  then show ?thesis by (simp add: ring_len_def algebra_simps)
qed

lemma ring_len_0: "ring_len ins rem = 0 \<longleftrightarrow> ins = rem"
  by (simp add: ring_len_def unat_eq_0)

section \<open>The contract\<close>

locale ring_queue =
  fixes entries :: "'r \<Rightarrow> 'a option list"
    and ins :: "'r \<Rightarrow> usize"
    and rem :: "'r \<Rightarrow> usize"
    and put :: "'a option \<Rightarrow> 'r \<Rightarrow> 'r"
    and drp :: "'r \<Rightarrow> 'r"
  assumes put_entries: "entries (put x r) = (entries r)[unat (ins r AND 127) := x]"
    and put_ins: "ins (put x r) = ins r + 1"
    and put_rem: "rem (put x r) = rem r"
    and drp_entries: "entries (drp r) = (entries r)[unat (rem r AND 127) := None]"
    and drp_ins: "ins (drp r) = ins r"
    and drp_rem: "rem (drp r) = rem r + 1"
begin

lemma content_put:
  assumes "ring_ok (entries r) (ins r) (rem r)" "ring_len (ins r) (rem r) < 128"
  shows "ring_content (entries (put x r)) (ins (put x r)) (rem (put x r)) =
      ring_content (entries r) (ins r) (rem r) @ [x]"
    and "ring_ok (entries (put x r)) (ins (put x r)) (rem (put x r))"
proof -
  let ?n = "ring_len (ins r) (rem r)"
  have l: "ring_len (ins r + 1) (rem r) = Suc ?n" using assms(2) by (intro ring_len_insert) simp
  have "(entries r)[ring_slot (rem r) ?n := x] ! ring_slot (rem r) k = entries r ! ring_slot (rem r) k"
    if "k < ?n" for k
    using that assms ring_slot_inj [of "rem r" ?n k] by (subst nth_list_update_neq) auto
  moreover have "(entries r)[ring_slot (rem r) ?n := x] ! ring_slot (rem r) ?n = x"
    using assms(1) ring_slot_less by (simp add: ring_ok_def)
  ultimately show "ring_content (entries (put x r)) (ins (put x r)) (rem (put x r)) =
      ring_content (entries r) (ins r) (rem r) @ [x]"
    by (simp add: ring_content_def put_entries put_ins put_rem l ring_slot_insert [of "rem r" "ins r", symmetric])
  show "ring_ok (entries (put x r)) (ins (put x r)) (rem (put x r))"
    using assms l by (simp add: ring_ok_def put_entries put_ins put_rem)
qed

lemma content_drp:
  assumes "ring_ok (entries r) (ins r) (rem r)" "ins r \<noteq> rem r"
  shows "ring_content (entries r) (ins r) (rem r) =
      entries r ! unat (rem r AND 127) # ring_content (entries (drp r)) (ins (drp r)) (rem (drp r))"
    and "ring_ok (entries (drp r)) (ins (drp r)) (rem (drp r))"
proof -
  let ?n = "ring_len (ins r) (rem r)"
  have n: "?n \<noteq> 0" using assms(2) by (simp add: ring_len_0)
  have l: "ring_len (ins r) (rem r + 1) = ?n - 1" using assms(2) by (rule ring_len_remove)
  have "(entries r)[ring_slot (rem r) 0 := None] ! ring_slot (rem r) (Suc k) = entries r ! ring_slot (rem r) (Suc k)"
    if "Suc k < ?n" for k
    using that assms ring_slot_inj [of "rem r" 0 "Suc k"] by (subst nth_list_update_neq) (auto simp: ring_ok_def)
  then have "map (\<lambda>k. (entries r)[ring_slot (rem r) 0 := None] ! ring_slot (rem r) (Suc k)) [0..<?n - 1] =
      map (\<lambda>k. entries r ! ring_slot (rem r) (Suc k)) [0..<?n - 1]"
    by simp
  moreover have "map (\<lambda>k. entries r ! ring_slot (rem r) k) [0..<?n] =
      entries r ! ring_slot (rem r) 0 # map (\<lambda>k. entries r ! ring_slot (rem r) (Suc k)) [0..<?n - 1]"
    using n by (cases ?n) (simp_all add: upt_conv_Cons map_Suc_upt [symmetric] del: upt_Suc)
  ultimately show "ring_content (entries r) (ins r) (rem r) =
      entries r ! unat (rem r AND 127) # ring_content (entries (drp r)) (ins (drp r)) (rem (drp r))"
    by (simp add: ring_content_def drp_entries drp_ins drp_rem l ring_slot_Suc ring_slot_0 [symmetric])
  show "ring_ok (entries (drp r)) (ins (drp r)) (rem (drp r))"
    using assms l by (auto simp: ring_ok_def drp_entries drp_ins drp_rem)
qed

text \<open>Inserting into a full queue replaces the oldest entry: it is lost, and the new one is the next
  to be removed.\<close>

lemma put_full:
  assumes "ring_ok (entries r) (ins r) (rem r)" "ring_len (ins r) (rem r) = 128"
  shows "entries (put x r) = (entries r)[ring_slot (rem r) 0 := x]" "ring_len (ins (put x r)) (rem (put x r)) = 129"
proof -
  have "ring_slot (rem r) (ring_len (ins r) (rem r)) = ring_slot (rem r) 0"
    unfolding assms(2) by (simp add: ring_slot_mod)
  then have s: "unat (ins r AND 127) = unat (rem r AND 127)"
    unfolding ring_slot_insert ring_slot_0 .
  show "entries (put x r) = (entries r)[ring_slot (rem r) 0 := x]" by (simp add: put_entries s ring_slot_0)
  show "ring_len (ins (put x r)) (rem (put x r)) = 129"
    using assms(2) by (simp add: put_ins put_rem ring_len_insert)
qed

end

end
