(* ===== verification/Completion.thy ===== *)
theory Completion
  imports Service Ring
begin

text \<open>
  Completions: \<^verbatim>\<open>src/vchiq/instance/completion.rs\<close>, the callback \<^verbatim>\<open>service_callback\<close> that fills the message
  queue of a service and the completion queue, and the two consumers \<^verbatim>\<open>dequeue_message\<close> and
  \<^verbatim>\<open>await_completion\<close> of \<^verbatim>\<open>src/vchiq/instance/mod.rs\<close>, split at their suspension points.
\<close>

section \<open>The completion queue\<close>

record 'sem completion =
  completion_insert :: usize
  completion_remove :: usize
  c_insert_event :: 'sem
  c_remove_event :: 'sem
  completions :: "service_completion option list"

definition completion_default :: "'sem sem_ops \<Rightarrow> 'sem completion" where
  "completion_default S = \<lparr>completion_insert = 0, completion_remove = 0, c_insert_event = sem_new S 0,
     c_remove_event = sem_new S 0, completions = replicate (unat MAX_COMPLETIONS) None\<rparr>"

text \<open>Writing the entry at the insert position and advancing it; taking the entry at the remove position.\<close>

definition put_completion :: "service_completion option \<Rightarrow> 'sem completion \<Rightarrow> 'sem completion" where
  "put_completion x c = c\<lparr>completions := (completions c)[unat (completion_insert c AND (MAX_COMPLETIONS - 1)) := x],
     completion_insert := completion_insert c + 1\<rparr>"

definition drop_completion :: "'sem completion \<Rightarrow> 'sem completion" where
  "drop_completion c = c\<lparr>completions := (completions c)[unat (completion_remove c AND (MAX_COMPLETIONS - 1)) := None],
     completion_remove := completion_remove c + 1\<rparr>"

definition try_down_ignored :: "'sem sem_ops \<Rightarrow> 'sem \<Rightarrow> 'sem" where
  "try_down_ignored S s = (case sem_try_down S s of None \<Rightarrow> s | Some s' \<Rightarrow> s')"

definition add_completion ::
  "'sem sem_ops \<Rightarrow> reason \<Rightarrow> slot_message option \<Rightarrow> 'sem service_user \<Rightarrow> 'sem completion
   \<Rightarrow> (unit, 'sem service_user \<times> 'sem completion) result" where
  "add_completion S reason message us c =
     (let insert = completion_insert c;
          remove = completion_remove c;
          c = (if insert - remove \<ge> MAX_COMPLETIONS
               then c\<lparr>c_remove_event := try_down_ignored S (c_remove_event c)\<rparr> else c);
          idx = unat (insert AND (MAX_COMPLETIONS - 1))
      in if idx < length (completions c)
         then (let c = put_completion
                      (Some \<lparr>sc_reason = reason, sc_msg = message, sc_userdata = su_userdata us\<rparr>) c;
                   us = (if reason = MESSAGE_AVAILABLE then us\<lparr>message_available_pos := sint insert\<rparr> else us);
                   c = c\<lparr>c_insert_event := sem_up S (c_insert_event c)\<rparr>
               in Ok () (us, c))
         else Panic ''called Option::unwrap() on a None value'')"

section \<open>The callback of a service\<close>

definition put_message :: "slot_message option \<Rightarrow> 'sem service_user \<Rightarrow> 'sem service_user" where
  "put_message x us = us\<lparr>msg_queue := (msg_queue us)[unat (msg_insert us AND (MSG_QUEUE_SIZE - 1)) := x],
     msg_insert := msg_insert us + 1\<rparr>"

definition drop_message :: "'sem service_user \<Rightarrow> 'sem service_user" where
  "drop_message us = us\<lparr>msg_queue := (msg_queue us)[unat (msg_remove us AND (MSG_QUEUE_SIZE - 1)) := None],
     msg_remove := msg_remove us + 1\<rparr>"

text \<open>A message arrives in the message queue of the service; the entry is overwritten even when the
  queue is full.\<close>

definition queue_full :: "'sem service_user \<Rightarrow> bool" where
  "queue_full us \<longleftrightarrow> msg_insert us = msg_remove us + MSG_QUEUE_SIZE"

definition callback_full ::
  "'sem sem_ops \<Rightarrow> reason \<Rightarrow> 'sem service_user \<Rightarrow> 'sem completion
   \<Rightarrow> (unit, 'sem service_user \<times> 'sem completion) result" where
  "callback_full S reason us c =
     (if queue_full us
      then seq_res
        (if message_available_pos us < sint (completion_remove c)
         then add_completion S reason None us c else Ok () (us, c))
        (\<lambda>_ (us, c). Ok () (us\<lparr>su_remove_event := try_down_ignored S (su_remove_event us)\<rparr>, c))
      else Ok () (us, c))"

definition callback_insert ::
  "'sem sem_ops \<Rightarrow> slot_message option \<Rightarrow> 'sem service_user \<times> 'sem completion
   \<Rightarrow> (bool, 'sem service_user \<times> 'sem completion) result" where
  "callback_insert S message = (\<lambda>(us, c).
     let idx = unat (msg_insert us AND (MSG_QUEUE_SIZE - 1))
     in if idx < length (msg_queue us)
        then (let us = put_message message us;
                  skip = (message_available_pos us \<ge> sint (completion_remove c) \<or> dequeue_pending us);
                  us = (if skip then us\<lparr>dequeue_pending := False\<rparr> else us);
                  us = us\<lparr>su_insert_event := sem_up S (su_insert_event us)\<rparr>
              in Ok skip (us, c))
        else Panic ''called Option::unwrap() on a None value'')"

definition user_callback ::
  "'sem sem_ops \<Rightarrow> reason \<Rightarrow> slot_message option \<Rightarrow> 'sem service_user \<Rightarrow> 'sem completion
   \<Rightarrow> (unit, 'sem service_user \<times> 'sem completion) result" where
  "user_callback S reason message us c =
     seq_res
       (if is_vchi us
        then seq_res (callback_full S reason us c) (\<lambda>_ uc. callback_insert S message uc)
        else Ok False (us, c))
       (\<lambda>skip (us, c). if skip then Ok () (us, c) else add_completion S reason message us c)"

definition service_callback ::
  "'sem sem_ops \<Rightarrow> reason \<Rightarrow> slot_message option \<Rightarrow> 'sem service \<Rightarrow> 'sem completion
   \<Rightarrow> (unit, 'sem service \<times> 'sem completion) result" where
  "service_callback S reason message srv c =
     (case base_userdata srv of
        Some (UD_ServiceUser us) \<Rightarrow>
          bind_res (user_callback S reason message us c)
            (\<lambda>_ (us, c). Ok () (srv\<lparr>base_userdata := Some (UD_ServiceUser us)\<rparr>, c))
            (\<lambda>_ (us, c). (srv\<lparr>base_userdata := Some (UD_ServiceUser us)\<rparr>, c))
      | _ \<Rightarrow> Panic ''called Option::unwrap() on a None value'')"

section \<open>Taking messages\<close>

text \<open>The wait of \<^verbatim>\<open>dequeue_message\<close>: ready as soon as the queue is not empty.\<close>

definition dequeue_poll :: "'sem sem_ops \<Rightarrow> 'sem service_user \<Rightarrow> unit poll \<times> 'sem service_user" where
  "dequeue_poll S us =
     (if msg_remove us = msg_insert us
      then (let us = us\<lparr>dequeue_pending := True\<rparr>
            in case sem_try_down S (su_insert_event us) of
                 Some s \<Rightarrow> (if msg_remove us \<noteq> msg_insert us then Ready () else Pending, us\<lparr>su_insert_event := s\<rparr>)
               | None \<Rightarrow> (Pending, us))
      else (Ready (), us))"

definition dequeue_take ::
  "'sem sem_ops \<Rightarrow> (slot_message \<Rightarrow> box_error + 'a) \<Rightarrow> 'sem service_user \<Rightarrow> ('a, 'sem service_user) result" where
  "dequeue_take S conv us =
     (if msg_remove us > msg_insert us then Err (GenericErr ''user service msg_remove > msg_insert'') us
      else
        (let idx = unat (msg_remove us AND (MSG_QUEUE_SIZE - 1))
         in if \<not> idx < length (msg_queue us) then Panic ''called Option::unwrap() on a None value''
            else case msg_queue us ! idx of
                None \<Rightarrow> Panic ''called Option::unwrap() on a None value''
              | Some message \<Rightarrow>
                  (let us = drop_message us
                   in case conv message of
                        Inl _ \<Rightarrow> Panic ''called Result::unwrap() on an Err value''
                      | Inr result \<Rightarrow> Ok result (us\<lparr>su_remove_event := sem_up S (su_remove_event us)\<rparr>))))"

section \<open>Waiting for completions\<close>

definition await_poll :: "'sem sem_ops \<Rightarrow> 'sem completion \<Rightarrow> unit poll \<times> 'sem completion" where
  "await_poll S c =
     (if completion_remove c = completion_insert c
      then (Pending, c\<lparr>c_insert_event := try_down_ignored S (c_insert_event c)\<rparr>)
      else (Ready (), c))"

fun collect_completions :: "nat \<Rightarrow> 'sem completion \<Rightarrow> (service_completion list, 'sem completion) result" where
  "collect_completions 0 c = Ok [] c"
| "collect_completions (Suc n) c =
     (let remove = completion_remove c; idx = unat (remove AND (MAX_COMPLETIONS - 1))
      in if remove = completion_insert c then Ok [] c
         else if \<not> idx < length (completions c) then Panic ''called Option::unwrap() on a None value''
         else case completions c ! idx of
             None \<Rightarrow> Panic ''called Option::unwrap() on a None value''
           | Some x \<Rightarrow>
               seq_res (collect_completions n (drop_completion c)) (\<lambda>xs c. Ok (x # xs) c))"

section \<open>Both queues are rings\<close>

lemma ring_masks: "MAX_COMPLETIONS - 1 = 127" "MSG_QUEUE_SIZE - 1 = 127"
  by (simp_all add: config_defs)

interpretation cq: ring_queue completions completion_insert completion_remove put_completion drop_completion
  by unfold_locales (simp_all add: put_completion_def drop_completion_def ring_masks)

interpretation mq: ring_queue msg_queue msg_insert msg_remove put_message drop_message
  by unfold_locales (simp_all add: put_message_def drop_message_def ring_masks)

abbreviation pending_completions :: "'sem completion \<Rightarrow> service_completion option list" where
  "pending_completions c \<equiv> ring_content (completions c) (completion_insert c) (completion_remove c)"

abbreviation pending_messages :: "'sem service_user \<Rightarrow> slot_message option list" where
  "pending_messages us \<equiv> ring_content (msg_queue us) (msg_insert us) (msg_remove us)"

text \<open>The invariants: at most 128 pending entries, and every pending completion is there.\<close>

definition completion_inv :: "'sem completion \<Rightarrow> bool" where
  "completion_inv c \<longleftrightarrow> ring_ok (completions c) (completion_insert c) (completion_remove c) \<and>
     None \<notin> set (pending_completions c)"

definition user_inv :: "'sem service_user \<Rightarrow> bool" where
  "user_inv us \<longleftrightarrow> ring_ok (msg_queue us) (msg_insert us) (msg_remove us) \<and>
     msg_remove us \<le> msg_insert us \<and> None \<notin> set (pending_messages us)"

lemma length_pending [simp]: "length (ring_content xs i r) = ring_len i r"
  by (simp add: ring_content_def)

lemma completion_inv_event [simp]:
  "completion_inv (c\<lparr>c_insert_event := s\<rparr>) = completion_inv c"
  "completion_inv (c\<lparr>c_remove_event := s\<rparr>) = completion_inv c"
  by (simp_all add: completion_inv_def)

lemma completion_default_inv: "completion_inv (completion_default S)" "pending_completions (completion_default S) = []"
  by (simp_all add: completion_inv_def completion_default_def ring_ok_def ring_len_def ring_content_def config_defs)

text \<open>Adding a completion while there is room.\<close>

lemma add_completion_room:
  assumes "completion_inv c" "ring_len (completion_insert c) (completion_remove c) < 128"
  shows "\<exists>us' c'. add_completion S reason message us c = Ok () (us', c') \<and> completion_inv c' \<and>
    pending_completions c' = pending_completions c @
      [Some \<lparr>sc_reason = reason, sc_msg = message, sc_userdata = su_userdata us\<rparr>] \<and>
    completion_remove c' = completion_remove c \<and> completion_insert c' = completion_insert c + 1 \<and>
    us' = (if reason = MESSAGE_AVAILABLE then us\<lparr>message_available_pos := sint (completion_insert c)\<rparr> else us)"
proof -
  have l: "unat (completion_insert c AND 127) < length (completions c)"
    using assms(1) by (simp add: completion_inv_def ring_ok_def unat_and_127)
  have full: "\<not> completion_insert c - completion_remove c \<ge> MAX_COMPLETIONS"
    using assms(2) by (simp add: ring_len_def word_le_nat_alt config_defs)
  let ?x = "Some \<lparr>sc_reason = reason, sc_msg = message, sc_userdata = su_userdata us\<rparr>"
  have ok: "ring_ok (completions c) (completion_insert c) (completion_remove c)"
    using assms(1) by (simp add: completion_inv_def)
  note p = cq.content_put [OF ok assms(2), of ?x] and i = cq.put_ins [of ?x c] cq.put_rem [of ?x c]
  have "completion_inv (put_completion ?x c)"
    using p assms(1) by (simp add: completion_inv_def)
  then show ?thesis
    using l full p i by (simp add: add_completion_def Let_def ring_masks)
qed

lemma collect_completions_eq:
  assumes "completion_inv c"
  shows "\<exists>c'. collect_completions n c = Ok (map the (take n (pending_completions c))) c' \<and> completion_inv c' \<and>
    pending_completions c' = drop n (pending_completions c)"
  using assms
proof (induction n arbitrary: c)
  case (Suc n)
  show ?case
  proof (cases "completion_insert c = completion_remove c")
    case True
    then have "pending_completions c = []" by (simp add: ring_content_def ring_len_def)
    with True Suc.prems show ?thesis by (simp add: Let_def)
  next
    case False
    let ?x = "completions c ! unat (completion_remove c AND 127)"
    have ok: "ring_ok (completions c) (completion_insert c) (completion_remove c)"
      using Suc.prems by (simp add: completion_inv_def)
    note d = cq.content_drp [OF ok False]
    have l: "unat (completion_remove c AND 127) < length (completions c)"
      using ok by (simp add: ring_ok_def unat_and_127)
    have nn: "None \<notin> set (?x # pending_completions (drop_completion c))"
      using Suc.prems unfolding completion_inv_def d(1) by blast
    then have "completion_inv (drop_completion c)" using d(2) by (simp add: completion_inv_def)
    moreover obtain x where "?x = Some x" using nn by (cases ?x) simp_all
    ultimately show ?thesis
      using Suc.IH [of "drop_completion c"] False l d(1) by (auto simp: Let_def ring_masks)
  qed
qed simp

section \<open>Messages of a service\<close>

lemma callback_insert_room:
  assumes "user_inv us" "ring_len (msg_insert us) (msg_remove us) < 128" "unat (msg_insert us) + 1 < 2 ^ 64"
  shows "\<exists>skip us'. callback_insert S (Some m) (us, c) = Ok skip (us', c) \<and> user_inv us' \<and>
    pending_messages us' = pending_messages us @ [Some m] \<and> su_userdata us' = su_userdata us \<and> is_vchi us' = is_vchi us \<and>
    msg_remove us' = msg_remove us \<and> msg_insert us' = msg_insert us + 1 \<and>
    message_available_pos us' = message_available_pos us \<and>
    skip = (message_available_pos us \<ge> sint (completion_remove c) \<or> dequeue_pending us)"
proof -
  have ok: "ring_ok (msg_queue us) (msg_insert us) (msg_remove us)" using assms(1) by (simp add: user_inv_def)
  then have l: "unat (msg_insert us AND 127) < length (msg_queue us)" by (simp add: ring_ok_def unat_and_127)
  note p = mq.content_put [OF ok assms(2), of "Some m"] and i = mq.put_ins [of "Some m" us] mq.put_rem [of "Some m" us]
  have "msg_remove us \<le> msg_insert us + 1"
    using assms(1,3) by (simp add: user_inv_def word_le_nat_alt unat_add_small)
  then have "user_inv (put_message (Some m) us)" using p i assms(1) by (simp add: user_inv_def)
  moreover have "user_inv (u\<lparr>dequeue_pending := a, su_insert_event := e\<rparr>) = user_inv u"
      "user_inv (u\<lparr>su_insert_event := e\<rparr>) = user_inv u" for u :: "'a service_user" and a e
    by (simp_all add: user_inv_def)
  moreover have "su_userdata (put_message (Some m) us) = su_userdata us" "is_vchi (put_message (Some m) us) = is_vchi us"
      "message_available_pos (put_message (Some m) us) = message_available_pos us"
      "dequeue_pending (put_message (Some m) us) = dequeue_pending us"
    by (simp_all add: put_message_def)
  ultimately show ?thesis
    using l p i by (auto simp: callback_insert_def Let_def ring_masks)
qed

lemma queue_full_iff:
  "queue_full us \<longleftrightarrow> ring_len (msg_insert us) (msg_remove us) = 128"
proof -
  have "queue_full us \<longleftrightarrow> msg_insert us - msg_remove us = 128"
    by (auto simp: queue_full_def config_defs algebra_simps)
  also have "\<dots> \<longleftrightarrow> unat (msg_insert us - msg_remove us) = unat (128 :: usize)"
    by (simp only: word_unat_eq_iff)
  finally show ?thesis by (simp add: ring_len_def)
qed

lemma dequeue_take_head:
  assumes "user_inv us" "pending_messages us = Some m # ms" "conv m = Inr x"
  shows "\<exists>us'. dequeue_take S conv us = Ok x us' \<and> user_inv us' \<and> pending_messages us' = ms \<and>
    is_vchi us' = is_vchi us \<and> msg_remove us' = msg_remove us + 1 \<and> msg_insert us' = msg_insert us"
proof -
  have ok: "ring_ok (msg_queue us) (msg_insert us) (msg_remove us)" using assms(1) by (simp add: user_inv_def)
  have ne: "msg_insert us \<noteq> msg_remove us"
    using assms(2) by (auto simp: ring_content_def ring_len_def)
  note d = mq.content_drp [OF ok ne] and i = mq.drp_ins [of us] mq.drp_rem [of us]
  have h: "msg_queue us ! unat (msg_remove us AND 127) = Some m" "pending_messages (drop_message us) = ms"
    using d(1) assms(2) by simp_all
  have l: "unat (msg_remove us AND 127) < length (msg_queue us)" using ok by (simp add: ring_ok_def unat_and_127)
  have lt: "msg_remove us < msg_insert us" using assms(1) ne by (simp add: user_inv_def order_less_le)
  then have "msg_remove us + 1 \<le> msg_insert us" by (rule inc_le)
  then have inv: "user_inv (drop_message us)" using assms(1,2) d h i by (simp add: user_inv_def)
  have e: "user_inv (u\<lparr>su_remove_event := e\<rparr>) = user_inv u" for u :: "'a service_user" and e
    by (simp add: user_inv_def)
  have "is_vchi (drop_message us) = is_vchi us" by (simp add: drop_message_def)
  with inv e h l lt assms(3) i show ?thesis
    by (simp add: dequeue_take_def Let_def ring_masks)
qed

text \<open>Messages that arrive one after the other, and dequeueing a number of messages.\<close>

fun deliver_all ::
  "'sem sem_ops \<Rightarrow> slot_message list \<Rightarrow> 'sem service_user \<Rightarrow> 'sem completion
   \<Rightarrow> (unit, 'sem service_user \<times> 'sem completion) result" where
  "deliver_all S [] us c = Ok () (us, c)"
| "deliver_all S (m # ms) us c =
     seq_res (user_callback S MESSAGE_AVAILABLE (Some m) us c) (\<lambda>_ (us, c). deliver_all S ms us c)"

fun dequeue_all ::
  "'sem sem_ops \<Rightarrow> (slot_message \<Rightarrow> box_error + 'a) \<Rightarrow> nat \<Rightarrow> 'sem service_user \<Rightarrow> ('a list, 'sem service_user) result" where
  "dequeue_all S conv 0 us = Ok [] us"
| "dequeue_all S conv (Suc n) us =
     seq_res (dequeue_take S conv us) (\<lambda>x us. seq_res (dequeue_all S conv n us) (\<lambda>xs us. Ok (x # xs) us))"

text \<open>A delivery adds at most one completion.\<close>

lemma user_callback_room:
  assumes "is_vchi us" "user_inv us" "ring_len (msg_insert us) (msg_remove us) < 128" "unat (msg_insert us) + 1 < 2 ^ 64"
    and "completion_inv c" "ring_len (completion_insert c) (completion_remove c) < 128"
  shows "\<exists>us' c'. user_callback S MESSAGE_AVAILABLE (Some m) us c = Ok () (us', c') \<and> is_vchi us' \<and> user_inv us' \<and>
    pending_messages us' = pending_messages us @ [Some m] \<and> msg_insert us' = msg_insert us + 1 \<and>
    msg_remove us' = msg_remove us \<and> completion_inv c' \<and>
    ring_len (completion_insert c') (completion_remove c') \<le> Suc (ring_len (completion_insert c) (completion_remove c))"
proof -
  have nf: "\<not> queue_full us" using assms(3) by (simp add: queue_full_iff)
  obtain skip us' where i: "callback_insert S (Some m) (us, c) = Ok skip (us', c)" "user_inv us'"
      "pending_messages us' = pending_messages us @ [Some m]" "is_vchi us' = is_vchi us"
      "msg_remove us' = msg_remove us" "msg_insert us' = msg_insert us + 1"
    using callback_insert_room [OF assms(2-4), of S m c] by auto
  show ?thesis
  proof (cases skip)
    case True
    with i nf assms(1,5) show ?thesis by (simp add: user_callback_def callback_full_def)
  next
    case False
    obtain us'' c' where a: "add_completion S MESSAGE_AVAILABLE (Some m) us' c = Ok () (us'', c')" "completion_inv c'"
        "completion_remove c' = completion_remove c" "completion_insert c' = completion_insert c + 1"
        "us'' = us'\<lparr>message_available_pos := sint (completion_insert c)\<rparr>"
      using add_completion_room [OF assms(5,6), of S MESSAGE_AVAILABLE "Some m" us'] by auto
    have "ring_len (completion_insert c + 1) (completion_remove c) = Suc (ring_len (completion_insert c) (completion_remove c))"
      using assms(6) by (intro ring_len_insert) simp
    moreover have "user_inv us''" using i(2) by (simp add: a(5) user_inv_def)
    ultimately show ?thesis
      using False i nf a assms(1) by (simp add: user_callback_def callback_full_def)
  qed
qed

lemma deliver_all_pending:
  assumes "is_vchi us" "user_inv us" "ring_len (msg_insert us) (msg_remove us) + length ms \<le> 128"
    and "unat (msg_insert us) + length ms < 2 ^ 64"
    and "completion_inv c" "ring_len (completion_insert c) (completion_remove c) + length ms \<le> 128"
  shows "\<exists>us' c'. deliver_all S ms us c = Ok () (us', c') \<and> user_inv us' \<and> completion_inv c' \<and>
    pending_messages us' = pending_messages us @ map Some ms"
  using assms
proof (induction ms arbitrary: us c)
  case (Cons m ms)
  obtain us' c' where s: "user_callback S MESSAGE_AVAILABLE (Some m) us c = Ok () (us', c')" "is_vchi us'" "user_inv us'"
      "pending_messages us' = pending_messages us @ [Some m]" "msg_insert us' = msg_insert us + 1"
      "msg_remove us' = msg_remove us" "completion_inv c'"
      "ring_len (completion_insert c') (completion_remove c') \<le> Suc (ring_len (completion_insert c) (completion_remove c))"
    using user_callback_room [OF Cons.prems(1,2) _ _ Cons.prems(5), of S m] Cons.prems(3,4,6) by auto
  have "ring_len (msg_insert us') (msg_remove us') = Suc (ring_len (msg_insert us) (msg_remove us))"
    unfolding s(5,6) using Cons.prems(3) by (intro ring_len_insert) simp
  moreover have "unat (msg_insert us') = unat (msg_insert us) + 1"
    unfolding s(5) using Cons.prems(4) by (subst unat_add_small) simp_all
  ultimately have "\<exists>us'' c''. deliver_all S ms us' c' = Ok () (us'', c'') \<and> user_inv us'' \<and> completion_inv c'' \<and>
      pending_messages us'' = pending_messages us' @ map Some ms"
    using Cons.prems s by (intro Cons.IH) simp_all
  then show ?case using s(1,4) by auto
qed simp

lemma dequeue_all_pending:
  assumes "user_inv us" "pending_messages us = map Some ms @ ns" "\<And>m. m \<in> set ms \<Longrightarrow> conv m = Inr (f m)"
  shows "\<exists>us'. dequeue_all S conv (length ms) us = Ok (map f ms) us' \<and> user_inv us' \<and> pending_messages us' = ns"
  using assms
proof (induction ms arbitrary: us)
  case (Cons m ms)
  have p: "pending_messages us = Some m # (map Some ms @ ns)" and m: "conv m = Inr (f m)"
    using Cons.prems(2,3) by simp_all
  obtain us' where u: "dequeue_take S conv us = Ok (f m) us'" "user_inv us'" "pending_messages us' = map Some ms @ ns"
    using dequeue_take_head [of us m "map Some ms @ ns" conv "f m" S] Cons.prems(1) p m by auto
  have "\<exists>us''. dequeue_all S conv (length ms) us' = Ok (map f ms) us'' \<and> user_inv us'' \<and> pending_messages us'' = ns"
    using u Cons.prems(3) by (intro Cons.IH) simp_all
  then show ?case using u(1) by auto
qed simp

section \<open>Properties\<close>

text \<open>The user part of a service as \<^verbatim>\<open>create_service\<close> builds it.\<close>

definition service_user_new :: "'sem sem_ops \<Rightarrow> user_any option \<Rightarrow> bool \<Rightarrow> 'sem service_user" where
  "service_user_new S userdata vchi = \<lparr>su_userdata = userdata, is_vchi = vchi, dequeue_pending = False,
     close_pending = False, message_available_pos = -1, msg_insert = 0, msg_remove = 0,
     su_insert_event = sem_new S 0, su_remove_event = sem_new S 0, su_close_event = sem_new S 0,
     msg_queue = replicate (unat MSG_QUEUE_SIZE) None\<rparr>"

lemma service_user_new_inv: "user_inv (service_user_new S ud v)" "pending_messages (service_user_new S ud v) = []"
  by (simp_all add: user_inv_def service_user_new_def ring_ok_def ring_len_def ring_content_def config_defs)

text \<open>
  C7: Messages delivered to a service are dequeued in the order of their arrival and unchanged: after
  up to 128 deliveries to a service with an empty queue, dequeueing gives exactly these messages, and
  the queue is empty again.
\<close>

theorem messages_fifo:
  assumes "is_vchi us" "user_inv us" "pending_messages us = []" "completion_inv c" "pending_completions c = []"
    and "length ms \<le> 128" "unat (msg_insert us) + length ms < 2 ^ 64"
  shows "\<exists>us' c' us''. deliver_all S ms us c = Ok () (us', c') \<and> pending_messages us' = map Some ms \<and>
    dequeue_all S vec_u8_try_from (length ms) us' = Ok (map msg_data ms) us'' \<and> pending_messages us'' = []"
proof -
  have "ring_len (msg_insert us) (msg_remove us) = 0" "ring_len (completion_insert c) (completion_remove c) = 0"
    using assms(3,5) by (metis length_pending list.size(3))+
  then obtain us' c' where d: "deliver_all S ms us c = Ok () (us', c')" "user_inv us'"
      "pending_messages us' = map Some ms"
    using deliver_all_pending [OF assms(1,2) _ assms(7,4), of S] assms(3,6) by auto
  moreover have "\<exists>us''. dequeue_all S vec_u8_try_from (length ms) us' = Ok (map msg_data ms) us'' \<and> user_inv us'' \<and>
      pending_messages us'' = []"
    using d by (intro dequeue_all_pending) (simp_all add: vec_u8_try_from_def)
  ultimately show ?thesis by blast
qed

definition demo_message :: "u8 \<Rightarrow> slot_message" where
  "demo_message b = \<lparr>header = \<lparr>msgid = make_msg_id DATA 1 0, msg_size = 1\<rparr>, msg_data = [b]\<rparr>"

theorem messages_fifo_witness:
  "\<exists>us' c' us''. deliver_all counter_sem [demo_message 1, demo_message 2] (service_user_new counter_sem None True)
      (completion_default counter_sem) = Ok () (us', c') \<and>
    dequeue_all counter_sem vec_u8_try_from 2 us' = Ok [[1], [2]] us''"
proof -
  let ?us = "service_user_new counter_sem None True" and ?c = "completion_default counter_sem"
  let ?ms = "[demo_message 1, demo_message 2]"
  have u: "is_vchi ?us" "length ?ms \<le> 128" "unat (msg_insert ?us) + length ?ms < 2 ^ 64"
    by (simp_all add: service_user_new_def)
  obtain us' c' us'' where "deliver_all counter_sem ?ms ?us ?c = Ok () (us', c')"
      "dequeue_all counter_sem vec_u8_try_from (length ?ms) us' = Ok (map msg_data ?ms) us''"
    using messages_fifo [OF u(1) service_user_new_inv completion_default_inv u(2,3)] by blast
  moreover have "length ?ms = 2" "map msg_data ?ms = [[1], [2]]" by (simp_all add: demo_message_def)
  ultimately show ?thesis by metis
qed

text \<open>
  \<^verbatim>\<open>await_completion\<close> hands out the pending completions in order, as many as asked for, and keeps
  the rest; with the invariant of the queue it never panics.
\<close>

theorem completions_in_order:
  assumes "completion_inv c" "completion_insert c \<noteq> completion_remove c"
  shows "\<exists>c'. fst (await_poll S c) = Ready () \<and>
    collect_completions n (snd (await_poll S c)) = Ok (map the (take n (pending_completions c))) c' \<and>
    completion_inv c' \<and> pending_completions c' = drop n (pending_completions c)"
  using collect_completions_eq [OF assms(1)] assms(2) by (auto simp: await_poll_def)

definition one_completion :: "nat completion" where
  "one_completion = put_completion (Some \<lparr>sc_reason = SERVICE_OPENED, sc_msg = None, sc_userdata = None\<rparr>)
     (completion_default counter_sem)"

lemma one_completion_inv: "completion_inv one_completion"
    "pending_completions one_completion = [Some \<lparr>sc_reason = SERVICE_OPENED, sc_msg = None, sc_userdata = None\<rparr>]"
    "completion_insert one_completion \<noteq> completion_remove one_completion"
proof -
  have c: "ring_ok (completions (completion_default counter_sem)) (completion_insert (completion_default counter_sem))
      (completion_remove (completion_default counter_sem))"
    "ring_len (completion_insert (completion_default counter_sem)) (completion_remove (completion_default counter_sem)) < 128"
    using completion_default_inv(1) [of counter_sem] by (simp_all add: completion_inv_def completion_default_def ring_len_def)
  note p = cq.content_put [OF c, of "Some \<lparr>sc_reason = SERVICE_OPENED, sc_msg = None, sc_userdata = None\<rparr>"]
  show q: "pending_completions one_completion = [Some \<lparr>sc_reason = SERVICE_OPENED, sc_msg = None, sc_userdata = None\<rparr>]"
    using p(1) completion_default_inv(2) [of counter_sem] by (simp add: one_completion_def)
  then show "completion_inv one_completion" using p(2) by (simp add: completion_inv_def one_completion_def)
  show "completion_insert one_completion \<noteq> completion_remove one_completion"
    by (simp add: one_completion_def put_completion_def completion_default_def)
qed

theorem completions_in_order_witness:
  "\<exists>c'. fst (await_poll counter_sem one_completion) = Ready () \<and>
    collect_completions 5 (snd (await_poll counter_sem one_completion)) =
      Ok [\<lparr>sc_reason = SERVICE_OPENED, sc_msg = None, sc_userdata = None\<rparr>] c' \<and> pending_completions c' = []"
  using completions_in_order [OF one_completion_inv(1,3), of counter_sem 5] by (auto simp: one_completion_inv(2))

text \<open>A completion does not touch the message queue, whether there is room for it or not.\<close>

definition same_queue :: "'sem service_user \<Rightarrow> 'sem service_user \<Rightarrow> bool" where
  "same_queue us us' \<longleftrightarrow> msg_queue us' = msg_queue us \<and> msg_insert us' = msg_insert us \<and> msg_remove us' = msg_remove us"

lemma add_completion_same_queue:
  assumes "length (completions c) = 128"
  shows "\<exists>us' c'. add_completion S reason message us c = Ok () (us', c') \<and> same_queue us us' \<and> length (completions c') = 128"
proof -
  have "unat (completion_insert c AND (MAX_COMPLETIONS - 1)) < 128" by (simp add: ring_masks unat_and_127)
  then show ?thesis using assms by (simp add: add_completion_def Let_def put_completion_def same_queue_def)
qed

lemma callback_full_same_queue:
  assumes "length (completions c) = 128"
  shows "\<exists>us' c'. callback_full S reason us c = Ok () (us', c') \<and> same_queue us us' \<and> length (completions c') = 128"
  using assms add_completion_same_queue [OF assms, of S reason None us]
  by (auto simp: callback_full_def same_queue_def)

lemma callback_insert_put:
  assumes "length (msg_queue us) = 128"
  shows "\<exists>skip us'. callback_insert S message (us, c) = Ok skip (us', c) \<and> same_queue (put_message message us) us'"
proof -
  have "unat (msg_insert us AND (MSG_QUEUE_SIZE - 1)) < 128" by (simp add: ring_masks unat_and_127)
  then show ?thesis using assms by (simp add: callback_insert_def Let_def same_queue_def)
qed

lemma user_callback_put:
  assumes "is_vchi us" "length (msg_queue us) = 128" "length (completions c) = 128"
  shows "\<exists>us' c'. user_callback S reason message us c = Ok () (us', c') \<and> same_queue (put_message message us) us'"
proof -
  obtain us1 c1 where 1: "callback_full S reason us c = Ok () (us1, c1)" "same_queue us us1" "length (completions c1) = 128"
    using callback_full_same_queue [OF assms(3)] by blast
  then obtain skip us2 where 2: "callback_insert S message (us1, c1) = Ok skip (us2, c1)" "same_queue (put_message message us1) us2"
    using callback_insert_put [of us1 S message c1] assms(2) by (auto simp: same_queue_def)
  obtain us3 c3 where 3: "add_completion S reason message us2 c1 = Ok () (us3, c3)" "same_queue us2 us3"
    using add_completion_same_queue [OF 1(3)] by blast
  show ?thesis
    using assms(1) 1(1,2) 2 3 by (cases skip) (auto simp: user_callback_def same_queue_def put_message_def)
qed

text \<open>
  C36: A full message queue is not waited for: whether or not a completion announces the waiting messages already, the next
  message takes the place of the oldest one in the queue, and it is this newest message that the next \<^verbatim>\<open>dequeue_message\<close> returns.
\<close>

theorem full_queue_loses_oldest:
  assumes "is_vchi us" "user_inv us" "ring_len (msg_insert us) (msg_remove us) = 128"
    and "unat (msg_insert us) + 1 < 2 ^ 64" "completion_inv c"
  shows "\<exists>us' c' us''. user_callback S MESSAGE_AVAILABLE (Some m) us c = Ok () (us', c') \<and>
    msg_remove us' = msg_remove us \<and> msg_queue us' = (msg_queue us)[ring_slot (msg_remove us) 0 := Some m] \<and>
    dequeue_take S vec_u8_try_from us' = Ok (msg_data m) us''"
proof -
  have ok: "ring_ok (msg_queue us) (msg_insert us) (msg_remove us)" using assms(2) by (simp add: user_inv_def)
  have l: "length (msg_queue us) = 128" "length (completions c) = 128"
    using ok assms(5) by (simp_all add: ring_ok_def completion_inv_def)
  obtain us' c' where u: "user_callback S MESSAGE_AVAILABLE (Some m) us c = Ok () (us', c')" "same_queue (put_message (Some m) us) us'"
    using user_callback_put [OF assms(1) l] by blast
  have q: "msg_queue us' = (msg_queue us)[ring_slot (msg_remove us) 0 := Some m]" "msg_remove us' = msg_remove us"
      "msg_insert us' = msg_insert us + 1"
    using u(2) mq.put_full(1) [OF ok assms(3), of "Some m"] mq.put_rem [of "Some m" us] mq.put_ins [of "Some m" us]
    by (simp_all add: same_queue_def)
  have "\<not> msg_remove us > msg_insert us + 1"
    using assms(2,4) by (simp add: user_inv_def not_less word_le_nat_alt unat_add_small)
  then have "\<exists>us''. dequeue_take S vec_u8_try_from us' = Ok (msg_data m) us''"
    using q l(1) ring_slot_less [of "msg_remove us" 0] 
    by (simp add: dequeue_take_def Let_def ring_masks vec_u8_try_from_def ring_slot_0)
  with u(1) q(1,2) show ?thesis by blast
qed
definition full_user :: "nat service_user" where
  "full_user = (service_user_new counter_sem None True)\<lparr>msg_queue := replicate 128 (Some (demo_message 0)),
     msg_insert := 128, message_available_pos := -1\<rparr>"

theorem full_queue_loses_oldest_witness:
  "\<exists>us' c' us''. user_callback counter_sem MESSAGE_AVAILABLE (Some (demo_message 9)) full_user
      (completion_default counter_sem) = Ok () (us', c') \<and>
    dequeue_take counter_sem vec_u8_try_from us' = Ok [9] us''"
proof -
  have "ring_content (replicate 128 (Some (demo_message 0))) 128 0 = replicate 128 (Some (demo_message 0))"
    by (rule nth_equalityI) (simp_all add: ring_content_def ring_len_def ring_slot_less)
  then have i: "user_inv full_user"
    by (simp add: user_inv_def full_user_def service_user_new_def ring_ok_def ring_len_def)
  have f: "is_vchi full_user" "ring_len (msg_insert full_user) (msg_remove full_user) = 128"
      "unat (msg_insert full_user) + 1 < 2 ^ 64"
    by (simp_all add: full_user_def service_user_new_def ring_len_def)
  show ?thesis
    using full_queue_loses_oldest [OF f(1) i f(2,3) completion_default_inv(1) [of counter_sem], of counter_sem "demo_message 9"]
    by (auto simp: demo_message_def)
qed

text \<open>
  C28: A client that waits in \<^verbatim>\<open>dequeue_message\<close> is not left waiting: the wait is pending only while the
  queue is empty, it leaves a mark that makes the next delivery go to the client alone, without a
  completion, and after that delivery the wait is over.
\<close>

theorem dequeue_wait_ends:
  assumes "is_vchi us" "user_inv us" "unat (msg_insert us) + 1 < 2 ^ 64" "dequeue_poll S us = (Pending, us1)"
  shows "pending_messages us = [] \<and>
    (\<exists>us2. user_callback S MESSAGE_AVAILABLE (Some m) us1 c = Ok () (us2, c) \<and> dequeue_poll S us2 = (Ready (), us2) \<and>
       (\<exists>us3. dequeue_take S vec_u8_try_from us2 = Ok (msg_data m) us3))"
proof -
  have e: "msg_remove us = msg_insert us" and u1: "dequeue_pending us1" "msg_queue us1 = msg_queue us"
      "msg_insert us1 = msg_insert us" "msg_remove us1 = msg_remove us" "is_vchi us1 = is_vchi us"
    using assms(4) by (auto simp: dequeue_poll_def Let_def split: if_splits option.splits)
  have p: "pending_messages us = []" using e by (simp add: ring_content_def ring_len_def)
  have i1: "user_inv us1" using assms(2) u1 by (simp add: user_inv_def)
  have len: "ring_len (msg_insert us1) (msg_remove us1) = 0" using e u1 by (simp add: ring_len_def)
  have "unat (msg_insert us1) + 1 < 2 ^ 64" using assms(3) u1 by simp
  from callback_insert_room [OF i1 _ this, of S m c] len
  obtain us2 where c: "callback_insert S (Some m) (us1, c) = Ok True (us2, c)" "user_inv us2"
      "pending_messages us2 = [Some m]"
    using u1 p by auto
  have nf: "\<not> queue_full us1" using len by (simp add: queue_full_iff)
  have "user_callback S MESSAGE_AVAILABLE (Some m) us1 c = Ok () (us2, c)"
    using c(1) nf assms(1) u1(5) by (simp add: user_callback_def callback_full_def)
  moreover have "msg_remove us2 \<noteq> msg_insert us2"
    using c(3) by (auto simp: ring_content_def ring_len_def)
  then have "dequeue_poll S us2 = (Ready (), us2)" by (simp add: dequeue_poll_def)
  moreover have "\<exists>us3. dequeue_take S vec_u8_try_from us2 = Ok (msg_data m) us3"
    using dequeue_take_head [OF c(2,3), of vec_u8_try_from "msg_data m" S] by (auto simp: vec_u8_try_from_def)
  ultimately show ?thesis using p by blast
qed

theorem dequeue_wait_ends_witness:
  "\<exists>us2. user_callback counter_sem MESSAGE_AVAILABLE (Some (demo_message 4))
       ((service_user_new counter_sem None True)\<lparr>dequeue_pending := True\<rparr>) (completion_default counter_sem) =
       Ok () (us2, completion_default counter_sem) \<and> dequeue_poll counter_sem us2 = (Ready (), us2)"
proof -
  let ?us = "service_user_new counter_sem None True"
  have u: "is_vchi ?us" "unat (msg_insert ?us) + 1 < 2 ^ 64" by (simp_all add: service_user_new_def)
  have p: "dequeue_poll counter_sem ?us = (Pending, ?us\<lparr>dequeue_pending := True\<rparr>)"
    by (simp add: dequeue_poll_def service_user_new_def counter_sem_def counter_down_def)
  from dequeue_wait_ends [OF u(1) service_user_new_inv(1) u(2) p, of "demo_message 4" "completion_default counter_sem"]
  show ?thesis by blast
qed

end
