(* ===== verification/Slot_Handler.thy ===== *)
theory Slot_Handler
  imports Service_Ops Completion
begin

text \<open>
  Receiving: \<^verbatim>\<open>src/vchiq/slothandler.rs\<close>.  The handler works on the state and, through the callback of a
  service, on the completion queue of the instance, so its state is the \<^verbatim>\<open>Instance\<close> of
  \<^verbatim>\<open>src/vchiq/instance/mod.rs\<close>.  One call of the handler processes the messages up to the transmit
  position that the VideoCore has published when the call starts.
\<close>

section \<open>The instance\<close>

record 'sem vchiq_instance =
  inst_state :: "'sem state"
  connected :: bool
  inst_completion :: "'sem completion"

definition on_state :: "('sem state \<Rightarrow> 'sem state) \<Rightarrow> 'sem vchiq_instance \<Rightarrow> 'sem vchiq_instance" where
  "on_state f x = x\<lparr>inst_state := f (inst_state x)\<rparr>"

section \<open>Handling one message\<close>

text \<open>The service that the message is for; messages for unknown services are not supported.\<close>

definition handler_service :: "message_type \<Rightarrow> u32 \<Rightarrow> u32 \<Rightarrow> 'sem state \<Rightarrow> (nat option, unit) result" where
  "handler_service msg_type local_port remote_port st =
     (if msg_type = CLOSE then
        seq_res (service_by_port st local_port)
          (\<lambda>service _. case service of
              None \<Rightarrow> Panic ''not yet implemented''
            | Some i \<Rightarrow>
               (case get_service st i of
                  None \<Rightarrow> Panic ''dangling service reference''
                | Some srv \<Rightarrow>
                    if remoteport srv \<noteq> remote_port \<and> remoteport srv \<noteq> VCHIQ_PORT_FREE \<and> local_port = 0
                    then Panic ''not yet implemented'' else Ok (Some i) ()))
      else if msg_type \<in> {OPENACK, DATA, BULK_RX, BULK_TX, BULK_RX_DONE, BULK_TX_DONE} then
        seq_res (service_by_port st local_port)
          (\<lambda>service _. case service of
              None \<Rightarrow> Panic ''not yet implemented''
            | Some i \<Rightarrow> Ok (Some i) ())
      else Ok None ())"

definition handle_openack :: "'sem sem_ops \<Rightarrow> nat \<Rightarrow> u32 \<Rightarrow> slot_message \<Rightarrow> 'sem state \<Rightarrow> 'sem state" where
  "handle_openack S i remote_port m st =
     (let st = (case open_ack_try_from m of
                  Inr v \<Rightarrow> update_service i (\<lambda>s. s\<lparr>peer_version := v\<rparr>) st
                | Inl _ \<Rightarrow> st)
      in case get_service st i of
           None \<Rightarrow> st
         | Some srv \<Rightarrow>
             if srvstate srv = OPENING
             then update_service i (\<lambda>s. (set_state OPEN (s\<lparr>remoteport := remote_port\<rparr>))
                    \<lparr>remove_event := sem_up S (remove_event s)\<rparr>) st
             else st)"

definition handle_close :: "'sem sem_ops \<Rightarrow> nat \<Rightarrow> 'sem state \<Rightarrow> (unit, 'sem state) result" where
  "handle_close S i st =
     (case get_service st i of
        None \<Rightarrow> Panic ''dangling service reference''
      | Some srv \<Rightarrow>
         (let st = update_service i (\<lambda>s. s\<lparr>closing := True\<rparr>) st;
              port = unat (localport srv)
          in if \<not> port < length (quotas_of st) then Panic ''index out of bounds''
             else (let st = update_quota port (\<lambda>q. q\<lparr>quota_event := sem_up S (quota_event q)\<rparr>) st
                   in case srvstate srv of
                        OPENING \<Rightarrow>
                          Ok () (update_service i
                            (\<lambda>s. (set_state CLOSEWAIT s)\<lparr>remove_event := sem_up S (remove_event s)\<rparr>) st)
                      | CLOSESENT \<Rightarrow>
                          (case close_service_complete S i CLOSERECVD st of
                             Ok _ st \<Rightarrow> Ok () st
                           | Err _ st \<Rightarrow> Ok () st
                           | r \<Rightarrow> r)
                      | _ \<Rightarrow> Ok () st)))"

text \<open>The callback is taken out of the service while it runs.\<close>

definition run_callback ::
  "'sem sem_ops \<Rightarrow> vchiq_callback \<Rightarrow> slot_message \<Rightarrow> service_handle \<Rightarrow> 'sem vchiq_instance
   \<Rightarrow> (unit, 'sem vchiq_instance) result" where
  "run_callback S cb m h x =
     (case cb of
        ClientCallback _ \<Rightarrow> Ok () x
      | InternalCallback \<Rightarrow>
         (case service_from_handle (inst_state x) h of
            Inl _ \<Rightarrow> Panic ''called Result::unwrap() on an Err value''
          | Inr j \<Rightarrow>
             (case get_service (inst_state x) j of
                None \<Rightarrow> Panic ''dangling service reference''
              | Some srv \<Rightarrow>
                 (case service_callback S MESSAGE_AVAILABLE (Some m) srv (inst_completion x) of
                    Ok _ (srv', c) \<Rightarrow>
                      Ok () (x\<lparr>inst_state := update_service j (\<lambda>_. srv') (inst_state x), inst_completion := c\<rparr>)
                  | Err _ (srv', c) \<Rightarrow>
                      Ok () (x\<lparr>inst_state := update_service j (\<lambda>_. srv') (inst_state x), inst_completion := c\<rparr>)
                  | Panic e \<Rightarrow> Panic e
                  | Blocked \<Rightarrow> Blocked
                  | Undef \<Rightarrow> Undef))))"

definition handle_data ::
  "'sem sem_ops \<Rightarrow> nat \<Rightarrow> u32 \<Rightarrow> slot_message \<Rightarrow> 'sem vchiq_instance \<Rightarrow> (unit, 'sem vchiq_instance) result" where
  "handle_data S i remote_port m x =
     (case get_service (inst_state x) i of
        None \<Rightarrow> Panic ''dangling service reference''
      | Some srv \<Rightarrow>
          if remoteport srv = remote_port \<and> srvstate srv = OPEN then
            (case base_callback srv of
               None \<Rightarrow> Ok () x
             | Some cb \<Rightarrow>
                 seq_res (run_callback S cb m (srv_handle srv)
                            (on_state (update_service i (\<lambda>s. s\<lparr>base_callback := None\<rparr>)) x))
                   (\<lambda>_ x. Ok () (on_state (update_service i (\<lambda>s. s\<lparr>base_callback := Some cb\<rparr>)) x)))
          else Ok () x)"

definition handle_message ::
  "'sem sem_ops \<Rightarrow> slot_message \<Rightarrow> 'sem vchiq_instance \<Rightarrow> (unit, 'sem vchiq_instance) result" where
  "handle_message S m x =
     (case msg_type_from_id (msgid (header m)) of
        None \<Rightarrow> Panic ''internal error: entered unreachable code''
      | Some msg_type \<Rightarrow>
         (let local_port = dst_port_from_id (msgid (header m));
              remote_port = src_port_from_id (msgid (header m))
          in case handler_service msg_type local_port remote_port (inst_state x) of
               Ok service _ \<Rightarrow>
                 (case (msg_type, service) of
                    (OPENACK, Some i) \<Rightarrow> Ok () (on_state (handle_openack S i remote_port m) x)
                  | (CLOSE, Some i) \<Rightarrow>
                      bind_res (handle_close S i (inst_state x)) (\<lambda>_ st. Ok () (x\<lparr>inst_state := st\<rparr>))
                        (\<lambda>_ st. x\<lparr>inst_state := st\<rparr>)
                  | (DATA, Some i) \<Rightarrow> handle_data S i remote_port m x
                  | (CONNECT, _) \<Rightarrow> Ok () (on_state (\<lambda>st. st\<lparr>connect_sem := asem_up S (connect_sem st)\<rparr>) x)
                  | (BULK_RX_DONE, _) \<Rightarrow> Ok () x
                  | (BULK_TX_DONE, _) \<Rightarrow> Ok () x
                  | (PADDING, _) \<Rightarrow> Ok () x
                  | _ \<Rightarrow> Panic ''not implemented'')
             | Err e _ \<Rightarrow> Err e x
             | Panic e \<Rightarrow> Panic e
             | Blocked \<Rightarrow> Blocked
             | Undef \<Rightarrow> Undef))"

section \<open>The loop over the received messages\<close>

text \<open>The slot to read from when a new slot starts: its index is computed from the transmit position.\<close>

definition fetch_slot :: "usize \<Rightarrow> 'sem state \<Rightarrow> (slot_position, 'sem state) result" where
  "fetch_slot tx st =
     (let ss = slot_state st
      in case rx_data ss of
           Some p \<Rightarrow> Ok p st
         | None \<Rightarrow>
            (let slot_queue_index = unat (slot_queue_index_from_pos tx AND VCHIQ_SLOT_QUEUE_MASK);
                 queue = slot_queue (sz_remote (slot_zero ss))
             in if slot_queue_index < length queue
                then (let p = SlotPosition (ucast (queue ! slot_queue_index)) 0
                      in Ok p (st\<lparr>slot_state := ss\<lparr>rx_data := Some p\<rparr>\<rparr>))
                else Panic ''index out of bounds''))"

definition advance_rx :: "slot_position \<Rightarrow> slot_message \<Rightarrow> 'sem state \<Rightarrow> 'sem state" where
  "advance_rx p m st =
     (let msg_stride = calc_msg_stride (ucast (msg_size (header m)));
          ss = slot_state st;
          rx = rx_pos ss + msg_stride
      in st\<lparr>slot_state := ss\<lparr>rx_pos := rx,
           rx_data := (if rx AND VCHIQ_SLOT_MASK = 0 then None
                       else Some (SlotPosition (pos_index p) (pos_offset p + msg_stride)))\<rparr>\<rparr>)"

definition handler_step :: "'sem sem_ops \<Rightarrow> usize \<Rightarrow> 'sem vchiq_instance \<Rightarrow> (unit, 'sem vchiq_instance) result" where
  "handler_step S tx x =
     (case fetch_slot tx (inst_state x) of
        Ok p st \<Rightarrow>
          (case read_message (slot_data (slot_state st)) p of
             Ok m _ \<Rightarrow>
               seq_res (handle_message S m (x\<lparr>inst_state := st\<rparr>))
                 (\<lambda>_ x. Ok () (on_state (advance_rx p m) x))
           | Err e _ \<Rightarrow> Err e x
           | Panic e \<Rightarrow> Panic e
           | Blocked \<Rightarrow> Blocked
           | Undef \<Rightarrow> Undef)
      | Err e _ \<Rightarrow> Err e x
      | Panic e \<Rightarrow> Panic e
      | Blocked \<Rightarrow> Blocked
      | Undef \<Rightarrow> Undef)"

text \<open>The \<^verbatim>\<open>while\<close> loop; \<open>None\<close> is a loop that does not end.\<close>

partial_function (option) handler_loop ::
  "'sem sem_ops \<Rightarrow> usize \<Rightarrow> 'sem vchiq_instance \<Rightarrow> (unit, 'sem vchiq_instance) result option" where
  "handler_loop S tx x =
     (if rx_pos (slot_state (inst_state x)) = tx then Some (Ok () x)
      else case handler_step S tx x of
          Ok _ x \<Rightarrow> handler_loop S tx x
        | r \<Rightarrow> Some r)"

text \<open>
  One poll of the thought.  When the slot state is locked at that moment, the code handles nothing; such a poll changes nothing
  and is left out.
\<close>

definition slot_handler :: "'sem sem_ops \<Rightarrow> 'sem vchiq_instance \<Rightarrow> (unit, 'sem vchiq_instance) result option" where
  "slot_handler S x =
     handler_loop S (ucast (tx_pos (sz_remote (slot_zero (slot_state (inst_state x)))))) x"

section \<open>Messages and slots do not interfere\<close>

text \<open>Handling a message neither reads nor changes the slots and positions.\<close>

definition with_slots :: "'sem slot_state \<Rightarrow> 'sem vchiq_instance \<Rightarrow> 'sem vchiq_instance" where
  "with_slots ss = on_state (\<lambda>st. st\<lparr>slot_state := ss\<rparr>)"

fun map_res_state :: "('s \<Rightarrow> 't) \<Rightarrow> ('e, 'a, 's) res \<Rightarrow> ('e, 'a, 't) res" where
  "map_res_state f (Ok a s) = Ok a (f s)"
| "map_res_state f (Err e s) = Err e (f s)"
| "map_res_state f (Panic m) = Panic m"
| "map_res_state f Blocked = Blocked"
| "map_res_state f Undef = Undef"

lemma slots_commute [frame]:
  "get_service (st\<lparr>slot_state := ss\<rparr>) i = get_service st i"
  "update_service i f (st\<lparr>slot_state := ss\<rparr>) = (update_service i f st)\<lparr>slot_state := ss\<rparr>"
  "update_quota i g (st\<lparr>slot_state := ss\<rparr>) = (update_quota i g st)\<lparr>slot_state := ss\<rparr>"
  "service_by_port (st\<lparr>slot_state := ss\<rparr>) port = service_by_port st port"
  "service_from_handle (st\<lparr>slot_state := ss\<rparr>) h = service_from_handle st h"
  by (simp_all add: get_service_def update_service_def update_quota_def service_by_port_def service_from_handle_def)

lemma free_service_slots [frame]: "free_service S i (st\<lparr>slot_state := ss\<rparr>) = (free_service S i st)\<lparr>slot_state := ss\<rparr>"
  by (simp add: free_service_def frame split: option.splits)

lemma close_complete_slots [frame]:
  "close_service_complete S i f (st\<lparr>slot_state := ss\<rparr>) =
     map_res_state (\<lambda>st. st\<lparr>slot_state := ss\<rparr>) (close_service_complete S i f st)"
  by (simp add: close_service_complete_def Let_def frame split: option.splits)

lemma handler_service_slots [frame]: "handler_service ty l r (st\<lparr>slot_state := ss\<rparr>) = handler_service ty l r st"
  unfolding handler_service_def slots_commute by (rule refl)

lemma handle_openack_slots [frame]:
  "handle_openack S i r m (st\<lparr>slot_state := ss\<rparr>) = (handle_openack S i r m st)\<lparr>slot_state := ss\<rparr>"
  by (simp add: handle_openack_def Let_def frame split: sum.splits option.splits)

lemma handle_close_slots [frame]:
  "handle_close S i (st\<lparr>slot_state := ss\<rparr>) = map_res_state (\<lambda>st. st\<lparr>slot_state := ss\<rparr>) (handle_close S i st)"
  by (auto simp: handle_close_def Let_def frame split: option.splits service_state.splits res.splits)

lemma run_callback_slots:
  "run_callback S cb m h (with_slots ss x) = map_res_state (with_slots ss) (run_callback S cb m h x)"
  by (auto simp: run_callback_def with_slots_def on_state_def frame
      split: vchiq_callback.splits sum.splits option.splits res.splits)

lemma on_state_update_slots:
  "on_state (update_service i f) (with_slots ss x) = with_slots ss (on_state (update_service i f) x)"
  by (simp add: on_state_def with_slots_def frame)

lemma handle_data_slots:
  "handle_data S i r m (with_slots ss x) = map_res_state (with_slots ss) (handle_data S i r m x)"
proof -
  have g: "get_service (inst_state (with_slots ss x)) i = get_service (inst_state x) i"
    by (simp add: with_slots_def on_state_def frame)
  have s: "seq_res (map_res_state (with_slots ss) r) (\<lambda>_ y. Ok () (on_state (update_service i f) y)) =
      map_res_state (with_slots ss) (seq_res r (\<lambda>_ y. Ok () (on_state (update_service i f) y)))"
    for r :: "(unit, 'a vchiq_instance) result" and f
    by (cases r) (simp_all add: on_state_update_slots)
  show ?thesis
    by (simp add: handle_data_def g on_state_update_slots run_callback_slots s split: option.splits)
qed

lemma handle_message_slots:
  "handle_message S m (with_slots ss x) = map_res_state (with_slots ss) (handle_message S m x)"
proof -
  have h: "handler_service ty l r (inst_state (with_slots ss x)) = handler_service ty l r (inst_state x)" for ty l r
    by (simp add: with_slots_def on_state_def frame)
  have b: "bind_res (map_res_state (\<lambda>st. st\<lparr>slot_state := ss\<rparr>) r) (\<lambda>_ st. Ok () (with_slots ss x\<lparr>inst_state := st\<rparr>))
      (\<lambda>_ st. with_slots ss x\<lparr>inst_state := st\<rparr>) =
      map_res_state (with_slots ss) (bind_res r (\<lambda>_ st. Ok () (x\<lparr>inst_state := st\<rparr>)) (\<lambda>_ st. x\<lparr>inst_state := st\<rparr>))"
    for r :: "(unit, 'a state) result"
    by (cases r) (simp_all add: with_slots_def on_state_def)
  have c: "handle_close S i (inst_state (with_slots ss x)) =
      map_res_state (\<lambda>st. st\<lparr>slot_state := ss\<rparr>) (handle_close S i (inst_state x))" for i
    by (simp add: with_slots_def on_state_def frame)
  have o: "on_state (handle_openack S i r m) (with_slots ss x) = with_slots ss (on_state (handle_openack S i r m) x)"
      "on_state (\<lambda>st. st\<lparr>connect_sem := asem_up S (connect_sem st)\<rparr>) (with_slots ss x) =
       with_slots ss (on_state (\<lambda>st. st\<lparr>connect_sem := asem_up S (connect_sem st)\<rparr>) x)" for i r
    by (simp_all add: with_slots_def on_state_def frame)
  show ?thesis
    unfolding handle_message_def Let_def h
    by (simp add: c b o handle_data_slots split: option.splits res.splits message_type.splits)
qed

text \<open>The messages of a stream, handled in order.\<close>

fun handle_all :: "'sem sem_ops \<Rightarrow> slot_message list \<Rightarrow> 'sem vchiq_instance \<Rightarrow> (unit, 'sem vchiq_instance) result" where
  "handle_all S [] x = Ok () x"
| "handle_all S (m # ms) x = seq_res (handle_message S m x) (\<lambda>_ x. handle_all S ms x)"

lemma handle_all_slots:
  "handle_all S ms (with_slots ss x) = map_res_state (with_slots ss) (handle_all S ms x)"
proof (induction ms arbitrary: x)
  case (Cons m ms)
  then show ?case by (cases "handle_message S m x") (simp_all add: handle_message_slots)
qed simp

abbreviation slots_of :: "'sem vchiq_instance \<Rightarrow> 'sem slot_state" where
  "slots_of x \<equiv> slot_state (inst_state x)"

lemma with_slots_simps [simp]:
  "slots_of (with_slots ss x) = ss"
  "with_slots ss (with_slots ss' x) = with_slots ss x"
  "with_slots (slots_of x) x = x"
  by (simp_all add: with_slots_def on_state_def)

lemma handle_message_slots_of:
  assumes "handle_message S m x = Ok a y"
  shows "slots_of y = slots_of x"
proof -
  have "handle_message S m (with_slots (slots_of x) x) = map_res_state (with_slots (slots_of x)) (handle_message S m x)"
    by (rule handle_message_slots)
  with assms have "y = with_slots (slots_of x) y" by simp
  then show ?thesis by (metis with_slots_simps(1))
qed

section \<open>Handling never waits\<close>

definition definite :: "('e, 'a, 's) res \<Rightarrow> bool" where
  "definite r \<longleftrightarrow> (case r of Ok _ _ \<Rightarrow> True | Panic _ \<Rightarrow> True | _ \<Rightarrow> False)"

lemma definite_simps [simp]:
  "definite (Ok a s)" "definite (Panic e)" "\<not> definite (Err e' s)" "\<not> definite Blocked" "\<not> definite Undef"
  by (simp_all add: definite_def)

lemma definite_seq: "definite r \<Longrightarrow> (\<And>a s. r = Ok a s \<Longrightarrow> definite (f a s)) \<Longrightarrow> definite (seq_res r f)"
  by (cases r) simp_all

lemma add_completion_definite: "definite (add_completion S r m us c)"
  by (simp add: add_completion_def Let_def)

lemma user_callback_definite: "definite (user_callback S r m us c)"
  unfolding user_callback_def
  by (rule definite_seq)
    (auto simp: callback_full_def callback_insert_def Let_def add_completion_definite intro!: definite_seq split: prod.splits)

lemma service_callback_definite: "definite (service_callback S r m srv c)"
proof (cases "\<exists>us. base_userdata srv = Some (UD_ServiceUser us)")
  case True
  then obtain us where us: "base_userdata srv = Some (UD_ServiceUser us)" by blast
  show ?thesis
    using user_callback_definite [of S r m us c]
    by (cases "user_callback S r m us c") (auto simp: service_callback_def us split: prod.splits)
next
  case False
  then show ?thesis by (auto simp: service_callback_def split: option.splits vchiq_user_data.splits)
qed

lemma run_callback_definite: "definite (run_callback S cb m h x)"
proof -
  have *: "definite (service_callback S MESSAGE_AVAILABLE (Some m) srv (inst_completion x))" for srv
    by (rule service_callback_definite)
  show ?thesis
    by (auto simp: run_callback_def definite_def split: vchiq_callback.splits sum.splits option.splits res.splits prod.splits)
      (metis * definite_simps(4), metis * definite_simps(5))
qed

lemma handle_data_definite: "definite (handle_data S i r m x)"
  by (auto simp: handle_data_def run_callback_definite intro!: definite_seq split: option.splits)

lemma handle_close_definite: "definite (handle_close S i st)"
  by (auto simp: handle_close_def Let_def close_service_complete_def split: option.splits service_state.splits)

lemma handler_service_definite: "definite (handler_service ty l r st)"
  by (auto simp: handler_service_def service_by_port_def intro!: definite_seq split: option.splits)

lemma handle_message_definite: "definite (handle_message S m x)"
proof (cases "msg_type_from_id (msgid (header m))")
  case (Some ty)
  let ?l = "dst_port_from_id (msgid (header m))" and ?r = "src_port_from_id (msgid (header m))"
  have c: "definite (bind_res (handle_close S i (inst_state x)) (\<lambda>_ st. Ok () (x\<lparr>inst_state := st\<rparr>)) (\<lambda>_ st. x\<lparr>inst_state := st\<rparr>))" for i
    using handle_close_definite [of S i "inst_state x"] by (cases "handle_close S i (inst_state x)") simp_all
  show ?thesis
  proof (cases "handler_service ty ?l ?r (inst_state x)")
    case (Ok service u)
    note hm = handle_message_def [of S m x, unfolded Some option.case Let_def Ok res.case]
    show ?thesis unfolding hm using c handle_data_definite by (cases ty; cases service) simp_all
  qed (use handler_service_definite [of ty ?l ?r "inst_state x"] in \<open>simp_all add: handle_message_def Some\<close>)
qed (simp add: handle_message_def)

lemma handle_all_definite: "definite (handle_all S ms x)"
  by (induction ms arbitrary: x) (auto intro!: definite_seq handle_message_definite)

section \<open>Receiving a stream of messages\<close>

text \<open>
  The receive side is ready to read at position \<open>p\<close>: the position agrees with the receive counter, and
  at the start of a slot the slot that will be fetched is the one of \<open>p\<close>.
\<close>

definition rx_ready :: "usize \<Rightarrow> slot_position \<Rightarrow> 'sem slot_state \<Rightarrow> bool" where
  "rx_ready tx p ss \<longleftrightarrow>
     unat (pos_offset p) = unat (rx_pos ss) mod 4096 \<and> 0 < pos_index p \<and> pos_index p < slot_len (slot_data ss) \<and>
     length (slot_queue (sz_remote (slot_zero ss))) = 64 \<and>
     rx_data ss = (if unat (rx_pos ss) mod 4096 = 0 then None else Some p) \<and>
     (unat (rx_pos ss) mod 4096 = 0 \<longrightarrow>
        pos_index p = ucast (slot_queue (sz_remote (slot_zero ss)) ! (unat tx div 4096 mod 64)))"

definition advanced :: "slot_position \<Rightarrow> nat \<Rightarrow> 'sem slot_state \<Rightarrow> 'sem slot_state" where
  "advanced p n ss = ss\<lparr>rx_pos := rx_pos ss + of_nat n,
     rx_data := (if (unat (rx_pos ss) + n) mod 4096 = 0 then None
                 else Some (SlotPosition (pos_index p) (pos_offset p + of_nat n)))\<rparr>"

lemma fetch_slot_ready:
  assumes "rx_ready tx p (slot_state st)"
  shows "fetch_slot tx st = Ok p (st\<lparr>slot_state := (slot_state st)\<lparr>rx_data := Some p\<rparr>\<rparr>)"
proof (cases "unat (rx_pos (slot_state st)) mod 4096 = 0")
  case True
  have i: "unat (slot_queue_index_from_pos tx AND VCHIQ_SLOT_QUEUE_MASK) = unat tx div 4096 mod 64"
    by (simp add: slot_queue_index_from_pos_def slot_consts unat_and_63 unat_div)
  have "unat (pos_offset p) = 0" using assms True by (simp add: rx_ready_def)
  then have "p = SlotPosition (pos_index p) 0" by (cases p) (simp add: unat_eq_0)
  with True assms i show ?thesis
    by (simp add: fetch_slot_def rx_ready_def Let_def)
next
  case False
  with assms show ?thesis by (simp add: fetch_slot_def rx_ready_def)
qed

lemma ready_addr: "rx_ready tx p ss \<Longrightarrow> slot_addr p = unat (pos_index p) * 4096 + unat (pos_offset p)"
  by (simp add: rx_ready_def slot_addr_def slot_consts unat_and_4095)

lemma advance_rx_eq:
  assumes "unat (rx_pos (slot_state st)) + stride_of m < 2 ^ 64"
  shows "advance_rx p m (st\<lparr>slot_state := (slot_state st)\<lparr>rx_data := d\<rparr>\<rparr>) = st\<lparr>slot_state := advanced p (stride_of m) (slot_state st)\<rparr>"
proof -
  let ?w = "calc_msg_stride (ucast (msg_size (header m)))" and ?rx = "rx_pos (slot_state st)"
  have w: "of_nat (stride_of m) = ?w" by (simp add: stride_of_def)
  have u: "unat (?rx + ?w) = unat ?rx + stride_of m"
    using assms by (subst unat_add_small) (simp_all add: stride_of_def)
  have "?rx + ?w AND VCHIQ_SLOT_MASK = 0 \<longleftrightarrow> (unat ?rx + stride_of m) mod 4096 = 0"
    unfolding word_unat_eq_iff using u by (simp add: slot_consts unat_and_4095)
  then show ?thesis by (simp add: advance_rx_def advanced_def Let_def w)
qed

text \<open>One turn of the loop, whatever the message does: it is read, handled and skipped.\<close>

lemma handler_step_message:
  assumes "rx_ready tx p (slots_of x)" "message_at (mem (slot_data (slots_of x))) (slot_addr p) m"
    and "unat (pos_offset p) + stride_of m \<le> 4096"
  shows "handler_step S tx x = seq_res (handle_message S m (with_slots ((slots_of x)\<lparr>rx_data := Some p\<rparr>) x))
    (\<lambda>_ x. Ok () (on_state (advance_rx p m) x))"
proof -
  have wz: "well_sized m" using assms(2) by (simp add: message_at_def)
  have "slot_addr p + (8 + length (msg_data m)) \<le> (unat (pos_index p) + 1) * 4096"
    using ready_addr [OF assms(1)] assms(3) stride_of_bounds(1) [of m] wz by (simp add: well_sized_def)
  also have "\<dots> \<le> unat (slot_len (slot_data (slots_of x))) * 4096"
    using assms(1) by (intro mult_le_mono1) (simp add: rx_ready_def word_less_nat_alt)
  finally have im: "in_memory (slot_data (slots_of x)) (slot_addr p) (8 + length (msg_data m))"
    by (simp add: in_memory_def)
  have "read_message (slot_data (slots_of x)) p = Ok m ()"
    using assms(1) by (intro read_message_at [OF _ _ assms(2) im]) (simp_all add: rx_ready_def)
  then show ?thesis
    using fetch_slot_ready [OF assms(1)] by (simp add: handler_step_def with_slots_def on_state_def)
qed

lemma handler_step_ready:
  assumes "rx_ready tx p (slots_of x)" "message_at (mem (slot_data (slots_of x))) (slot_addr p) m"
    and "unat (pos_offset p) + stride_of m \<le> 4096" "unat (rx_pos (slots_of x)) + stride_of m < 2 ^ 64"
    and "handle_message S m x = Ok () y"
  shows "handler_step S tx x = Ok () (with_slots (advanced p (stride_of m) (slots_of x)) y)"
proof -
  let ?ss = "(slots_of x)\<lparr>rx_data := Some p\<rparr>"
  have h: "handle_message S m (with_slots ?ss x) = Ok () (with_slots ?ss y)"
    using assms(5) by (simp add: handle_message_slots)
  have y: "slots_of y = slots_of x" using assms(5) by (rule handle_message_slots_of)
  have "on_state (advance_rx p m) (with_slots ?ss y) = with_slots (advanced p (stride_of m) (slots_of x)) y"
    using advance_rx_eq [of "inst_state y" m p "Some p"] assms(4) by (simp add: on_state_def with_slots_def y)
  then show ?thesis using handler_step_message [OF assms(1-3)] h by simp
qed

lemma advanced_simps:
  "slot_data (advanced p n ss) = slot_data ss" "slot_zero (advanced p n ss) = slot_zero ss"
  "rx_pos (advanced p n ss) = rx_pos ss + of_nat n"
  by (simp_all add: advanced_def)

lemma advanced_twice:
  assumes "unat (rx_pos ss) + a < 2 ^ 64" "0 < b"
  shows "advanced (SlotPosition (pos_index p) (pos_offset p + of_nat a)) b (advanced p a ss) = advanced p (a + b) ss"
proof -
  have "unat (of_nat a :: usize) = a" using assms(1) by (intro unat_of_nat_small) simp
  then have "unat (rx_pos ss + of_nat a) = unat (rx_pos ss) + a"
    using assms(1) by (simp add: unat_add_small)
  then show ?thesis by (simp add: advanced_def algebra_simps)
qed

text \<open>After a message that does not end the slot, the receive side is ready at the next position.\<close>

lemma ready_advanced:
  assumes "rx_ready tx p ss" "unat (pos_offset p) + n < 4096" "0 < n" "unat (rx_pos ss) + n < 2 ^ 64"
  shows "rx_ready tx (SlotPosition (pos_index p) (pos_offset p + of_nat n)) (advanced p n ss)"
    "slot_addr (SlotPosition (pos_index p) (pos_offset p + of_nat n)) = slot_addr p + n"
    "unat (pos_offset p + of_nat n) = unat (pos_offset p) + n"
proof -
  have n: "unat (of_nat n :: usize) = n" using assms(2) by (intro unat_of_nat_small) simp
  show o: "unat (pos_offset p + of_nat n) = unat (pos_offset p) + n"
    using assms(2) n by (subst unat_add_small) simp_all
  have rx: "unat (rx_pos ss + of_nat n) = unat (rx_pos ss) + n"
    using assms(4) n by (subst unat_add_small) simp_all
  have r: "unat (pos_offset p) = unat (rx_pos ss) mod 4096" using assms(1) by (simp add: rx_ready_def)
  have m: "(unat (rx_pos ss) + n) mod 4096 = unat (pos_offset p) + n"
    using assms(2) unfolding r by (metis mod_add_left_eq mod_less)
  show "rx_ready tx (SlotPosition (pos_index p) (pos_offset p + of_nat n)) (advanced p n ss)"
    using assms(1,3) o rx m by (simp add: rx_ready_def advanced_def)
  show "slot_addr (SlotPosition (pos_index p) (pos_offset p + of_nat n)) = slot_addr p + n"
    using assms(2) o by (simp add: slot_addr_def slot_consts unat_and_4095)
qed

text \<open>
  The loop over a stream of messages that lies in one slot: it ends, has handled exactly these
  messages in order, and has advanced the receive position to the transmit position.
\<close>

lemma handler_loop_stream:
  assumes "rx_ready tx p (slots_of x)"
    and "stream_at message_at stride_of (mem (slot_data (slots_of x))) (slot_addr p) ms"
    and "unat (pos_offset p) + sum_list (map stride_of ms) \<le> 4096"
    and "unat (rx_pos (slots_of x)) + sum_list (map stride_of ms) = unat tx" "ms \<noteq> []"
    and "handle_all S ms x = Ok () y"
  shows "handler_loop S tx x = Some (Ok () (with_slots (advanced p (sum_list (map stride_of ms)) (slots_of x)) y))"
  using assms
proof (induction ms arbitrary: p x y)
  case (Cons m ms)
  let ?n = "stride_of m" and ?rest = "sum_list (map stride_of ms)"
  obtain z where z: "handle_message S m x = Ok () z" "handle_all S ms z = Ok () y"
    using Cons.prems(6) by (auto simp: outcome)
  have zs: "slots_of z = slots_of x" using z(1) by (rule handle_message_slots_of)
  have pos: "0 < ?n" by (rule stride_of_pos)
  have tx: "unat (rx_pos (slots_of x)) + (?n + ?rest) = unat tx" using Cons.prems(4) by simp
  then have bnd: "unat (rx_pos (slots_of x)) + ?n < 2 ^ 64" using unat_bound [of tx] by simp
  have ne: "rx_pos (slots_of x) \<noteq> tx" using tx pos by auto
  let ?z = "with_slots (advanced p ?n (slots_of x)) z"
  have step: "handler_step S tx x = Ok () ?z"
    using Cons.prems(2,3) bnd z(1) by (intro handler_step_ready [OF Cons.prems(1)]) simp_all
  have l: "handler_loop S tx x = handler_loop S tx ?z"
    by (subst handler_loop.simps) (simp add: ne step)
  show ?case
  proof (cases "ms = []")
    case True
    have "rx_pos (slots_of ?z) = tx"
      using tx bnd True by (intro word_unat_eq_iff [THEN iffD2]) (simp add: advanced_simps unat_add_small unat_of_nat_small)
    then show ?thesis using z(2) True l by (subst (asm) handler_loop.simps) simp
  next
    case False
    then have rest: "0 < ?rest" using stride_of_pos by (cases ms) auto
    then have lt: "unat (pos_offset p) + ?n < 4096" using Cons.prems(3) by simp
    let ?p = "SlotPosition (pos_index p) (pos_offset p + of_nat ?n)"
    note r = ready_advanced [OF Cons.prems(1) lt pos bnd]
    have "handle_all S ms ?z = Ok () (with_slots (advanced p ?n (slots_of x)) y)"
      using z(2) by (simp add: handle_all_slots)
    moreover have "unat (rx_pos (slots_of x) + of_nat ?n) = unat (rx_pos (slots_of x)) + ?n"
      using bnd by (simp add: unat_add_small unat_of_nat_small)
    ultimately have "handler_loop S tx ?z =
        Some (Ok () (with_slots (advanced ?p ?rest (slots_of ?z)) (with_slots (advanced p ?n (slots_of x)) y)))"
      using Cons.prems r tx False by (intro Cons.IH) (simp_all add: advanced_simps)
    then show ?thesis using l advanced_twice [OF bnd rest] by simp
  qed
qed simp

text \<open>The loop also ends when a message is not handled: it stops there with the same panic.\<close>

lemma handler_loop_ends:
  assumes "rx_ready tx p (slots_of x)"
    and "stream_at message_at stride_of (mem (slot_data (slots_of x))) (slot_addr p) ms"
    and "unat (pos_offset p) + sum_list (map stride_of ms) \<le> 4096"
    and "unat (rx_pos (slots_of x)) + sum_list (map stride_of ms) = unat tx"
    and "handle_all S ms x = Panic e"
  shows "handler_loop S tx x = Some (Panic e)"
  using assms
proof (induction ms arbitrary: p x)
  case (Cons m ms)
  let ?n = "stride_of m" and ?rest = "sum_list (map stride_of ms)"
  have tx: "unat (rx_pos (slots_of x)) + (?n + ?rest) = unat tx" using Cons.prems(4) by simp
  then have bnd: "unat (rx_pos (slots_of x)) + ?n < 2 ^ 64" using unat_bound [of tx] by simp
  have ne: "rx_pos (slots_of x) \<noteq> tx" using tx stride_of_pos [of m] by auto
  have at: "message_at (mem (slot_data (slots_of x))) (slot_addr p) m" "unat (pos_offset p) + ?n \<le> 4096"
    using Cons.prems(2,3) by simp_all
  from Cons.prems(5) consider "handle_message S m x = Panic e"
    | z where "handle_message S m x = Ok () z" "handle_all S ms z = Panic e"
    by (cases "handle_message S m x") auto
  then show ?case
  proof cases
    case 1
    then have "handler_step S tx x = Panic e"
      using handler_step_message [OF Cons.prems(1) at, of S] by (simp add: handle_message_slots)
    then show ?thesis by (subst handler_loop.simps) (simp add: ne)
  next
    case (2 z)
    let ?z = "with_slots (advanced p ?n (slots_of x)) z" and ?p = "SlotPosition (pos_index p) (pos_offset p + of_nat ?n)"
    have l: "handler_loop S tx x = handler_loop S tx ?z"
      using handler_step_ready [OF Cons.prems(1) at bnd 2(1)] by (subst handler_loop.simps) (simp add: ne)
    have "ms \<noteq> []" using 2(2) by auto
    then have "0 < ?rest" using stride_of_pos by (cases ms) auto
    then have lt: "unat (pos_offset p) + ?n < 4096" using Cons.prems(3) by simp
    note r = ready_advanced [OF Cons.prems(1) lt stride_of_pos bnd]
    have "handle_all S ms ?z = Panic e" using 2(2) by (simp add: handle_all_slots)
    moreover have "unat (rx_pos (slots_of x) + of_nat ?n) = unat (rx_pos (slots_of x)) + ?n"
      using bnd by (simp add: unat_add_small unat_of_nat_small)
    ultimately have "handler_loop S tx ?z = Some (Panic e)"
      using Cons.prems r tx by (intro Cons.IH [of ?p ?z]) (simp_all add: advanced_simps)
    with l show ?thesis by simp
  qed
qed simp

section \<open>Properties\<close>

text \<open>
  C6: A call of the slot handler ends and has handled exactly the messages that the VideoCore has
  published in the current slot, in their order; afterwards the receive position is the published
  transmit position.
\<close>

theorem slot_handler_receives:
  assumes "tx = ucast (tx_pos (sz_remote (slot_zero (slots_of x))))" "rx_ready tx p (slots_of x)"
    and "stream_at message_at stride_of (mem (slot_data (slots_of x))) (slot_addr p) ms" "ms \<noteq> []"
    and "unat (pos_offset p) + sum_list (map stride_of ms) \<le> 4096"
    and "unat (rx_pos (slots_of x)) + sum_list (map stride_of ms) = unat tx"
    and "handle_all S ms x = Ok () y"
  shows "\<exists>z. slot_handler S x = Some (Ok () z) \<and> rx_pos (slots_of z) = tx \<and>
    z = with_slots (advanced p (sum_list (map stride_of ms)) (slots_of x)) y"
proof -
  have "slot_handler S x = Some (Ok () (with_slots (advanced p (sum_list (map stride_of ms)) (slots_of x)) y))"
    unfolding slot_handler_def assms(1) [symmetric]
    by (rule handler_loop_stream [OF assms(2,3,5,6,4,7)])
  moreover have "rx_pos (slots_of x) + of_nat (sum_list (map stride_of ms)) = of_nat (unat tx)"
    unfolding assms(6) [symmetric] by simp
  ultimately show ?thesis by (simp add: advanced_simps)
qed

text \<open>A receive side with the answer to a connect request in the first slot of the VideoCore.\<close>

definition vc_connect :: slot_message where
  "vc_connect = \<lparr>header = \<lparr>msgid = make_msg_id CONNECT 0 0, msg_size = 0\<rparr>, msg_data = []\<rparr>"

definition rx_slots :: "nat slot_state" where
  "rx_slots = (let ss = slot_state boot_state; z = slot_zero ss
     in ss\<lparr>slot_data := \<lparr>mem = write_at (\<lambda>_. 0) 8192 vc_connect, slot_len = 65\<rparr>, rx_data := None, rx_pos := 0,
          slot_zero := z\<lparr>sz_remote := (sz_remote z)\<lparr>slot_queue := replicate 64 2, tx_pos := 8\<rparr>\<rparr>\<rparr>)"

definition rx_instance :: "nat vchiq_instance" where
  "rx_instance = \<lparr>inst_state = boot_state\<lparr>slot_state := rx_slots\<rparr>, connected = False,
     inst_completion = completion_default counter_sem\<rparr>"

lemma vc_connect_facts: "stride_of vc_connect = 8" "well_sized vc_connect" "msg_type_from_id (msgid (header vc_connect)) = Some CONNECT"
  by (simp_all add: vc_connect_def stride_of_eq well_sized_def make_msg_id_type)

lemma rx_instance_ready: "rx_ready 8 (SlotPosition 2 0) (slots_of rx_instance)"
  by (simp add: rx_ready_def rx_instance_def rx_slots_def Let_def)

lemma vc_connect_handled:
  "handle_all S [vc_connect] x = Ok () (on_state (\<lambda>st. st\<lparr>connect_sem := asem_up S (connect_sem st)\<rparr>) x)"
  by (simp add: handle_message_def vc_connect_facts(3) handler_service_def)

lemma rx_instance_stream:
  "8 = ucast (tx_pos (sz_remote (slot_zero (slots_of rx_instance))))"
  "stream_at message_at stride_of (mem (slot_data (slots_of rx_instance))) (slot_addr (SlotPosition 2 0)) [vc_connect]"
  "unat (pos_offset (SlotPosition 2 0)) + sum_list (map stride_of [vc_connect]) \<le> 4096"
  "unat (rx_pos (slots_of rx_instance)) + sum_list (map stride_of [vc_connect]) = unat (8 :: usize)"
proof -
  have "slot_addr (SlotPosition 2 0) = 8192" by (simp add: slot_addr_def slot_consts)
  then show "stream_at message_at stride_of (mem (slot_data (slots_of rx_instance))) (slot_addr (SlotPosition 2 0)) [vc_connect]"
    using vc_connect_facts(2) by (simp add: rx_instance_def rx_slots_def Let_def write_at_message_at)
qed (simp_all add: vc_connect_facts(1) rx_instance_def rx_slots_def Let_def)

theorem slot_handler_receives_witness:
  "\<exists>z. slot_handler counter_sem rx_instance = Some (Ok () z) \<and> rx_pos (slots_of z) = 8 \<and>
    connect_sem (inst_state z) = Suc (connect_sem boot_state)"
  using slot_handler_receives [OF rx_instance_stream(1) rx_instance_ready rx_instance_stream(2) _ rx_instance_stream(3,4)
      vc_connect_handled, of counter_sem]
  by (auto simp: with_slots_def on_state_def rx_instance_def counter_sem_def)

text \<open>
  C26: The loop of the slot handler ends on every stream of messages in the current slot, whatever
  they are: with a result, or with the panic that handling them one by one runs into.  It never waits.
\<close>

theorem slot_handler_terminates:
  assumes "tx = ucast (tx_pos (sz_remote (slot_zero (slots_of x))))" "rx_ready tx p (slots_of x)"
    and "stream_at message_at stride_of (mem (slot_data (slots_of x))) (slot_addr p) ms" "ms \<noteq> []"
    and "unat (pos_offset p) + sum_list (map stride_of ms) \<le> 4096"
    and "unat (rx_pos (slots_of x)) + sum_list (map stride_of ms) = unat tx"
  shows "\<exists>r. slot_handler S x = Some r \<and> definite r \<and> (\<forall>e. r = Panic e \<longleftrightarrow> handle_all S ms x = Panic e)"
proof (cases "handle_all S ms x")
  case (Ok u y)
  then show ?thesis
    using handler_loop_stream [OF assms(2,3,5,6,4), of S y] by (simp add: slot_handler_def assms(1) [symmetric])
next
  case (Panic e)
  then show ?thesis
    using handler_loop_ends [OF assms(2,3,5,6), of S e] by (auto simp: slot_handler_def assms(1) [symmetric])
qed (use handle_all_definite [of S ms x] in simp_all)

theorem slot_handler_terminates_witness:
  "\<exists>r. slot_handler counter_sem rx_instance = Some r \<and> definite r"
  using slot_handler_terminates [OF rx_instance_stream(1) rx_instance_ready rx_instance_stream(2) _ rx_instance_stream(3,4)]
  by fastforce

text \<open>
  C35: At the start of a slot, the slot to read is looked up with the transmit position of the VideoCore instead of the receive
  position.  When the VideoCore has already moved on to another slot, the first message of that one is handled instead of the
  message that is due: the due message stays behind unread, while the receive position moves on as if it had been handled, and
  the handler continues in the wrong slot.
\<close>

theorem receives_from_wrong_slot:
  assumes "tx = ucast (tx_pos (sz_remote (slot_zero (slots_of x))))"
    and "q = slot_queue (sz_remote (slot_zero (slots_of x)))" "length q = 64"
    and "rx_data (slots_of x) = None" "unat (rx_pos (slots_of x)) = k * 4096" "k < unat tx div 4096"
    and "due = unat (q ! (k mod 64))" "other = unat (q ! (unat tx div 4096 mod 64))" "due \<noteq> other"
    and "0 < other" "other < unat (slot_len (slot_data (slots_of x)))"
    and "message_at (mem (slot_data (slots_of x))) (due * 4096) m"
    and "message_at (mem (slot_data (slots_of x))) (other * 4096) m'" "stride_of m' \<le> 4096"
    and "handle_message S m' x = Ok () y"
  shows "\<exists>z. slot_handler S x = handler_loop S tx z \<and> z = with_slots (slots_of z) y \<and>
    unat (rx_pos (slots_of z)) = k * 4096 + stride_of m' \<and>
    rx_data (slots_of z) = (if stride_of m' = 4096 then None else Some (SlotPosition (of_nat other) (of_nat (stride_of m')))) \<and>
    (of_nat other :: usize) \<noteq> of_nat due \<and> message_at (mem (slot_data (slots_of z))) (due * 4096) m"
proof -
  let ?p = "SlotPosition (of_nat other) 0" and ?n = "stride_of m'"
  have o: "(of_nat other :: usize) = ucast (q ! (unat tx div 4096 mod 64))" by (simp add: assms(8))
  have ou: "unat (of_nat other :: usize) = other" unfolding o by (simp add: assms(8) unat_ucast_u32_usize)
  have "(of_nat due :: usize) = ucast (q ! (k mod 64))" by (simp add: assms(7))
  then have du: "unat (of_nat due :: usize) = due" by (simp add: assms(7) unat_ucast_u32_usize)
  have r: "rx_ready tx ?p (slots_of x)"
    using assms(2-5,10,11) unfolding rx_ready_def word_less_nat_alt slot_position.sel ou assms(2) [symmetric] o [symmetric] by simp
  have "(k + 1) * 4096 \<le> unat tx"
    using assms(6) mult_le_mono1 [of "k + 1" "unat tx div 4096" 4096] div_times_less_eq_dividend [of "unat tx" 4096] by linarith
  then have b: "unat (rx_pos (slots_of x)) + ?n < 2 ^ 64" using unat_bound [of tx] assms(5,14) by simp
  have a: "slot_addr ?p = other * 4096" by (simp add: slot_addr_def slot_consts ou)
  have n0: "?n mod 4096 = 0 \<longleftrightarrow> ?n = 4096"
    using assms(14) stride_of_pos [of m'] by (cases "?n = 4096") simp_all
  let ?z = "with_slots (advanced ?p ?n (slots_of x)) y"
  have "handler_step S tx x = Ok () ?z"
    using assms(13-15) b by (intro handler_step_ready [OF r]) (simp_all add: a)
  moreover have "rx_pos (slots_of x) \<noteq> tx" using assms(5) \<open>(k + 1) * 4096 \<le> unat tx\<close> by auto
  ultimately have "slot_handler S x = handler_loop S tx ?z"
    unfolding slot_handler_def assms(1) [symmetric] by (subst handler_loop.simps) simp
  moreover have "unat (rx_pos (slots_of ?z)) = k * 4096 + ?n"
    using b assms(5) by (simp add: advanced_simps unat_add_small unat_of_nat_small)
  moreover have "rx_data (slots_of ?z) = (if ?n = 4096 then None else Some (SlotPosition (of_nat other) (of_nat ?n)))"
    using n0 by (simp add: advanced_def assms(5))
  moreover have "message_at (mem (slot_data (slots_of ?z))) (due * 4096) m" using assms(12) by (simp add: advanced_simps)
  moreover have "(of_nat other :: usize) \<noteq> of_nat due"
    using assms(9) ou du by metis
  ultimately show ?thesis by (intro exI [of _ ?z]) simp
qed

text \<open>
  The VideoCore has its slots 2 to 32 in its queue, has answered the connect request in the first one and has gone on to the
  second, where there is a padding message.  The answer is missed.
\<close>

definition vc_padding :: slot_message where
  "vc_padding = \<lparr>header = \<lparr>msgid = make_msg_id PADDING 0 0, msg_size = 0\<rparr>, msg_data = []\<rparr>"

definition split_queue :: "u32 list" where
  "split_queue = map of_nat [2..<33] @ replicate 33 0"

definition split_slots :: "nat slot_state" where
  "split_slots = (let ss = slot_state boot_state; z = slot_zero ss
     in ss\<lparr>slot_data := \<lparr>mem = write_at (write_at (\<lambda>_. 0) 8192 vc_connect) 12288 vc_padding, slot_len = 65\<rparr>,
          rx_data := None, rx_pos := 0,
          slot_zero := z\<lparr>sz_remote := (sz_remote z)\<lparr>slot_queue := split_queue, tx_pos := 4104\<rparr>\<rparr>\<rparr>)"

definition split_instance :: "nat vchiq_instance" where
  "split_instance = \<lparr>inst_state = boot_state\<lparr>slot_state := split_slots\<rparr>, connected = False,
     inst_completion = completion_default counter_sem\<rparr>"

lemma vc_padding_facts: "stride_of vc_padding = 8" "well_sized vc_padding" "handle_message S vc_padding x = Ok () x"
  by (simp_all add: vc_padding_def stride_of_eq well_sized_def handle_message_def handler_service_def make_msg_id_type)

lemma split_queue_entries: "length split_queue = 64" "split_queue ! 0 = 2" "split_queue ! 1 = 3"
  by (simp_all add: split_queue_def nth_append del: upt_rec_numeral)

lemma split_memory:
  "message_at (write_at (write_at (\<lambda>_. 0) 8192 vc_connect) 12288 vc_padding) 8192 vc_connect"
  "message_at (write_at (write_at (\<lambda>_. 0) 8192 vc_connect) 12288 vc_padding) 12288 vc_padding"
  using vc_connect_facts(1,2) vc_padding_facts(1,2) by (simp_all add: write_at_frame write_at_message_at)

lemma split_slots_facts:
  "tx_pos (sz_remote (slot_zero split_slots)) = 4104" "slot_queue (sz_remote (slot_zero split_slots)) = split_queue"
  "rx_data split_slots = None" "rx_pos split_slots = 0" "slot_len (slot_data split_slots) = 65"
  "message_at (mem (slot_data split_slots)) (2 * 4096) vc_connect" "message_at (mem (slot_data split_slots)) (3 * 4096) vc_padding"
  using split_memory by (simp_all add: split_slots_def Let_def)

theorem receives_from_wrong_slot_witness:
  "\<exists>z. slot_handler counter_sem split_instance = handler_loop counter_sem 4104 z \<and> unat (rx_pos (slots_of z)) = 8 \<and>
    rx_data (slots_of z) = Some (SlotPosition 3 8) \<and> connect_sem (inst_state z) = connect_sem boot_state"
proof -
  have s: "slots_of split_instance = split_slots" "connect_sem (inst_state split_instance) = connect_sem boot_state"
    by (simp_all add: split_instance_def)
  note f = split_slots_facts split_queue_entries
  have "\<exists>z. slot_handler counter_sem split_instance = handler_loop counter_sem 4104 z \<and> z = with_slots (slots_of z) split_instance \<and>
    unat (rx_pos (slots_of z)) = 0 * 4096 + stride_of vc_padding \<and>
    rx_data (slots_of z) = (if stride_of vc_padding = 4096 then None else Some (SlotPosition (of_nat 3) (of_nat (stride_of vc_padding)))) \<and>
    (of_nat 3 :: usize) \<noteq> of_nat 2 \<and> message_at (mem (slot_data (slots_of z))) (2 * 4096) vc_connect"
    by (rule receives_from_wrong_slot [OF _ _ f(8), where k = 0]) (use f in \<open>simp_all add: s vc_padding_facts\<close>)
  then obtain z where z: "slot_handler counter_sem split_instance = handler_loop counter_sem 4104 z"
      "z = with_slots (slots_of z) split_instance" "unat (rx_pos (slots_of z)) = 0 * 4096 + stride_of vc_padding"
      "rx_data (slots_of z) = (if stride_of vc_padding = 4096 then None else Some (SlotPosition (of_nat 3) (of_nat (stride_of vc_padding))))"
    by blast
  have "connect_sem (inst_state (with_slots (slots_of z) split_instance)) = connect_sem boot_state"
    using s(2) by (simp add: with_slots_def on_state_def)
  then have "connect_sem (inst_state z) = connect_sem boot_state" unfolding z(2) [symmetric] .
  with z(1,3,4) show ?thesis by (intro exI [of _ z]) (simp add: vc_padding_facts(1))
qed

end
