(* ===== verification/Instance.thy ===== *)
theory Instance
  imports Slot_Handler
begin

text \<open>
  The operations of the VCHIQ instance, \<^verbatim>\<open>src/vchiq/instance/mod.rs\<close>, on top of the state, the slot
  handler and the completion queue.  As before, a future that suspends is split into the part before
  the wait and the repeatable wait.
\<close>

section \<open>Construction and connection\<close>

text \<open>An operation of the state, run on the instance that owns it.\<close>

definition lift_state ::
  "('sem state \<Rightarrow> ('a, 'sem state) result) \<Rightarrow> 'sem vchiq_instance \<Rightarrow> ('a, 'sem vchiq_instance) result" where
  "lift_state f x =
     bind_res (f (inst_state x)) (\<lambda>a st. Ok a (x\<lparr>inst_state := st\<rparr>)) (\<lambda>_ st. x\<lparr>inst_state := st\<rparr>)"

definition instance_new ::
  "'sem sem_ops \<Rightarrow> 'sem platform \<Rightarrow> usize \<Rightarrow> ('sem vchiq_instance, unit) result" where
  "instance_new S P next_handle =
     bind_res (state_new S P next_handle)
       (\<lambda>st _. bind_res (state_initialize P st)
          (\<lambda>_ st. Ok \<lparr>inst_state = st, connected = False, inst_completion = completion_default S\<rparr> ())
          (\<lambda>_ _. ()))
       (\<lambda>_ _. ())"

definition connect_done :: "unit poll \<Rightarrow> 'sem vchiq_instance \<Rightarrow> (unit poll, 'sem vchiq_instance) result" where
  "connect_done p x = (case p of Ready _ \<Rightarrow> Ok (Ready ()) (x\<lparr>connected := True\<rparr>) | Pending \<Rightarrow> Ok Pending x)"

definition instance_connect :: "'sem sem_ops \<Rightarrow> 'sem vchiq_instance \<Rightarrow> (unit poll, 'sem vchiq_instance) result" where
  "instance_connect S x =
     (if connected x then Err (VchiqErr AlreadyConnected) x
      else seq_res (lift_state (connect S) x) connect_done)"

definition instance_connect_poll :: "'sem sem_ops \<Rightarrow> 'sem vchiq_instance \<Rightarrow> (unit poll, 'sem vchiq_instance) result" where
  "instance_connect_poll S x = seq_res (lift_state (connect_poll S) x) connect_done"

section \<open>Services\<close>

text \<open>
  The parameters that reach the state: the callback is the internal one and the user data of the client
  is wrapped into the user part of the service.
\<close>

type_synonym client_params = "(vchiq_callback, user_any) service_params"

definition internal_params :: "'sem sem_ops \<Rightarrow> client_params \<Rightarrow> bool \<Rightarrow> 'sem vchiq_params" where
  "internal_params S params vchi =
     \<lparr>sp_fourcc = sp_fourcc params, sp_callback = Some InternalCallback,
      sp_userdata = Some (UD_ServiceUser (service_user_new S (sp_userdata params) vchi)),
      sp_version = sp_version params, sp_version_min = sp_version_min params\<rparr>"

definition create_state :: "bool \<Rightarrow> 'sem vchiq_instance \<Rightarrow> box_error + service_state" where
  "create_state open_it x =
     (if open_it then (if \<not> connected x then Inl (VchiqErr NotConnected) else Inr OPENING)
      else if connected x then Inr LISTENING else Inr HIDDEN)"

definition create_start ::
  "'sem sem_ops \<Rightarrow> (open_payload \<Rightarrow> u8 list) \<Rightarrow> client_params \<Rightarrow> bool \<Rightarrow> bool \<Rightarrow> 'sem vchiq_instance
   \<Rightarrow> (service_handle, 'sem vchiq_instance) result" where
  "create_start S enc params open_it vchi x =
     (case create_state open_it x of
        Inl e \<Rightarrow> Err e x
      | Inr new_state \<Rightarrow>
          seq_res (lift_state (add_service S (internal_params S params vchi) new_state) x)
            (\<lambda>h x. if open_it then seq_res (lift_state (open_send S enc h) x) (\<lambda>_ x. Ok h x) else Ok h x))"

definition create_poll ::
  "'sem sem_ops \<Rightarrow> bool \<Rightarrow> service_handle \<Rightarrow> 'sem vchiq_instance \<Rightarrow> (service_handle poll, 'sem vchiq_instance) result" where
  "create_poll S open_it h x =
     (if open_it
      then seq_res (lift_state (open_poll S h) x)
             (\<lambda>p x. case p of Ready _ \<Rightarrow> Ok (Ready h) x | Pending \<Rightarrow> Ok Pending x)
      else Ok (Ready h) x)"

definition create_service ::
  "'sem sem_ops \<Rightarrow> (open_payload \<Rightarrow> u8 list) \<Rightarrow> client_params \<Rightarrow> bool \<Rightarrow> bool \<Rightarrow> 'sem vchiq_instance
   \<Rightarrow> (service_handle poll, 'sem vchiq_instance) result" where
  "create_service S enc params open_it vchi x =
     seq_res (create_start S enc params open_it vchi x) (\<lambda>h x. create_poll S open_it h x)"

definition instance_close_service ::
  "'sem sem_ops \<Rightarrow> service_handle \<Rightarrow> 'sem vchiq_instance \<Rightarrow> (unit poll, 'sem vchiq_instance) result" where
  "instance_close_service S h x = lift_state (close_service S h) x"

definition instance_queue_message ::
  "'sem sem_ops \<Rightarrow> service_handle \<Rightarrow> u8 list \<Rightarrow> 'sem vchiq_instance \<Rightarrow> (unit, 'sem vchiq_instance) result" where
  "instance_queue_message S h data x =
     (case service_from_handle (inst_state x) h of
        Inl e \<Rightarrow> Err e x
      | Inr i \<Rightarrow>
         (case get_service (inst_state x) i of
            None \<Rightarrow> Panic ''dangling service reference''
          | Some srv \<Rightarrow>
              lift_state (queue_message S (Some i) (make_msg_id DATA (localport srv) (remoteport srv))
                (Some data) False) x))"

section \<open>Dequeueing messages\<close>

definition service_user_of :: "'sem service \<Rightarrow> 'sem service_user option" where
  "service_user_of srv = (case base_userdata srv of Some (UD_ServiceUser us) \<Rightarrow> Some us | _ \<Rightarrow> None)"

definition set_service_user :: "nat \<Rightarrow> 'sem service_user \<Rightarrow> 'sem vchiq_instance \<Rightarrow> 'sem vchiq_instance" where
  "set_service_user i us = on_state (update_service i (\<lambda>s. s\<lparr>base_userdata := Some (UD_ServiceUser us)\<rparr>))"

text \<open>The checks before the wait: the reference to the service whose user data is kept for the wait.\<close>

definition dequeue_start ::
  "service_handle \<Rightarrow> 'sem vchiq_instance \<Rightarrow> (nat, 'sem vchiq_instance) result" where
  "dequeue_start h x =
     (case service_from_handle (inst_state x) h of
        Inl e \<Rightarrow> Err e x
      | Inr i \<Rightarrow>
         (case get_service (inst_state x) i of
            None \<Rightarrow> Panic ''dangling service reference''
          | Some srv \<Rightarrow>
             (case service_user_of srv of
                None \<Rightarrow> Panic ''called Option::unwrap() on a None value''
              | Some us \<Rightarrow>
                  if \<not> is_vchi us
                  then Err (GenericErr ''called dequeue for a service that is not marked as vchi'') x
                  else Ok i x)))"

text \<open>The wait and, when it is over, the removal of the message.\<close>

definition dequeue_resume ::
  "'sem sem_ops \<Rightarrow> (slot_message \<Rightarrow> box_error + 'a) \<Rightarrow> nat \<Rightarrow> 'sem vchiq_instance \<Rightarrow> ('a poll, 'sem vchiq_instance) result" where
  "dequeue_resume S conv i x =
     (case Option.bind (get_service (inst_state x) i) service_user_of of
        None \<Rightarrow> Panic ''called Option::unwrap() on a None value''
      | Some us \<Rightarrow>
         (case dequeue_poll S us of
            (Pending, us) \<Rightarrow> Ok Pending (set_service_user i us x)
          | (Ready _, us) \<Rightarrow>
              bind_res (dequeue_take S conv us)
                (\<lambda>a us. Ok (Ready a) (set_service_user i us x)) (\<lambda>_ us. set_service_user i us x)))"

definition dequeue_message ::
  "'sem sem_ops \<Rightarrow> (slot_message \<Rightarrow> box_error + 'a) \<Rightarrow> service_handle \<Rightarrow> 'sem vchiq_instance
   \<Rightarrow> ('a poll, 'sem vchiq_instance) result" where
  "dequeue_message S conv h x = seq_res (dequeue_start h x) (\<lambda>i x. dequeue_resume S conv i x)"

section \<open>Awaiting completions\<close>

definition await_completion ::
  "'sem sem_ops \<Rightarrow> usize \<Rightarrow> 'sem vchiq_instance \<Rightarrow> (service_completion list poll, 'sem vchiq_instance) result" where
  "await_completion S count x =
     (if \<not> connected x then Err (VchiqErr NotConnected) x
      else case await_poll S (inst_completion x) of
          (Pending, c) \<Rightarrow> Ok Pending (x\<lparr>inst_completion := c\<rparr>)
        | (Ready _, c) \<Rightarrow>
            bind_res (collect_completions (unat count) c)
              (\<lambda>xs c. Ok (Ready xs) (x\<lparr>inst_completion := c\<rparr>)) (\<lambda>_ c. x\<lparr>inst_completion := c\<rparr>))"

end
