(* ===== verification/Handshake.thy ===== *)
theory Handshake
  imports Instance
begin

text \<open>
  The protocols between the ARM side and the VideoCore, put together from sending, handling the answer
  and the wait that the answer ends: connecting, opening, refusing and closing a service.
\<close>

section \<open>Messages for a service\<close>

text \<open>A message of the VideoCore from its port \<open>r\<close> to the local port \<open>i\<close>.\<close>

definition message_to :: "message_type \<Rightarrow> u32 \<Rightarrow> nat \<Rightarrow> slot_message \<Rightarrow> bool" where
  "message_to ty r i m \<longleftrightarrow> unat r < 4096 \<and> i < 4096 \<and> msgid (header m) = make_msg_id ty r (of_nat i)"

lemma message_toD:
  assumes "message_to ty r i m"
  shows "msg_type_from_id (msgid (header m)) = Some ty" "src_port_from_id (msgid (header m)) = r"
    "dst_port_from_id (msgid (header m)) = of_nat i" "unat (of_nat i :: u32) = i"
proof -
  show u: "unat (of_nat i :: u32) = i" using assms by (intro unat_of_nat_u32) (simp add: message_to_def)
  then have "unat (of_nat i :: u32) < 4096" using assms by (simp add: message_to_def)
  then show "msg_type_from_id (msgid (header m)) = Some ty" "src_port_from_id (msgid (header m)) = r"
    "dst_port_from_id (msgid (header m)) = of_nat i"
    using assms by (simp_all add: message_to_def make_msg_id_type make_msg_id_src make_msg_id_dst)
qed

lemma service_by_port_found:
  assumes "get_service st i = Some srv" "srvstate srv \<noteq> FREE" "unat (of_nat i :: u32) = i"
  shows "service_by_port st (of_nat i) = Ok (Some i) ()"
  unfolding service_by_port_def assms(3) using assms(1,2) by (simp add: get_service_Some)

lemma handle_openack_message:
  assumes "message_to OPENACK r i m" "get_service (inst_state x) i = Some srv" "srvstate srv \<noteq> FREE"
  shows "handle_message S m x = Ok () (on_state (handle_openack S i r m) x)"
proof -
  note d = message_toD [OF assms(1)]
  have "handler_service OPENACK (of_nat i) r (inst_state x) = Ok (Some i) ()"
    unfolding handler_service_def using service_by_port_found [OF assms(2,3) d(4)] by simp
  then show ?thesis unfolding handle_message_def Let_def d(1-3) option.case by simp
qed

lemma handle_close_message:
  assumes "message_to CLOSE r i m" "get_service (inst_state x) i = Some srv" "srvstate srv \<noteq> FREE"
    and "remoteport srv = r \<or> remoteport srv = VCHIQ_PORT_FREE \<or> i \<noteq> 0"
  shows "handle_message S m x =
    bind_res (handle_close S i (inst_state x)) (\<lambda>_ st. Ok () (x\<lparr>inst_state := st\<rparr>)) (\<lambda>_ st. x\<lparr>inst_state := st\<rparr>)"
proof -
  note d = message_toD [OF assms(1)]
  have "(of_nat i :: u32) = 0 \<longleftrightarrow> i = 0" using d(4) by auto
  then have "handler_service CLOSE (of_nat i) r (inst_state x) = Ok (Some i) ()"
    unfolding handler_service_def using service_by_port_found [OF assms(2,3) d(4)] assms(2,4) by auto
  then show ?thesis unfolding handle_message_def Let_def d(1-3) option.case by simp
qed

section \<open>The wait for the remove event\<close>

lemma remove_event_ready:
  assumes "sem_laws S cnt" "lookup_handle st h = Some i" "get_service st i = Some srv" "0 < cnt (remove_event srv)"
  obtains s where "remove_event_poll S h st =
      Ok (Ready (srvstate srv)) (update_service i (\<lambda>s'. s'\<lparr>remove_event := s\<rparr>) st)"
    "cnt s = cnt (remove_event srv) - 1"
proof -
  obtain s where "sem_try_down S (remove_event srv) = Some s" "cnt s = cnt (remove_event srv) - 1"
    using down_lawD(2) [OF sem_lawsD(6) [OF assms(1)] assms(4)] by blast
  then show thesis
    using assms(2,3) by (intro that) (simp_all add: remove_event_poll_def service_from_handle_lookup)
qed

lemma remove_event_pending:
  assumes "sem_laws S cnt" "lookup_handle st h = Some i" "get_service st i = Some srv" "cnt (remove_event srv) = 0"
  shows "remove_event_poll S h st = Ok Pending st"
  using assms(2-4) down_lawD(1) [OF sem_lawsD(6) [OF assms(1)], of "remove_event srv"]
  by (simp add: remove_event_poll_def service_from_handle_lookup)

text \<open>What the handler does to the service of the message.\<close>

lemma openack_service:
  assumes "get_service st i = Some srv" "srvstate srv = OPENING"
  shows "\<exists>srv'. get_service (handle_openack S i r m st) i = Some srv' \<and> srvstate srv' = OPEN \<and> remoteport srv' = r \<and>
    remove_event srv' = sem_up S (remove_event srv) \<and> srv_handle srv' = srv_handle srv \<and> localport srv' = localport srv"
  using assms by (auto simp: handle_openack_def Let_def split: sum.splits)

section \<open>The table under the operations\<close>

lemma free_service_table: "same_table st (free_service S i st)"
  by (simp add: free_service_def same_table_update split: option.splits)

lemma close_complete_table:
  assumes "close_service_complete S i f st = Ok a st' \<or> close_service_complete S i f st = Err e st'"
  shows "same_table st st'"
  using assms
  by (auto simp: close_service_complete_def Let_def same_table_update same_table_trans [OF _ free_service_table]
      split: option.splits if_splits)

lemma openack_table: "same_table st (handle_openack S i r m st)"
  by (simp add: handle_openack_def Let_def same_table_update split: sum.splits option.splits)

lemma handle_close_table:
  assumes "handle_close S i st = Ok a st'"
  shows "same_table st st'"
proof -
  obtain srv where srv: "get_service st i = Some srv"
    using assms by (auto simp: handle_close_def split: option.splits)
  let ?b = "update_quota (unat (localport srv)) (\<lambda>q. q\<lparr>quota_event := sem_up S (quota_event q)\<rparr>)
      (update_service i (\<lambda>s. s\<lparr>closing := True\<rparr>) st)"
  have b: "same_table st ?b" by (simp add: same_table_quota same_table_update)
  from assms srv have "st' = ?b \<or> same_table ?b st'"
    by (auto simp: handle_close_def Let_def same_table_update dest: close_complete_table [OF disjI1] close_complete_table [OF disjI2]
        split: if_splits service_state.splits res.splits)
  with b show ?thesis by (auto intro: same_table_trans)
qed

lemma add_completion_Err: "add_completion S r m us c \<noteq> Err e y"
  by (simp add: add_completion_def Let_def)

lemma service_callback_entry:
  assumes "service_callback S r m srv c = Ok a (srv', c') \<or> service_callback S r m srv c = Err e (srv', c')"
  obtains u where "srv' = srv\<lparr>base_userdata := u\<rparr>"
  using assms
  by (auto simp: service_callback_def split: option.splits vchiq_user_data.splits)
    (auto elim!: bind_res.elims split: prod.splits)

lemma run_callback_table:
  assumes "run_callback S cb m h x = Ok a y"
  shows "same_table (inst_state x) (inst_state y)"
proof (cases "y = x")
  case False
  with assms obtain j srv where j: "get_service (inst_state x) j = Some srv"
    and r: "\<exists>e srv' c'. (service_callback S MESSAGE_AVAILABLE (Some m) srv (inst_completion x) = Ok e (srv', c') \<or>
        (\<exists>e. service_callback S MESSAGE_AVAILABLE (Some m) srv (inst_completion x) = Err e (srv', c'))) \<and>
      inst_state y = update_service j (\<lambda>_. srv') (inst_state x)"
    by (auto simp: run_callback_def split: vchiq_callback.splits sum.splits option.splits res.splits)
  then obtain srv' u where "inst_state y = update_service j (\<lambda>_. srv') (inst_state x)" "srv' = srv\<lparr>base_userdata := u\<rparr>"
    by (metis service_callback_entry)
  with j show ?thesis by (auto intro!: same_table_entry_update)
qed simp

lemma handle_data_table:
  assumes "handle_data S i r m x = Ok a y"
  shows "same_table (inst_state x) (inst_state y)"
proof (cases "y = x")
  case False
  with assms obtain cb h z where
    z: "run_callback S cb m h (on_state (update_service i (\<lambda>s. s\<lparr>base_callback := None\<rparr>)) x) = Ok () z"
    and y: "y = on_state (update_service i (\<lambda>s. s\<lparr>base_callback := Some cb\<rparr>)) z"
    by (auto simp: handle_data_def outcome split: option.splits if_splits)
  have "same_table (inst_state x) (inst_state (on_state (update_service i (\<lambda>s. s\<lparr>base_callback := None\<rparr>)) x))"
    by (simp add: on_state_def same_table_update)
  from same_table_trans [OF this run_callback_table [OF z]] show ?thesis
    by (simp add: y on_state_def same_table_update)
qed simp

lemma handle_message_table:
  assumes "handle_message S m x = Ok a y"
  shows "same_table (inst_state x) (inst_state y)"
  using assms
  by (auto simp: handle_message_def Let_def on_state_def openack_table same_table_frame outcome
      dest!: handle_close_table handle_data_table
      split: option.splits res.splits message_type.splits)

lemma remove_event_table:
  assumes "remove_event_poll S h st = Ok a st'"
  shows "same_table st st'"
  using assms by (auto simp: remove_event_poll_def same_table_update split: sum.splits option.splits)

lemma queued_table: "same_table st (queued_state service ty msg_id c t st)"
proof -
  note q = queued_state_simps [of service ty msg_id c t st]
  have "same_table st (queued_state service ty msg_id c t st) \<longleftrightarrow> same_table st st'"
    if "srv_state st' = sent_services service ty st" "length (quotas_of st') = length (quotas_of st)"
      "next_srv_handle st' = next_srv_handle st" for st'
    using that by (simp add: same_table_def q accounted_length)
  moreover have "same_table st (update_service i (set_state CLOSESENT) st)" for i
    by (simp add: same_table_update)
  ultimately show ?thesis
    by (cases service; cases "ty = CLOSE") (auto simp: sent_services_def)
qed

lemma queue_message_table:
  assumes "sem_laws S cnt" "tx_inv st" "context_size c \<le> 4088" "queue_message S service msg_id c b st = Ok () st'"
  shows "same_table st st'"
  using queue_message_Ok [OF assms] queued_table by metis

section \<open>Refusing\<close>

lemma handle_close_opening:
  assumes "get_service st i = Some srv" "srvstate srv = OPENING" "unat (localport srv) < length (quotas_of st)"
  obtains st' srv' where "handle_close S i st = Ok () st'" "get_service st' i = Some srv'" "srvstate srv' = CLOSEWAIT"
    "closing srv'" "remove_event srv' = sem_up S (remove_event srv)"
  using assms by (simp add: handle_close_def Let_def)

lemma handle_close_sent:
  assumes "get_service st i = Some srv" "srvstate srv = CLOSESENT" "unat (localport srv) < length (quotas_of st)"
  obtains st' srv' where "handle_close S i st = Ok () st'" "get_service st' i = Some srv'" "srvstate srv' = FREE"
    "remoteport srv' = VCHIQ_PORT_FREE" "remove_event srv' = sem_up S (remove_event srv)"
  using assms
  by (simp add: handle_close_def Let_def close_service_complete_def free_service_def)

lemma handle_close_open:
  assumes "get_service st i = Some srv" "srvstate srv = OPEN" "unat (localport srv) < length (quotas_of st)"
  obtains st' where "handle_close S i st = Ok () st'" "get_service st' i = Some (srv\<lparr>closing := True\<rparr>)"
  using assms by (simp add: handle_close_def Let_def)

section \<open>Sending control messages\<close>

text \<open>A control message that fits is sent; what this does to services, connection and memory.\<close>

lemma control_sent:
  assumes "tx_inv st" "control_message (service, msg_id, c)" "tx_target msg_id c st < tx_slots st * 4096"
    and "msg_type_from_id msg_id = Some ty"
  obtains st' where "queue_message S service msg_id c b st = Ok () st'" "tx_inv st'" "same_table st st'"
    "srv_state st' = sent_services service ty st" "conn_state st' = conn_state st" "connect_sem st' = connect_sem st"
    "read_message (slot_data (slot_state st')) (tx_position st (tx_target msg_id c st)) = Ok (queued_message msg_id c) ()"
proof -
  let ?st = "queued_state service ty msg_id c (tx_target msg_id c st) st"
  note s = control_sendable [OF assms(2), of S st] and z = control_size [OF assms(2)]
  have q: "queue_message S service msg_id c b st = Ok () ?st"
    using assms(1) s
  proof (cases rule: queue_message_cases [where b = b])
    case full
    with assms(3) show ?thesis by simp
  next
    case (sent ty')
    with assms(4) show ?thesis by simp
  qed
  show thesis
    by (rule that [OF q]) (use queued_facts [OF assms(1) z assms(3)] queued_table in \<open>simp_all add: queued_state_simps\<close>)
qed

lemma masked_port: "unat (p AND 0x0FFF :: u32) < 4096"
proof -
  have "unat (p AND 0x0FFF) = unat p mod 2 ^ 12" unfolding fff_mask by (rule unat_and_mask)
  then show ?thesis by simp
qed

lemma get_service_cong: "srv_state st = srv_state st' \<Longrightarrow> get_service st i = get_service st' i"
  by (simp add: get_service_def)

definition close_id :: "'sem service \<Rightarrow> u32" where
  "close_id srv = make_msg_id CLOSE (localport srv) (remoteport srv AND 0x0FFF)"

lemma close_id_control:
  assumes "unat (localport srv) < 4096"
  shows "msg_type_from_id (close_id srv) = Some CLOSE" "control_message (service, close_id srv, None)"
proof -
  show t: "msg_type_from_id (close_id srv) = Some CLOSE"
    using assms masked_port by (simp add: close_id_def make_msg_id_type)
  then show "control_message (service, close_id srv, None)" by (simp add: control_message_def context_size_def)
qed

text \<open>Starting to close an open service: the close message is sent and the service waits for the answer.\<close>

lemma close_start_open:
  assumes "tx_inv st" "srv_inv st" "lookup_handle st h = Some i" "get_service st i = Some srv" "srvstate srv = OPEN"
    and "tx_target (close_id srv) None st < tx_slots st * 4096"
  obtains st' where "close_start S h st = Ok () st'" "same_table st st'" "tx_inv st'"
    "get_service st' i = Some (srv\<lparr>closing := True, srvstate := CLOSESENT\<rparr>)"
    "read_message (slot_data (slot_state st')) (tx_position st (tx_target (close_id srv) None st)) =
       Ok (queued_message (close_id srv) None) ()"
proof -
  let ?a = "update_service i (\<lambda>s. s\<lparr>closing := True\<rparr>) st"
  have port: "unat (localport srv) < 4096"
    using srv_invD(3) [OF assms(2)] srv_invD(5) [OF assms(2,4)] by simp
  note cid = close_id_control(1) [OF port] close_id_control(2) [OF port, of "Some i"]
  have a: "tx_inv ?a" using assms(1) tx_inv_cong [of ?a st] by simp
  have t: "tx_target (close_id srv) None ?a = tx_target (close_id srv) None st"
    and p: "tx_position ?a = tx_position st" by (simp_all add: tx_target_def tx_position_def fun_eq_iff)
  have "tx_target (close_id srv) None ?a < tx_slots ?a * 4096" using assms(6) t by simp
  from control_sent [OF a cid(2) this cid(1), of S False] obtain b where
    b: "queue_message S (Some i) (close_id srv) None False ?a = Ok () b" "tx_inv b" "same_table ?a b"
      "srv_state b = srv_state (update_service i (set_state CLOSESENT) ?a)"
      "read_message (slot_data (slot_state b)) (tx_position st (tx_target (close_id srv) None st)) =
        Ok (queued_message (close_id srv) None) ()"
    unfolding t p by (auto simp: sent_services_def)
  let ?c = "update_service i (set_state CLOSESENT) b"
  have "close_start S h st = Ok () ?c"
    using assms(3-5) b(1) by (simp add: close_start_def close_message_def close_id_def service_from_handle_lookup)
  moreover have "same_table st ?c"
    using same_table_trans [OF _ b(3), of st] by (simp add: same_table_update)
  moreover have "get_service ?c i = Some (srv\<lparr>closing := True, srvstate := CLOSESENT\<rparr>)"
    using assms(4) get_service_cong [OF b(4), of i] by (simp add: set_state_def)
  moreover have "tx_inv ?c" using b(2) tx_inv_cong [of ?c b] by simp
  ultimately show thesis using b(5) by (intro that [of ?c]) simp_all
qed

text \<open>The first poll of connecting sends the connect message and waits.\<close>

lemma connect_sends:
  assumes "sem_laws S cnt" "tx_inv st" "initialized st" "conn_state st = DISCONNECTED" "cnt (connect_sem st) = 0"
    and "tx_target connect_id None st < tx_slots st * 4096"
  obtains st' where "connect S st = Ok Pending st'" "conn_state st' = CONNECTING" "connect_sem st' = connect_sem st"
    "read_message (slot_data (slot_state st')) (tx_position st (tx_target connect_id None st)) =
       Ok (queued_message connect_id None) ()"
proof -
  have cm: "control_message (None, connect_id, None)" by (simp add: control_message_def context_size_def)
  obtain a where a: "queue_message S None connect_id None True st = Ok () a" "connect_sem a = connect_sem st"
      "read_message (slot_data (slot_state a)) (tx_position st (tx_target connect_id None st)) = Ok (queued_message connect_id None) ()"
    using control_sent [OF assms(2) cm assms(6) msg_ids(1)] by metis
  have d: "asem_down S (connect_sem st) = None"
    using down_lawD(1) [OF sem_lawsD(8) [OF assms(1)]] assms(5) by simp
  have "connect S st = Ok Pending (a\<lparr>conn_state := CONNECTING\<rparr>)"
    using assms(3,4) a d by (simp add: connect_def connect_poll_def connect_id_def)
  then show thesis by (rule that) (use a in simp_all)
qed

section \<open>Concrete states\<close>

lemma open_state_srv_inv: "srv_inv open_state"
proof -
  have s: "services_of open_state = (replicate 4096 None)[0 := Some demo_service]"
      "unused_service (srv_state open_state) = 1" "next_srv_handle open_state = 4097"
    using boot_fresh by (simp_all add: open_state_def fresh_state_def)
  then have "table_wf open_state" by (auto simp: table_wf_def nth_list_update split: if_splits)
  moreover have "case services_of open_state ! i of None \<Rightarrow> unat (1 :: usize) \<le> i
      | Some s \<Rightarrow> i < unat (1 :: usize) \<and> unat (localport s) = i \<and> srv_handle s < 4097" if "i < 4096" for i
    using that by (cases "i = 0") (simp_all add: s(1))
  ultimately show ?thesis
    using open_state_quotas(1) unfolding srv_inv_def s(2,3) by (simp add: s(1))
qed

lemma open_state_lookup: "lookup_handle open_state 4096 = Some 0"
  using services.lookup_key [OF srv_invD(4) [OF open_state_srv_inv] open_state_service] by simp

definition opening_service :: "nat service" where
  "opening_service = demo_service\<lparr>srvstate := OPENING, remoteport := VCHIQ_PORT_FREE\<rparr>"

definition opening_state :: "nat state" where
  "opening_state = update_service 0 (\<lambda>s. s\<lparr>srvstate := OPENING, remoteport := VCHIQ_PORT_FREE\<rparr>) open_state"

lemma opening_state_facts: "srv_inv opening_state" "lookup_handle opening_state 4096 = Some 0"
  "get_service opening_state 0 = Some opening_service"
proof -
  show "srv_inv opening_state" unfolding opening_state_def by (rule srv_inv_update [OF open_state_srv_inv]) simp_all
  have "same_table open_state opening_state" by (simp add: opening_state_def same_table_update)
  then show "lookup_handle opening_state 4096 = Some 0" using same_table_lookup open_state_lookup by metis
  show "get_service opening_state 0 = Some opening_service"
    by (simp add: opening_state_def opening_service_def open_state_service)
qed

lemma demo_remove_event: "remove_event demo_service = 0" "remove_event opening_service = 0"
  by (simp_all add: demo_service_def opening_service_def counter_sem_def)

definition as_instance :: "nat state \<Rightarrow> nat vchiq_instance" where
  "as_instance st = \<lparr>inst_state = st, connected = True, inst_completion = completion_default counter_sem\<rparr>"

definition answer :: "message_type \<Rightarrow> u32 \<Rightarrow> slot_message" where
  "answer ty r = \<lparr>header = \<lparr>msgid = make_msg_id ty r 0, msg_size = 0\<rparr>, msg_data = []\<rparr>"

lemma answer_to: "unat r < 4096 \<Longrightarrow> message_to ty r 0 (answer ty r)"
  by (simp add: message_to_def answer_def)

section \<open>Properties\<close>

text \<open>
  C15: Opening a service: while no answer has come the wait is pending; the acknowledgement of the
  VideoCore opens the service with the port it came from, and the wait ends with success.
\<close>

theorem open_handshake:
  assumes "sem_laws S cnt" "srv_inv (inst_state x)" "lookup_handle (inst_state x) h = Some i"
    and "get_service (inst_state x) i = Some srv" "srvstate srv = OPENING" "cnt (remove_event srv) = 0"
    and "message_to OPENACK r i m"
  shows "open_poll S h (inst_state x) = Ok Pending (inst_state x) \<and>
    (\<exists>y st srv'. handle_message S m x = Ok () y \<and> open_poll S h (inst_state y) = Ok (Ready ()) st \<and> srv_inv st \<and>
       get_service st i = Some srv' \<and> srvstate srv' = OPEN \<and> remoteport srv' = r)"
proof -
  let ?y = "on_state (handle_openack S i r m) x"
  have y: "inst_state ?y = handle_openack S i r m (inst_state x)" by (simp add: on_state_def)
  have h: "handle_message S m x = Ok () ?y"
    using assms(5) by (intro handle_openack_message [OF assms(7,4)]) simp
  obtain srv' where s: "get_service (inst_state ?y) i = Some srv'" "srvstate srv' = OPEN" "remoteport srv' = r"
      "remove_event srv' = sem_up S (remove_event srv)"
    using openack_service [OF assms(4,5)] unfolding y by blast
  have "lookup_handle (inst_state ?y) h = Some i"
    using same_table_lookup [OF handle_message_table [OF h]] assms(3) by simp
  from remove_event_ready [OF assms(1) this s(1)] s(4) sem_lawsD(4) [OF assms(1)]
  obtain e where e: "remove_event_poll S h (inst_state ?y) =
      Ok (Ready OPEN) (update_service i (\<lambda>s'. s'\<lparr>remove_event := e\<rparr>) (inst_state ?y))"
    using s(2) by auto
  have "srv_inv (inst_state ?y)" by (rule same_table_inv [OF handle_message_table [OF h] assms(2)])
  then have "srv_inv (update_service i (\<lambda>s'. s'\<lparr>remove_event := e\<rparr>) (inst_state ?y))" by (simp add: srv_inv_update)
  moreover have "open_poll S h (inst_state x) = Ok Pending (inst_state x)"
    using remove_event_pending [OF assms(1,3,4,6)] by (simp add: open_poll_def)
  ultimately show ?thesis using h e s by (fastforce simp: open_poll_def)
qed

theorem open_handshake_witness:
  "open_poll counter_sem 4096 opening_state = Ok Pending opening_state \<and>
   (\<exists>y st srv'. handle_message counter_sem (answer OPENACK 7) (as_instance opening_state) = Ok () y \<and>
      open_poll counter_sem 4096 (inst_state y) = Ok (Ready ()) st \<and> get_service st 0 = Some srv' \<and>
      srvstate srv' = OPEN \<and> remoteport srv' = 7)"
proof -
  have i: "inst_state (as_instance opening_state) = opening_state" by (simp add: as_instance_def)
  have o: "srvstate opening_service = OPENING" by (simp add: opening_service_def)
  have e: "id (remove_event opening_service) = 0" by (simp add: demo_remove_event)
  have m: "message_to OPENACK 7 0 (answer OPENACK 7)" by (rule answer_to) simp
  show ?thesis
    using open_handshake [OF counter_sem_laws, of "as_instance opening_state" 4096 0 opening_service 7 "answer OPENACK 7"]
      opening_state_facts o e m unfolding i by blast
qed

text \<open>
  C37: A refused service is reported as opened: when the VideoCore answers an open request with a close,
  the service ends in \<^verbatim>\<open>CLOSEWAIT\<close>, marked as closing, and \<^verbatim>\<open>open_service\<close> still returns success.
\<close>

theorem refusal_reported_as_success:
  assumes "sem_laws S cnt" "srv_inv (inst_state x)" "lookup_handle (inst_state x) h = Some i"
    and "get_service (inst_state x) i = Some srv" "srvstate srv = OPENING" "remoteport srv = VCHIQ_PORT_FREE"
    and "message_to CLOSE r i m"
  shows "\<exists>y st srv'. handle_message S m x = Ok () y \<and> open_poll S h (inst_state y) = Ok (Ready ()) st \<and>
    get_service st i = Some srv' \<and> srvstate srv' = CLOSEWAIT \<and> closing srv'"
proof -
  have "unat (localport srv) < length (quotas_of (inst_state x))"
    using srv_invD(2,3) [OF assms(2)] srv_invD(5) [OF assms(2,4)] by simp
  then obtain st srv' where c: "handle_close S i (inst_state x) = Ok () st" "get_service st i = Some srv'"
      "srvstate srv' = CLOSEWAIT" "closing srv'" "remove_event srv' = sem_up S (remove_event srv)"
    by (rule handle_close_opening [OF assms(4,5)])
  have h: "handle_message S m x = Ok () (x\<lparr>inst_state := st\<rparr>)"
    using handle_close_message [OF assms(7,4)] assms(5,6) c(1) by simp
  have "lookup_handle st h = Some i"
    using same_table_lookup [OF handle_close_table [OF c(1)]] assms(3) by simp
  from remove_event_ready [OF assms(1) this c(2)] c(5) sem_lawsD(4) [OF assms(1)]
  obtain e where "remove_event_poll S h st = Ok (Ready CLOSEWAIT) (update_service i (\<lambda>s'. s'\<lparr>remove_event := e\<rparr>) st)"
    using c(3) by auto
  then have "open_poll S h st = Ok (Ready ()) (update_service i (\<lambda>s'. s'\<lparr>remove_event := e\<rparr>) st)"
    by (simp add: open_poll_def)
  with h c show ?thesis by fastforce
qed

theorem refusal_reported_as_success_witness:
  "\<exists>y st srv'. handle_message counter_sem (answer CLOSE 0) (as_instance opening_state) = Ok () y \<and>
    open_poll counter_sem 4096 (inst_state y) = Ok (Ready ()) st \<and>
    get_service st 0 = Some srv' \<and> srvstate srv' = CLOSEWAIT \<and> closing srv'"
proof -
  have i: "inst_state (as_instance opening_state) = opening_state" by (simp add: as_instance_def)
  have o: "srvstate opening_service = OPENING" "remoteport opening_service = VCHIQ_PORT_FREE"
    by (simp_all add: opening_service_def)
  have m: "message_to CLOSE 0 0 (answer CLOSE 0)" by (rule answer_to) simp
  show ?thesis
    using refusal_reported_as_success [OF counter_sem_laws, of "as_instance opening_state" 4096 0 opening_service 0 "answer CLOSE 0"]
      opening_state_facts o m unfolding i by blast
qed

text \<open>
  C38: A close that the VideoCore starts is not completed: the service stays open, only marked as closing;
  nothing is sent in answer, it is not freed, and from then on every data message for it is refused.
\<close>

theorem remote_close_left_open:
  assumes "srv_inv (inst_state x)" "get_service (inst_state x) i = Some srv" "srvstate srv = OPEN"
    and "remoteport srv = r" "message_to CLOSE r i m"
  shows "\<exists>y. handle_message S m x = Ok () y \<and> get_service (inst_state y) i = Some (srv\<lparr>closing := True\<rparr>) \<and> slots_of y = slots_of x \<and>
    (\<forall>msg_id c b. msg_type_from_id msg_id = Some DATA \<longrightarrow>
      queue_message S (Some i) msg_id c b (inst_state y) =
        Err (VchiqErr (ServiceAlreadyClosed (srv_handle srv))) (inst_state y))"
proof -
  have "unat (localport srv) < length (quotas_of (inst_state x))"
    using srv_invD(2,3) [OF assms(1)] srv_invD(5) [OF assms(1,2)] by simp
  then obtain st where c: "handle_close S i (inst_state x) = Ok () st" "get_service st i = Some (srv\<lparr>closing := True\<rparr>)"
    by (rule handle_close_open [OF assms(2,3)])
  have "handle_message S m x = Ok () (x\<lparr>inst_state := st\<rparr>)"
    using handle_close_message [OF assms(5,2)] assms(3,4) c(1) by simp
  with c(2) handle_message_slots_of [OF this] show ?thesis by (auto simp: queue_message_def data_quota_check_def)
qed

theorem remote_close_left_open_witness:
  "\<exists>y. handle_message counter_sem (answer CLOSE 1) (as_instance open_state) = Ok () y \<and>
    get_service (inst_state y) 0 = Some (demo_service\<lparr>closing := True\<rparr>) \<and>
    queue_message counter_sem (Some 0) data_id None True (inst_state y) =
      Err (VchiqErr (ServiceAlreadyClosed 4096)) (inst_state y)"
proof -
  have i: "inst_state (as_instance open_state) = open_state" by (simp add: as_instance_def)
  have m: "message_to CLOSE 1 0 (answer CLOSE 1)" by (rule answer_to) simp
  obtain y where "handle_message counter_sem (answer CLOSE 1) (as_instance open_state) = Ok () y"
      "get_service (inst_state y) 0 = Some (demo_service\<lparr>closing := True\<rparr>)"
      "\<And>msg_id c b. msg_type_from_id msg_id = Some DATA \<Longrightarrow> queue_message counter_sem (Some 0) msg_id c b (inst_state y) =
        Err (VchiqErr (ServiceAlreadyClosed (srv_handle demo_service))) (inst_state y)"
    using remote_close_left_open [of "as_instance open_state" 0 demo_service 1 "answer CLOSE 1" counter_sem]
      open_state_srv_inv open_state_service m unfolding i by auto
  then show ?thesis by (intro exI [of _ y]) simp
qed

text \<open>
  C16: Closing an open service: the close message reaches the stream, the wait is pending, and the
  answer of the VideoCore frees the service and ends the wait with success.
\<close>

theorem close_handshake:
  assumes "sem_laws S cnt" "tx_inv st" "srv_inv st" "lookup_handle st h = Some i" "get_service st i = Some srv"
    and "srvstate srv = OPEN" "cnt (remove_event srv) = 0" "tx_target (close_id srv) None st < tx_slots st * 4096"
    and "message_to CLOSE r i m" "remoteport srv = r"
  shows "\<exists>st1. close_service S h st = Ok Pending st1 \<and>
    read_message (slot_data (slot_state st1)) (tx_position st (tx_target (close_id srv) None st)) =
      Ok (queued_message (close_id srv) None) () \<and>
    (\<exists>y st2 srv'. handle_message S m \<lparr>inst_state = st1, connected = True, inst_completion = c\<rparr> = Ok () y \<and>
       close_poll S h (inst_state y) = Ok (Ready ()) st2 \<and> srv_inv st2 \<and>
       get_service st2 i = Some srv' \<and> srvstate srv' = FREE)"
proof -
  obtain st1 where s: "close_start S h st = Ok () st1" "same_table st st1"
      "get_service st1 i = Some (srv\<lparr>closing := True, srvstate := CLOSESENT\<rparr>)"
      "read_message (slot_data (slot_state st1)) (tx_position st (tx_target (close_id srv) None st)) =
        Ok (queued_message (close_id srv) None) ()"
    using close_start_open [OF assms(2-6,8)] by metis
  let ?srv = "srv\<lparr>closing := True, srvstate := CLOSESENT\<rparr>"
  have l1: "lookup_handle st1 h = Some i" using same_table_lookup [OF s(2)] assms(4) by simp
  have i1: "srv_inv st1" by (rule same_table_inv [OF s(2) assms(3)])
  have pend: "close_service S h st = Ok Pending st1"
    using s(1) remove_event_pending [OF assms(1) l1 s(3)] assms(7) by (simp add: close_service_def close_poll_def)
  have "unat (localport ?srv) < length (quotas_of st1)"
    using srv_invD(2,3) [OF i1] srv_invD(5) [OF i1 s(3)] by simp
  then obtain t srv' where t: "handle_close S i st1 = Ok () t" "get_service t i = Some srv'" "srvstate srv' = FREE"
      "remove_event srv' = sem_up S (remove_event srv)"
    using handle_close_sent [OF s(3)] by (metis service.select_convs(5) service.select_convs(20)
        service.surjective service.update_convs(5) service.update_convs(12))
  let ?x = "\<lparr>inst_state = st1, connected = True, inst_completion = c\<rparr>"
  have h: "handle_message S m ?x = Ok () (?x\<lparr>inst_state := t\<rparr>)"
    using handle_close_message [OF assms(9), of ?x ?srv S] s(3) assms(10) t(1) by simp
  have lt: "lookup_handle t h = Some i" using same_table_lookup [OF handle_close_table [OF t(1)]] l1 by simp
  from remove_event_ready [OF assms(1) lt t(2)] t(4) sem_lawsD(4) [OF assms(1)]
  obtain e where e: "remove_event_poll S h t = Ok (Ready FREE) (update_service i (\<lambda>s'. s'\<lparr>remove_event := e\<rparr>) t)"
    using t(3) by auto
  have "srv_inv t" by (rule same_table_inv [OF handle_close_table [OF t(1)] i1])
  then have "srv_inv (update_service i (\<lambda>s'. s'\<lparr>remove_event := e\<rparr>) t)" by (simp add: srv_inv_update)
  moreover have "close_poll S h t = Ok (Ready ()) (update_service i (\<lambda>s'. s'\<lparr>remove_event := e\<rparr>) t)"
    using e by (simp add: close_poll_def)
  ultimately show ?thesis using pend s(4) h t by fastforce
qed

lemma small_message_target:
  assumes "tx_of st = 0" "tx_slots st = 31"
  shows "tx_target i None st < tx_slots st * 4096"
  using tx_target_small [OF assms(1), of None i] assms(2) by (simp add: context_size_def)

theorem close_handshake_witness:
  "\<exists>st1. close_service counter_sem 4096 open_state = Ok Pending st1 \<and>
    (\<exists>y st2 srv'. handle_message counter_sem (answer CLOSE 1) (as_instance st1) = Ok () y \<and>
       close_poll counter_sem 4096 (inst_state y) = Ok (Ready ()) st2 \<and>
       get_service st2 0 = Some srv' \<and> srvstate srv' = FREE)"
proof -
  have m: "message_to CLOSE 1 0 (answer CLOSE 1)" by (rule answer_to) simp
  have e: "id (remove_event demo_service) = 0" by (simp add: demo_remove_event)
  show ?thesis
    using close_handshake [OF counter_sem_laws open_state_inv(1) open_state_srv_inv open_state_lookup open_state_service _ e
        small_message_target [OF open_state_inv(2,3)] m, of "completion_default counter_sem"]
    unfolding as_instance_def by auto
qed

text \<open>
  Connecting: the connect message is sent, the wait is pending, and the answer of the VideoCore
  ends it in state \<^verbatim>\<open>CONNECTED\<close>.
\<close>

theorem connect_handshake:
  assumes "sem_laws S cnt" "tx_inv st" "initialized st" "conn_state st = DISCONNECTED" "cnt (connect_sem st) = 0"
    and "tx_target connect_id None st < tx_slots st * 4096" "message_to CONNECT 0 0 m"
  shows "\<exists>st1. connect S st = Ok Pending st1 \<and> conn_state st1 = CONNECTING \<and>
    read_message (slot_data (slot_state st1)) (tx_position st (tx_target connect_id None st)) =
      Ok (queued_message connect_id None) () \<and>
    (\<exists>y st2. handle_message S m \<lparr>inst_state = st1, connected = False, inst_completion = c\<rparr> = Ok () y \<and>
       connect_poll S (inst_state y) = Ok (Ready ()) st2 \<and> conn_state st2 = CONNECTED)"
proof -
  obtain a where a: "connect S st = Ok Pending a" "conn_state a = CONNECTING" "connect_sem a = connect_sem st"
      "read_message (slot_data (slot_state a)) (tx_position st (tx_target connect_id None st)) = Ok (queued_message connect_id None) ()"
    by (rule connect_sends [OF assms(1-6)])
  moreover obtain s where "asem_down S (asem_up S (connect_sem st)) = Some s"
    using down_lawD(2) [OF sem_lawsD(8) [OF assms(1)], of "asem_up S (connect_sem st)"] sem_lawsD(5) [OF assms(1)] by auto
  moreover have "handle_message S m x = Ok () (on_state (\<lambda>st. st\<lparr>connect_sem := asem_up S (connect_sem st)\<rparr>) x)" for x
    unfolding handle_message_def Let_def message_toD(1-3) [OF assms(7)] by (simp add: handler_service_def)
  ultimately show ?thesis using a by (auto simp: connect_poll_def on_state_def)
qed

theorem connect_handshake_witness:
  "\<exists>st1. connect counter_sem (boot_state\<lparr>initialized := True\<rparr>) = Ok Pending st1 \<and> conn_state st1 = CONNECTING \<and>
    (\<exists>y st2. handle_message counter_sem (answer CONNECT 0)
         \<lparr>inst_state = st1, connected = False, inst_completion = completion_default counter_sem\<rparr> = Ok () y \<and>
       connect_poll counter_sem (inst_state y) = Ok (Ready ()) st2 \<and> conn_state st2 = CONNECTED)"
proof -
  let ?st = "boot_state\<lparr>initialized := True\<rparr>"
  have b: "tx_inv ?st" "conn_state ?st = DISCONNECTED" "id (connect_sem ?st) = 0" "tx_of ?st = 0" "tx_slots ?st = 31"
    using boot_tx_inv boot_tx boot_fresh tx_inv_cong [of ?st boot_state] by (simp_all add: fresh_state_def counter_sem_def)
  have m: "message_to CONNECT 0 0 (answer CONNECT 0)" by (rule answer_to) simp
  show ?thesis
    using connect_handshake [OF counter_sem_laws b(1) _ b(2,3) small_message_target [OF b(4,5)] m,
        of "completion_default counter_sem"] by auto
qed

end
