(* ===== verification/Lifecycle.thy ===== *)
theory Lifecycle
  imports Handshake
begin

text \<open>
  The life cycle of a service and the invariant of the state.  Every operation on the state, sending and
  receiving included, is a sequence of primitive effects (\<open>effect\<close>); the invariant and the order of the
  service states are shown for the primitive effects once and hold for all operations.
\<close>

section \<open>The life cycle\<close>

text \<open>
  The changes of the state of a service: the VideoCore accepts or refuses an opening service, the client
  closes it, and the answer of the VideoCore, or the close of a refused service, frees it.
\<close>

inductive lifecycle :: "service_state \<Rightarrow> service_state \<Rightarrow> bool" where
  accepted: "lifecycle OPENING OPEN"
| refused: "lifecycle OPENING CLOSEWAIT"
| cancelled: "lifecycle OPENING CLOSESENT"
| closed: "lifecycle OPEN CLOSESENT"
| released: "lifecycle CLOSEWAIT FREE"
| completed: "lifecycle CLOSESENT FREE"

inductive_simps lifecycle_simps:
  "lifecycle FREE s" "lifecycle CLOSESENT s" "lifecycle CLOSEWAIT s" "lifecycle OPEN s" "lifecycle OPENING s"

abbreviation lifecycle_path :: "service_state \<Rightarrow> service_state \<Rightarrow> bool" where
  "lifecycle_path \<equiv> lifecycle\<^sup>*\<^sup>*"

lemma lifecycle_path_unfold: "lifecycle_path a b \<longleftrightarrow> a = b \<or> (\<exists>c. lifecycle a c \<and> lifecycle_path c b)"
  by (metis converse_rtranclpE converse_rtranclp_into_rtranclp rtranclp.rtrancl_refl)

lemma lifecycle_path_simps [simp]:
  "lifecycle_path FREE s \<longleftrightarrow> s = FREE"
  "lifecycle_path CLOSESENT s \<longleftrightarrow> s = CLOSESENT \<or> s = FREE"
  "lifecycle_path CLOSEWAIT s \<longleftrightarrow> s = CLOSEWAIT \<or> s = FREE"
  "lifecycle_path OPEN s \<longleftrightarrow> s = OPEN \<or> s = CLOSESENT \<or> s = FREE"
  "lifecycle_path OPENING s \<longleftrightarrow> s \<in> {OPENING, OPEN, CLOSEWAIT, CLOSESENT, FREE}"
proof -
  show f: "lifecycle_path FREE s \<longleftrightarrow> s = FREE" for s
    by (subst lifecycle_path_unfold) (auto simp: lifecycle_simps)
  show c: "lifecycle_path CLOSESENT s \<longleftrightarrow> s = CLOSESENT \<or> s = FREE" for s
    by (subst lifecycle_path_unfold) (auto simp: lifecycle_simps f)
  show w: "lifecycle_path CLOSEWAIT s \<longleftrightarrow> s = CLOSEWAIT \<or> s = FREE" for s
    by (subst lifecycle_path_unfold) (auto simp: lifecycle_simps f)
  show o: "lifecycle_path OPEN s \<longleftrightarrow> s = OPEN \<or> s = CLOSESENT \<or> s = FREE" for s
    by (subst lifecycle_path_unfold) (auto simp: lifecycle_simps c)
  show "lifecycle_path OPENING s \<longleftrightarrow> s \<in> {OPENING, OPEN, CLOSEWAIT, CLOSESENT, FREE}"
    by (subst lifecycle_path_unfold) (auto simp: lifecycle_simps c w o)
qed

text \<open>What holds of a service in the table between two operations.\<close>

definition user_part_ok :: "'sem service \<Rightarrow> bool" where
  "user_part_ok s \<longleftrightarrow> (case base_userdata s of Some (UD_ServiceUser us) \<Rightarrow> length (msg_queue us) = 128 | _ \<Rightarrow> False)"

definition srv_ok :: "'sem service \<Rightarrow> bool" where
  "srv_ok s \<longleftrightarrow>
     srvstate s \<in> {OPENING, OPEN, CLOSEWAIT, CLOSESENT, FREE} \<and>
     (unat (remoteport s) < 4096 \<or> remoteport s = VCHIQ_PORT_FREE \<and> srvstate s \<noteq> OPEN) \<and>
     (srvstate s \<in> {CLOSEWAIT, CLOSESENT, FREE} \<longrightarrow> closing s) \<and>
     base_callback s = Some InternalCallback \<and> user_part_ok s"

text \<open>How a service may change: its identity stays, closing is final, and its state follows the life cycle.\<close>

definition srv_moves :: "'sem service \<Rightarrow> 'sem service \<Rightarrow> bool" where
  "srv_moves s s' \<longleftrightarrow>
     srv_handle s' = srv_handle s \<and> localport s' = localport s \<and> (closing s \<longrightarrow> closing s') \<and>
     lifecycle_path (srvstate s) (srvstate s')"

definition srv_step :: "'sem service \<Rightarrow> 'sem service \<Rightarrow> bool" where
  "srv_step s s' \<longleftrightarrow> srv_moves s s' \<and> (srv_ok s \<longrightarrow> srv_ok s')"

lemma srv_moves_refl [simp]: "srv_moves s s"
  by (simp add: srv_moves_def)

lemma srv_step_refl [simp]: "srv_step s s"
  by (simp add: srv_step_def)

lemma srv_moves_trans: "srv_moves a b \<Longrightarrow> srv_moves b c \<Longrightarrow> srv_moves a c"
  unfolding srv_moves_def by (auto intro: rtranclp_trans)

section \<open>The invariant of the state\<close>

definition quotas_granted :: "'sem state \<Rightarrow> bool" where
  "quotas_granted st \<longleftrightarrow> (\<forall>q \<in> set (quotas_of st). slot_quota q \<le> default_slot_quota st)"

definition state_inv :: "nat \<Rightarrow> 'sem state \<Rightarrow> bool" where
  "state_inv k st \<longleftrightarrow>
     tx_inv st \<and> srv_inv st \<and> quota_inv st \<and> quotas_granted st \<and>
     (\<forall>i s. get_service st i = Some s \<longrightarrow> srv_ok s) \<and> unat (next_srv_handle st) \<le> k \<and>
     conn_state st \<in> {DISCONNECTED, CONNECTING, CONNECTED}"

lemma state_invD:
  assumes "state_inv k st"
  shows "tx_inv st" "srv_inv st" "quota_inv st" "quotas_granted st" "get_service st i = Some s \<Longrightarrow> srv_ok s"
    "unat (next_srv_handle st) \<le> k" "conn_state st \<in> {DISCONNECTED, CONNECTING, CONNECTED}"
  using assms by (auto simp: state_inv_def)

text \<open>What two states of a run have in common: services stay and move along their life cycle, and an
  established connection stays.\<close>

definition evolves :: "'sem state \<Rightarrow> 'sem state \<Rightarrow> bool" where
  "evolves st st' \<longleftrightarrow>
     (conn_state st = CONNECTED \<longrightarrow> conn_state st' = CONNECTED) \<and>
     (\<forall>i s. get_service st i = Some s \<longrightarrow> (\<exists>s'. get_service st' i = Some s' \<and> srv_moves s s'))"

lemma evolvesI:
  assumes "conn_state st = CONNECTED \<Longrightarrow> conn_state st' = CONNECTED"
    and "\<And>i s. get_service st i = Some s \<Longrightarrow> \<exists>s'. get_service st' i = Some s' \<and> srv_moves s s'"
  shows "evolves st st'"
  using assms unfolding evolves_def by blast

lemma evolvesD:
  assumes "evolves st st'"
  shows "conn_state st = CONNECTED \<Longrightarrow> conn_state st' = CONNECTED"
    "get_service st i = Some s \<Longrightarrow> \<exists>s'. get_service st' i = Some s' \<and> srv_moves s s'"
  using assms unfolding evolves_def by blast+

lemma evolves_refl [simp]: "evolves st st"
  by (rule evolvesI) (simp_all add: exI [of _ s for s])

lemma evolves_trans:
  assumes "evolves a b" "evolves b c"
  shows "evolves a c"
proof (rule evolvesI)
  show "conn_state a = CONNECTED \<Longrightarrow> conn_state c = CONNECTED" using assms by (blast dest: evolvesD(1))
  fix i s
  assume "get_service a i = Some s"
  from evolvesD(2) [OF assms(1) this] obtain s' where s': "get_service b i = Some s'" "srv_moves s s'" by blast
  from evolvesD(2) [OF assms(2) s'(1)] obtain s'' where "get_service c i = Some s''" "srv_moves s' s''" by blast
  with s'(2) show "\<exists>s'. get_service c i = Some s' \<and> srv_moves s s'" by (blast intro: srv_moves_trans)
qed

section \<open>Primitive effects\<close>

definition set_data_event :: "'sem \<Rightarrow> 'sem state \<Rightarrow> 'sem state" where
  "set_data_event s st = st\<lparr>data_quota_event := s\<rparr>"

definition set_connection :: "'sem \<Rightarrow> connect_state \<Rightarrow> 'sem state \<Rightarrow> 'sem state" where
  "set_connection s c st = st\<lparr>connect_sem := s, conn_state := c\<rparr>"

definition conn_progress :: "connect_state \<Rightarrow> connect_state \<Rightarrow> bool" where
  "conn_progress a b \<longleftrightarrow> b = a \<or> b = CONNECTED \<or> a \<noteq> CONNECTED \<and> b = CONNECTING"

definition set_slots :: "'sem slot_state \<Rightarrow> 'sem state \<Rightarrow> 'sem state" where
  "set_slots ss st = st\<lparr>slot_state := ss\<rparr>"

definition event_change :: "('sem service_quota \<Rightarrow> 'sem service_quota) \<Rightarrow> bool" where
  "event_change f \<longleftrightarrow> (\<forall>q. \<exists>e. f q = q\<lparr>quota_event := e\<rparr>)"

text \<open>The receiving side of the slots may change, the sending side not.\<close>

definition same_tx :: "'sem slot_state \<Rightarrow> 'sem slot_state \<Rightarrow> bool" where
  "same_tx ss ss' \<longleftrightarrow>
     local_tx_pos ss' = local_tx_pos ss \<and> tx_data ss' = tx_data ss \<and>
     slot_queue (sz_local (slot_zero ss')) = slot_queue (sz_local (slot_zero ss)) \<and>
     slot_len (slot_data ss') = slot_len (slot_data ss)"

text \<open>A close message moves its service along the life cycle.\<close>

definition close_allowed :: "nat option \<Rightarrow> u32 \<Rightarrow> 'sem state \<Rightarrow> bool" where
  "close_allowed service msg_id st \<longleftrightarrow>
     (msg_type_from_id msg_id = Some CLOSE \<longrightarrow>
       (case service of
          None \<Rightarrow> True
        | Some i \<Rightarrow> (case get_service st i of None \<Rightarrow> True | Some s \<Rightarrow> srv_step s (set_state CLOSESENT s))))"

inductive effect :: "'sem sem_ops \<Rightarrow> 'sem state \<Rightarrow> 'sem state \<Rightarrow> bool" for S where
  on_service: "get_service st i = Some s \<Longrightarrow> srv_step s (f s) \<Longrightarrow> effect S st (update_service i f st)"
| on_quota_event: "event_change f \<Longrightarrow> effect S st (update_quota i f st)"
| on_data_event: "effect S st (set_data_event s st)"
| on_connection: "conn_progress (conn_state st) c \<Longrightarrow> effect S st (set_connection s c st)"
| on_slots: "same_tx (slot_state st) ss \<Longrightarrow> effect S st (set_slots ss st)"
| on_send: "queue_message S service msg_id c b st = Ok () st' \<Longrightarrow> context_size c \<le> 4088 \<Longrightarrow>
    close_allowed service msg_id st \<Longrightarrow> effect S st st'"

abbreviation effects :: "'sem sem_ops \<Rightarrow> 'sem state \<Rightarrow> 'sem state \<Rightarrow> bool" where
  "effects S \<equiv> (effect S)\<^sup>*\<^sup>*"

lemma queued_state_frame:
  "default_slot_quota (queued_state service ty msg_id c t st) = default_slot_quota st"
  "default_message_quota (queued_state service ty msg_id c t st) = default_message_quota st"
  "initialized (queued_state service ty msg_id c t st) = initialized st"
  by (simp_all add: queued_state_def Let_def reserved_def publish_tx_pos_def signal_videocore_def split_def update_service_def
      split: option.splits)

lemma queued_get_service:
  "get_service (queued_state service ty msg_id c t st) i =
     (if ty = CLOSE \<and> service = Some i then map_option (set_state CLOSESENT) (get_service st i) else get_service st i)"
proof -
  have "srv_state (queued_state service ty msg_id c t st) =
      srv_state (case service of Some j \<Rightarrow> if ty = CLOSE then update_service j (set_state CLOSESENT) st else st | None \<Rightarrow> st)"
    by (simp add: queued_state_simps sent_services_def split: option.splits)
  from get_service_cong [OF this, of i] show ?thesis by (auto split: option.splits)
qed

lemma set_update_cases: "x \<in> set (xs[i := v]) \<Longrightarrow> x \<in> set xs \<or> i < length xs \<and> x = v"
  by (metis insertE list_update_beyond not_le set_update_subset_insert subsetD)

lemma queued_granted:
  assumes "quotas_granted st"
  shows "quotas_granted (queued_state service ty msg_id c t st)"
proof -
  have "slot_quota q \<le> default_slot_quota st" if "q \<in> set (service_quotas (accounted ty srv idx (quota_state st)))" for q srv idx
  proof (cases "ty = DATA \<and> srv \<noteq> None")
    case True
    then obtain s where s: "srv = Some s" by auto
    let ?p = "unat (localport s)"
    have "service_quotas (accounted ty srv idx (quota_state st)) = (quotas_of st)[?p := account_service idx (quotas_of st ! ?p)]"
      using True s by (simp add: accounted_def account_data_def Let_def)
    moreover have "slot_quota (account_service idx q) = slot_quota q" for q :: "'a service_quota"
      by (simp add: account_service_def)
    ultimately show ?thesis
      using that assms by (auto simp: quotas_granted_def dest!: set_update_cases)
  next
    case False
    then have "accounted ty srv idx (quota_state st) = quota_state st" by (auto simp: accounted_def split: option.splits)
    with that assms show ?thesis by (simp add: quotas_granted_def)
  qed
  then show ?thesis by (simp add: quotas_granted_def queued_state_simps queued_state_frame)
qed

section \<open>Effects keep the invariant\<close>

text \<open>Changes that do not touch what the invariant of the state mentions.\<close>

lemma state_inv_cong:
  assumes "state_inv k st" "slot_queue_available st' = slot_queue_available st" "same_tx (slot_state st) (slot_state st')"
    "srv_state st' = srv_state st" "quota_state st' = quota_state st" "default_slot_quota st' = default_slot_quota st"
    "next_srv_handle st' = next_srv_handle st" "conn_progress (conn_state st) (conn_state st')"
  shows "state_inv k st'"
proof -
  have "tx_inv st' = tx_inv st" using assms(2,3) by (intro tx_inv_cong) (simp_all add: same_tx_def)
  moreover have "srv_inv st' = srv_inv st" using assms(4,5,7) by (intro srv_inv_cong) simp_all
  moreover have "get_service st' i = get_service st i" for i using assms(4) by (rule get_service_cong)
  ultimately show ?thesis
    using assms(1,5-8) by (auto simp: state_inv_def quota_inv_def quotas_granted_def conn_progress_def)
qed

lemma same_tx_refl [simp]: "same_tx ss ss"
  by (simp add: same_tx_def)

lemma service_effect:
  assumes "state_inv k st" "get_service st i = Some s" "srv_step s (f s)"
  shows "state_inv k (update_service i f st) \<and> evolves st (update_service i f st)"
proof
  note d = state_invD [OF assms(1)]
  have m: "srv_moves s (f s)" "srv_ok (f s)" using assms(3) d(5) [OF assms(2)] by (simp_all add: srv_step_def)
  have "same_table st (update_service i f st)"
    using assms(2) m(1) by (intro same_table_entry_update) (simp add: srv_moves_def)
  then have "srv_inv (update_service i f st)" using d(2) by (rule same_table_inv)
  moreover have "tx_inv (update_service i f st)" using d(1) tx_inv_cong [of "update_service i f st" st] by simp
  moreover have "srv_ok s'" if "get_service (update_service i f st) j = Some s'" for j s'
    using that assms(2) m(2) d(5) by (auto split: if_splits)
  moreover have "default_slot_quota (update_service i f st) = default_slot_quota st" by (simp add: update_service_def)
  ultimately show "state_inv k (update_service i f st)"
    using d(3,4,6,7) by (simp add: state_inv_def quota_inv_def quotas_granted_def)
  show "evolves st (update_service i f st)"
    using assms(2) m(1) by (intro evolvesI) auto
qed

lemma quota_event_effect:
  assumes "state_inv k st" "event_change f"
  shows "state_inv k (update_quota i f st) \<and> evolves st (update_quota i f st)"
proof
  note d = state_invD [OF assms(1)]
  have f: "slot_use_count (f q) = slot_use_count q" "slot_quota (f q) = slot_quota q" for q
  proof -
    obtain e where "f q = q\<lparr>quota_event := e\<rparr>" using assms(2) unfolding event_change_def by blast
    then show "slot_use_count (f q) = slot_use_count q" "slot_quota (f q) = slot_quota q" by simp_all
  qed
  have q: "\<exists>q' \<in> set (quotas_of st). slot_use_count q = slot_use_count q' \<and> slot_quota q = slot_quota q'"
    if "q \<in> set (quotas_of (update_quota i f st))" for q
    using that f by (auto simp: update_quota_def dest!: set_update_cases intro: nth_mem)
  have "tx_inv (update_quota i f st)" using d(1) tx_inv_cong [of "update_quota i f st" st] by simp
  moreover have "srv_inv (update_quota i f st)" using d(2) srv_inv_cong [of "update_quota i f st" st] by simp
  moreover have "quota_inv (update_quota i f st)" using d(3) q unfolding quota_inv_def by fastforce
  moreover have "quotas_granted (update_quota i f st)"
    using d(4) q unfolding quotas_granted_def by (fastforce simp: update_quota_def)
  ultimately show "state_inv k (update_quota i f st)" using d(5-7) by (simp add: state_inv_def)
  show "evolves st (update_quota i f st)" by (rule evolvesI) auto
qed

lemma send_effect:
  assumes "sem_laws S cnt" "state_inv k st" "queue_message S service msg_id c b st = Ok () st'" "context_size c \<le> 4088"
    and "close_allowed service msg_id st"
  shows "state_inv k st' \<and> evolves st st'"
proof
  note d = state_invD [OF assms(2)]
  obtain ty where ty: "msg_type_from_id msg_id = Some ty" "tx_target msg_id c st < tx_slots st * 4096"
      "st' = queued_state service ty msg_id c (tx_target msg_id c st) st"
    by (rule queue_message_Ok [OF assms(1) d(1) assms(4,3)])
  have g: "\<exists>s'. get_service st' i = Some s' \<and> srv_moves s s' \<and> srv_ok s'" if "get_service st i = Some s" for i s
    using that d(5) [OF that] assms(5) ty(1)
    by (auto simp: ty(3) queued_get_service close_allowed_def srv_step_def)
  have "srv_ok s'" if "get_service st' i = Some s'" for i s'
  proof -
    from that obtain s where "get_service st i = Some s" by (auto simp: ty(3) queued_get_service split: if_splits)
    with g [OF this] that show ?thesis by auto
  qed
  moreover have "tx_inv st'" unfolding ty(3) by (rule queued_facts(1) [OF d(1) assms(4) ty(2)])
  moreover have "srv_inv st'" using queue_message_srv_inv [OF assms(1) d(1) assms(4,3) d(2)] .
  moreover have "quota_inv st'" using queued_quota_inv [OF assms(1) d(1,3) assms(4,3)] .
  moreover have "quotas_granted st'" unfolding ty(3) by (rule queued_granted [OF d(4)])
  moreover have "next_srv_handle st' = next_srv_handle st" by (simp add: ty(3) queued_state_simps)
  moreover have "conn_state st' = conn_state st" by (simp add: ty(3) queued_state_simps)
  ultimately show "state_inv k st'" using d(6,7) by (simp add: state_inv_def)
  show "evolves st st'"
    using g by (intro evolvesI) (auto simp: ty(3) queued_state_simps)
qed

lemma frame_effect:
  assumes "state_inv k st" "slot_queue_available st' = slot_queue_available st" "same_tx (slot_state st) (slot_state st')"
    "srv_state st' = srv_state st" "quota_state st' = quota_state st" "default_slot_quota st' = default_slot_quota st"
    "next_srv_handle st' = next_srv_handle st" "conn_progress (conn_state st) (conn_state st')"
  shows "state_inv k st' \<and> evolves st st'"
proof
  show "state_inv k st'" using assms by (rule state_inv_cong)
  show "evolves st st'"
    using assms(8) by (intro evolvesI) (auto simp: get_service_cong [OF assms(4)] conn_progress_def)
qed

lemma effect_sound:
  assumes "sem_laws S cnt" "effect S st st'" "state_inv k st"
  shows "state_inv k st' \<and> evolves st st'"
  using assms(2)
proof (cases rule: effect.cases)
  case (on_service i s f)
  show ?thesis unfolding on_service(1) by (rule service_effect [where f = f, OF assms(3) on_service(2,3)])
next
  case (on_quota_event f i)
  show ?thesis unfolding on_quota_event(1) by (rule quota_event_effect [OF assms(3) on_quota_event(2)])
next
  case (on_data_event s)
  show ?thesis unfolding on_data_event by (rule frame_effect [OF assms(3)]) (simp_all add: set_data_event_def conn_progress_def)
next
  case (on_connection c s)
  show ?thesis
    unfolding on_connection(1) by (rule frame_effect [OF assms(3)]) (use on_connection(2) in \<open>auto simp: set_connection_def\<close>)
next
  case (on_slots ss)
  show ?thesis
    unfolding on_slots(1) by (rule frame_effect [OF assms(3)]) (use on_slots(2) in \<open>simp_all add: set_slots_def conn_progress_def\<close>)
next
  case (on_send service msg_id c b)
  then show ?thesis by (rule send_effect [OF assms(1,3)])
qed

lemma effects_sound:
  assumes "sem_laws S cnt" "effects S st st'" "state_inv k st"
  shows "state_inv k st'" "evolves st st'"
proof -
  from assms(2,3) have "state_inv k st' \<and> evolves st st'"
  proof (induction rule: rtranclp_induct)
    case base
    then show ?case by simp
  next
    case (step y z)
    then show ?case using effect_sound [OF assms(1) step.hyps(2)] by (blast intro: evolves_trans)
  qed
  then show "state_inv k st'" "evolves st st'" by simp_all
qed

section \<open>Operations are sequences of effects\<close>

lemma effects_service:
  assumes "get_service st i = Some s" "srv_step s (f s)"
  shows "effects S st (update_service i f st)"
  by (rule r_into_rtranclp, rule effect.on_service [where f = f, OF assms])

text \<open>Changes of a service that keep its identity and its life.\<close>

definition incidental :: "('sem service \<Rightarrow> 'sem service) \<Rightarrow> bool" where
  "incidental f \<longleftrightarrow> (\<forall>s. srv_handle (f s) = srv_handle s \<and> localport (f s) = localport s \<and> (closing s \<longrightarrow> closing (f s)) \<and>
     srvstate (f s) = srvstate s \<and> remoteport (f s) = remoteport s \<and> base_callback (f s) = base_callback s \<and>
     base_userdata (f s) = base_userdata s)"

lemma incidental_step: "incidental f \<Longrightarrow> srv_step s (f s)"
  by (simp add: incidental_def srv_step_def srv_moves_def srv_ok_def user_part_ok_def)

lemma incidental_simps [simp]:
  "incidental (\<lambda>s. s\<lparr>closing := True\<rparr>)" "incidental (\<lambda>s. s\<lparr>remove_event := e\<rparr>)" "incidental (\<lambda>s. s\<lparr>peer_version := v\<rparr>)"
  by (simp_all add: incidental_def)

lemma effects_incidental: "get_service st i = Some s \<Longrightarrow> incidental f \<Longrightarrow> effects S st (update_service i f st)"
  by (rule effects_service) (simp_all add: incidental_step)

lemma effects_quota: "event_change f \<Longrightarrow> effects S st (update_quota i f st)"
  by (rule r_into_rtranclp, rule effect.on_quota_event)

lemma event_change_up [simp]: "event_change (\<lambda>q. q\<lparr>quota_event := g q\<rparr>)"
  unfolding event_change_def by blast

lemma update_service_twice: "update_service i f (update_service i g st) = update_service i (f \<circ> g) st"
  by (cases "i < length (services_of st)")
    (simp_all add: update_service_def option.map_comp not_less list_update_beyond)

lemma effects_openack:
  assumes "get_service st i = Some s" "unat r < 4096"
  shows "effects S st (handle_openack S i r m st)"
proof -
  let ?st = "case open_ack_try_from m of Inr v \<Rightarrow> update_service i (\<lambda>s. s\<lparr>peer_version := v\<rparr>) st | Inl _ \<Rightarrow> st"
  have 1: "effects S st ?st" using assms(1) by (auto split: sum.splits intro: effects_incidental)
  obtain s' where s': "get_service ?st i = Some s'" using assms(1) by (cases "open_ack_try_from m") simp_all
  have "effects S ?st (update_service i (\<lambda>s. (set_state OPEN (s\<lparr>remoteport := r\<rparr>))
      \<lparr>remove_event := sem_up S (remove_event s)\<rparr>) ?st)" if "srvstate s' = OPENING"
    using s' that assms(2)
    by (intro effects_service)
      (auto simp: srv_step_def srv_moves_def srv_ok_def user_part_ok_def set_state_def)
  with 1 s' show ?thesis unfolding handle_openack_def Let_def s' by (auto intro: rtranclp_trans)
qed

lemma effects_closing:
  assumes "get_service st i = Some s"
  shows "effects S st (update_quota j (\<lambda>q. q\<lparr>quota_event := sem_up S (quota_event q)\<rparr>)
    (update_service i (\<lambda>s. s\<lparr>closing := True\<rparr>) st))"
  by (rule rtranclp_trans [OF effects_incidental [OF assms] effects_quota]) simp_all

lemma close_complete_sent:
  assumes "get_service st i = Some srv" "srvstate srv = CLOSESENT"
  shows "close_service_complete S i f st = Ok () (update_service i (\<lambda>s. (set_state FREE (s\<lparr>client_id := 0, remoteport := VCHIQ_PORT_FREE\<rparr>))
    \<lparr>remove_event := sem_up S (remove_event s)\<rparr>) st)"
  using assms by (simp add: close_service_complete_def free_service_def update_service_twice comp_def set_state_def)

lemma effects_handle_close:
  assumes "handle_close S i st = Ok a st'" "\<And>s. get_service st i = Some s \<Longrightarrow> srv_ok s"
  shows "effects S st st'"
proof -
  obtain srv where srv: "get_service st i = Some srv" "srv_ok srv"
    using assms by (auto simp: handle_close_def split: option.splits)
  let ?b = "update_quota (unat (localport srv)) (\<lambda>q. q\<lparr>quota_event := sem_up S (quota_event q)\<rparr>)
      (update_service i (\<lambda>s. s\<lparr>closing := True\<rparr>) st)"
  have b: "effects S st ?b" "get_service ?b i = Some (srv\<lparr>closing := True\<rparr>)"
    using srv by (simp_all add: effects_closing)
  have st': "srvstate srv = OPENING \<and> st' = update_service i (\<lambda>s. (set_state CLOSEWAIT s)\<lparr>remove_event := sem_up S (remove_event s)\<rparr>) ?b
    \<or> srvstate srv = CLOSESENT \<and> st' = update_service i (\<lambda>s. (set_state FREE (s\<lparr>client_id := 0, remoteport := VCHIQ_PORT_FREE\<rparr>))
         \<lparr>remove_event := sem_up S (remove_event s)\<rparr>) ?b \<or> st' = ?b"
  proof (cases "srvstate srv = CLOSESENT")
    case True
    then have "close_service_complete S i CLOSERECVD ?b = Ok () (update_service i (\<lambda>s. (set_state FREE (s\<lparr>client_id := 0, remoteport := VCHIQ_PORT_FREE\<rparr>))
        \<lparr>remove_event := sem_up S (remove_event s)\<rparr>) ?b)"
      by (intro close_complete_sent [OF b(2)]) simp
    with True assms(1) srv(1) show ?thesis by (auto simp: handle_close_def Let_def split: if_splits)
  next
    case False
    with assms(1) srv show ?thesis
      by (auto simp: handle_close_def Let_def split: if_splits service_state.splits)
  qed
  have ok: "srv_step (srv\<lparr>closing := True\<rparr>) (f (srv\<lparr>closing := True\<rparr>)) \<Longrightarrow> effects S st (update_service i f ?b)" for f
    by (rule rtranclp_trans [OF b(1)], rule effects_service [OF b(2)])
  show ?thesis
    using st' srv(2) b(1)
    by (auto intro!: ok simp: srv_step_def srv_moves_def srv_ok_def user_part_ok_def set_state_def)
qed

section \<open>Operations that return\<close>

text \<open>The state an operation ends in, with a result or an error.\<close>

definition ends :: "('e, 'a, 's) res \<Rightarrow> 's \<Rightarrow> bool" where
  "ends r t \<longleftrightarrow> (\<exists>a. r = Ok a t) \<or> (\<exists>e. r = Err e t)"

lemma ends_simps [simp]:
  "ends (Ok a s) t \<longleftrightarrow> t = s" "ends (Err e s) t \<longleftrightarrow> t = s" "\<not> ends (Panic m) t" "\<not> ends Blocked t" "\<not> ends Undef t"
  by (auto simp: ends_def)

lemma ends_seq: "ends (seq_res r f) t \<longleftrightarrow> (\<exists>e. r = Err e t) \<or> (\<exists>a s. r = Ok a s \<and> ends (f a s) t)"
  by (cases r) (auto simp: ends_def)

lemma ends_seqE:
  assumes "ends (seq_res r f) t"
  obtains (error) "ends r t" | (continued) a s where "r = Ok a s" "ends r s" "ends (f a s) t"
  using assms by (cases r) (auto simp: ends_seq)

lemma quota_check_Err:
  assumes "sem_laws S cnt" "data_quota_check S service stride st = Err e st'"
  shows "st' = st \<or> (\<exists>p s. st' = update_quota p (\<lambda>q. q\<lparr>quota_event := s\<rparr>) st)"
proof (cases "st' = st")
  case False
  let ?idx = "queue_index (local_tx_pos (slot_state st) + stride - 1)"
  from assms(2) False obtain i srv idx' st1 where s: "get_service st i = Some srv" "\<not> closing srv"
      "unat (localport srv) < length (quotas_of st)"
    and l: "data_quota_loop S stride ?idx st = Some (idx', st1)"
      "service_quota_loop S stride srv idx' st1 = Some (Err e st')"
    by (auto simp: data_quota_check_def split: option.splits if_splits prod.splits)
  have e: "idx' = ?idx \<and> st1 = st"
    using l(1) data_quota_loop_stuck [OF assms(1) refl, of st stride] data_quota_loop_free [of ?idx st S stride] by auto
  show ?thesis
  proof (cases "srvstate srv = OPEN")
    case True
    then have "service_quota_free stride srv st"
      using l(2) e service_quota_loop_stuck [OF assms(1) refl s(3) refl _ s(2)]
      by (auto simp: service_quota_free_def Let_def)
    then show ?thesis
      using l(2) e service_quota_loop_free [OF refl, of st srv ?idx S stride] by (auto simp: service_quota_free_def Let_def)
  next
    case False
    then show ?thesis
      using l(2) e s(2) by (subst (asm) service_quota_loop.simps) (auto simp: Let_def split: if_splits option.splits)
  qed
qed simp

lemma queue_message_Err:
  assumes "sem_laws S cnt" "tx_inv st" "context_size c \<le> 4088" "queue_message S service msg_id c b st = Err e st'"
  shows "st' = st \<or> (\<exists>p s. st' = update_quota p (\<lambda>q. q\<lparr>quota_event := s\<rparr>) st)"
proof (cases "sendable S service msg_id c st")
  case True
  show ?thesis
    by (rule queue_message_cases [OF assms(2) True, of b]) (use assms(4) in auto)
next
  case False
  from assms(4) obtain ty where ty: "msg_type_from_id msg_id = Some ty"
    by (auto simp: queue_message_def split: option.splits)
  let ?r = "data_quota_check S service (calc_msg_stride (of_nat (context_size c))) st"
  have d: "ty = DATA" using False ty assms(3) by (auto simp: sendable_def data_service_ok_def split: if_splits)
  have "?r \<noteq> Ok () st1" for st1
  proof
    assume r: "?r = Ok () st1"
    then obtain i srv where "service = Some i" "get_service st i = Some srv"
      "unat (localport srv) < length (quotas_of st)" "st1 = st"
      by (rule data_quota_check_Ok [OF assms(1)])
    with r d ty assms(3) False show False by (simp add: sendable_def data_service_ok_def borrow_ref_def)
  qed
  then have "?r = Err e st'" using assms(4) ty d by (cases ?r) (auto simp: queue_message_def Let_def)
  then show ?thesis by (rule quota_check_Err [OF assms(1)])
qed

lemma effects_queue:
  assumes "sem_laws S cnt" "state_inv k st" "context_size c \<le> 4088" "close_allowed service msg_id st"
    and "ends (queue_message S service msg_id c b st) st'"
  shows "effects S st st'"
proof -
  consider (ok) a where "queue_message S service msg_id c b st = Ok a st'"
    | (err) e where "queue_message S service msg_id c b st = Err e st'" using assms(5) by (auto simp: ends_def)
  then show ?thesis
  proof cases
    case ok
    then show ?thesis using assms(3,4) by (intro r_into_rtranclp effect.on_send [of S service msg_id c b]) simp_all
  next
    case err
    from queue_message_Err [OF assms(1) state_invD(1) [OF assms(2)] assms(3) err] show ?thesis
      by (auto intro: effects_quota)
  qed
qed

end
