(* ===== verification/System.thy ===== *)
theory System
  imports Lifecycle
begin

text \<open>
  The running system: operations of clients, polls of suspended futures, the handling of received messages
  and writes of the VideoCore, interleaved in any order.  The invariant holds in every state that is
  reached from a connected or unconnected instance, whatever the VideoCore sends.
\<close>

section \<open>Operations of the state\<close>

lemma ends_lookup:
  assumes "table_wf st" "service_from_handle st h = Inr i"
  obtains s where "get_service st i = Some s" "srv_handle s = h"
proof -
  have "lookup_handle st h = Some i" using assms(2) by (simp add: lookup_handle_def)
  then show ?thesis using services.lookup_iff [OF assms(1)] that by blast
qed

lemma effects_connection:
  assumes "conn_progress (conn_state st) c"
  shows "effects S st (st\<lparr>connect_sem := s, conn_state := c\<rparr>)"
  using effect.on_connection [OF assms, of S s] by (auto simp: set_connection_def)

lemma effects_connect_poll:
  assumes "ends (connect_poll S st) st'"
  shows "effects S st st'"
  using assms by (auto simp: connect_poll_def effects_connection conn_progress_def split: option.splits)

lemma queue_keeps_connection:
  assumes "sem_laws S cnt" "tx_inv st" "context_size c \<le> 4088" "queue_message S service msg_id c b st = Ok () st'"
  shows "conn_state st' = conn_state st"
proof -
  obtain ty where "st' = queued_state service ty msg_id c (tx_target msg_id c st) st"
    by (rule queue_message_Ok [OF assms])
  then show ?thesis by (simp add: queued_state_simps)
qed

lemma effects_connect:
  assumes "sem_laws S cnt" "state_inv k st" "ends (connect S st) st'"
  shows "effects S st st'"
proof (cases "initialized st \<and> conn_state st = DISCONNECTED")
  case True
  let ?q = "queue_message S None (make_msg_id CONNECT 0 0) None True st"
  have c: "connect S st = seq_res ?q (\<lambda>_ st. connect_poll S (st\<lparr>conn_state := CONNECTING\<rparr>))"
    using True by (cases ?q) (simp_all add: connect_def)
  have a: "close_allowed None (make_msg_id CONNECT 0 0) st" by (simp add: close_allowed_def)
  have z: "context_size None \<le> 4088" by (simp add: context_size_def)
  note q = effects_queue [OF assms(1,2) z a]
  from assms(3) [unfolded c] show ?thesis
  proof (cases rule: ends_seqE)
    case error
    then show ?thesis by (rule q)
  next
    case (continued u t)
    have "conn_state t = conn_state st"
      using continued(1) by (intro queue_keeps_connection [OF assms(1) state_invD(1) [OF assms(2)] z]) simp
    then have "effects S t (t\<lparr>conn_state := CONNECTING\<rparr>)"
      using effects_connection [of t CONNECTING S "connect_sem t"] True by (simp add: conn_progress_def)
    with effects_connect_poll [OF continued(3)] q [OF continued(2)] show ?thesis by (meson rtranclp_trans)
  qed
next
  case False
  then show ?thesis
    using assms(3) effects_connect_poll [of S st st'] by (auto simp: connect_def split: if_splits)
qed

lemma effects_remove_event:
  assumes "ends (remove_event_poll S h st) st'"
  shows "effects S st st'"
  using assms
  by (auto simp: remove_event_poll_def intro: effects_incidental split: sum.splits option.splits)

lemma effects_open_poll:
  assumes "ends (open_poll S h st) st'"
  shows "effects S st st'"
  using assms [unfolded open_poll_def] effects_remove_event [of S h st]
  by (elim ends_seqE) (auto split: poll.splits if_splits)

lemma effects_close_poll:
  assumes "ends (close_poll S h st) st'"
  shows "effects S st st'"
  using assms [unfolded close_poll_def] effects_remove_event [of S h st]
  by (elim ends_seqE) (auto split: poll.splits if_splits)

text \<open>The payload of the open message fits into a slot.\<close>

lemma effects_open_send:
  fixes st :: "'sem state"
  assumes "sem_laws S cnt" "state_inv k st" "\<And>p. length (enc p) \<le> 4088" "ends (open_send S enc h st) st'"
  shows "effects S st st'"
proof -
  from assms(4) obtain srv :: "'sem service" where
    "ends (queue_message S None (make_msg_id OPEN_MSG (localport srv) 0)
       (Some (enc \<lparr>op_fourcc = base_fourcc srv, op_client_id = 0, op_version = srv_version srv,
          op_version_min = srv_version_min srv\<rparr>)) True st) st'"
    by (auto simp: open_send_def split: sum.splits option.splits)
  then show ?thesis
    by (rule effects_queue [OF assms(1,2), rotated 2]) (simp_all add: context_size_def close_allowed_def assms(3))
qed

lemma free_service_waiting:
  assumes "get_service st i = Some s" "srvstate s = CLOSEWAIT" "closing s"
  shows "effects S st (free_service S i st)"
  using assms
  by (auto simp: free_service_def srv_step_def srv_moves_def srv_ok_def user_part_ok_def set_state_def intro!: effects_service)

lemma close_sent_step: "srvstate s \<in> {OPENING, OPEN, CLOSESENT} \<Longrightarrow> closing s \<Longrightarrow> srv_step s (set_state CLOSESENT s)"
  by (auto simp: srv_step_def srv_moves_def srv_ok_def user_part_ok_def set_state_def)

lemma effects_close_message:
  assumes "sem_laws S cnt" "state_inv k st" "get_service st i = Some s" "srvstate s \<in> {OPENING, OPEN}" "closing s"
    and "ends (close_message S i srv st) st'"
  shows "effects S st st'"
proof (rule effects_queue [OF assms(1,2)])
  show "ends (queue_message S (Some i) (make_msg_id CLOSE (localport srv) (remoteport srv AND 0x0FFF)) None False st) st'"
    using assms(6) by (simp add: close_message_def)
  show "close_allowed (Some i) (make_msg_id CLOSE (localport srv) (remoteport srv AND 0x0FFF)) st"
    using assms(3-5) close_sent_step [of s] by (auto simp: close_allowed_def)
qed (simp add: context_size_def)

text \<open>Sending the close message of an open service marks the service.\<close>

lemma close_message_sent:
  assumes "sem_laws S cnt" "state_inv k st" "get_service st i = Some s" "close_message S i srv st = Ok () t"
    and "unat (localport srv) < 4096"
  shows "get_service t i = Some (set_state CLOSESENT s)"
proof -
  have z: "context_size None \<le> 4088" by (simp add: context_size_def)
  obtain ty where ty: "msg_type_from_id (close_id srv) = Some ty"
      "t = queued_state (Some i) ty (close_id srv) None (tx_target (close_id srv) None st) st"
    using queue_message_Ok [OF assms(1) state_invD(1) [OF assms(2)] z, of "Some i" "close_id srv" False t] assms(4)
    unfolding close_message_def close_id_def by blast
  then show ?thesis using close_id_control(1) [OF assms(5)] assms(3) by (simp add: queued_get_service)
qed

lemma effects_close_start:
  assumes "sem_laws S cnt" "state_inv k st" "ends (close_start S h st) st'"
  shows "effects S st st'"
proof (cases "st' = st")
  case False
  from assms(3) False obtain i srv where i: "service_from_handle st h = Inr i" "get_service st i = Some srv"
      "srvstate srv \<notin> {FREE, LISTENING, HIDDEN}"
    by (auto simp: close_start_def split: sum.splits option.splits if_splits)
  let ?a = "update_service i (\<lambda>s. s\<lparr>closing := True\<rparr>) st"
  have a: "effects S st ?a" using i(2) by (rule effects_incidental) simp
  note inv = effects_sound(1) [OF assms(1) a assms(2)]
  have g: "get_service ?a i = Some (srv\<lparr>closing := True\<rparr>)" using i(2) by simp
  have "srvstate srv \<in> {OPENING, OPEN, CLOSEWAIT, CLOSESENT, FREE}"
    using state_invD(5) [OF assms(2) i(2)] by (simp add: srv_ok_def)
  with i(3) consider "srvstate srv = OPENING" | "srvstate srv = OPEN" | "srvstate srv = CLOSEWAIT" | "srvstate srv = CLOSESENT"
    by auto
  then have "effects S ?a st'"
  proof cases
    case 1
    then have "ends (close_message S i srv ?a) st'" using assms(3) i by (simp add: close_start_def)
    then show ?thesis by (rule effects_close_message [OF assms(1) inv g, rotated 2]) (simp_all add: 1)
  next
    case 2
    then have e: "ends (close_message S i srv ?a) t \<Longrightarrow> effects S ?a t" for t
      by (intro effects_close_message [OF assms(1) inv g]) simp_all
    from 2 assms(3) i consider t where "close_message S i srv ?a = Ok () t" "st' = update_service i (set_state CLOSESENT) t"
      | e where "close_message S i srv ?a = Err e st'"
      by (cases "close_message S i srv ?a") (auto simp: close_start_def Let_def)
    then show ?thesis
    proof cases
      case (1 t)
      have t: "effects S ?a t" by (rule e) (simp add: 1)
      have p: "unat (localport srv) < 4096"
        using srv_invD(3,5) [OF state_invD(2) [OF assms(2)]] i(2) by fastforce
      note s = close_message_sent [OF assms(1) inv g 1(1) p]
      have "effects S t (update_service i (set_state CLOSESENT) t)"
        by (rule effects_service [OF s]) (simp add: close_sent_step set_state_def)
      with t show ?thesis unfolding 1(2) by (rule rtranclp_trans)
    next
      case (2 e)
      then show ?thesis by (intro e) simp
    qed
  next
    case 3
    then have "st' = free_service S i ?a" using assms(3) i by (simp add: close_start_def)
    with free_service_waiting [OF g] 3 show ?thesis by simp
  next
    case 4
    then show ?thesis using assms(3) i by (simp add: close_start_def)
  qed
  with a show ?thesis by (rule rtranclp_trans)
qed simp

section \<open>Adding services\<close>

lemma srv_inv_next_handle:
  assumes "srv_inv st" "next_srv_handle st \<le> n"
  shows "srv_inv (st\<lparr>next_srv_handle := n\<rparr>)"
proof -
  let ?st = "st\<lparr>next_srv_handle := n\<rparr>"
  have "case services_of st ! i of None \<Rightarrow> unat (unused_service (srv_state st)) \<le> i
      | Some s \<Rightarrow> i < unat (unused_service (srv_state st)) \<and> unat (localport s) = i \<and> srv_handle s < n" if "i < 4096" for i
    using assms that unfolding srv_inv_def by (fastforce split: option.splits)
  moreover have "table_wf ?st" using srv_invD(4) [OF assms(1)] by (simp add: table_wf_def)
  moreover have e: "srv_state ?st = srv_state st" "quota_state ?st = quota_state st" "next_srv_handle ?st = n" by simp_all
  ultimately show ?thesis using srv_invD(1-3) [OF assms(1)] unfolding srv_inv_def e by blast
qed

lemma next_handle_step:
  assumes "unat (h :: usize) + 1 < 2 ^ 64"
  shows "unat (h + 1) = unat h + 1" "h < h + 1"
proof -
  show u: "unat (h + 1) = unat h + 1" using unat_add_small [of h 1] assms by simp
  then show "h < h + 1" by (simp add: word_less_nat_alt)
qed

definition client_service :: "'sem vchiq_params \<Rightarrow> bool" where
  "client_service params \<longleftrightarrow> sp_callback params = Some InternalCallback \<and>
     (\<exists>us. sp_userdata params = Some (UD_ServiceUser us) \<and> length (msg_queue us) = 128)"

lemma inserted_quotas:
  assumes "quota_inv st" "quotas_granted st" "i < length (quotas_of st)"
  shows "quota_inv (insert_service i srv st)" "quotas_granted (insert_service i srv st)"
proof -
  let ?f = "service_quota_setup (default_slot_quota st) (default_message_quota st) (local_tx_pos (slot_state st))"
  have q: "quotas_of (insert_service i srv st) = (quotas_of st)[i := ?f (quotas_of st ! i)]"
      "default_slot_quota (insert_service i srv st) = default_slot_quota st"
      "data_use_count (quota_state (insert_service i srv st)) = data_use_count (quota_state st)"
      "data_quota (quota_state (insert_service i srv st)) = data_quota (quota_state st)"
    using assms(3) by (simp_all add: insert_service_def Let_def update_quota_def)
  have f: "slot_use_count (?f q) = slot_use_count q" "slot_quota (?f q) = default_slot_quota st" for q :: "'a service_quota"
    by (simp_all add: service_quota_setup_def Let_def)
  have "slot_use_count (quotas_of st ! i) \<le> default_slot_quota st"
    using assms nth_mem [OF assms(3)] unfolding quota_inv_def quotas_granted_def by (meson order_trans)
  with assms show "quota_inv (insert_service i srv st)" "quotas_granted (insert_service i srv st)"
    by (auto simp: quota_inv_def quotas_granted_def q f dest!: set_update_cases)
qed

lemma add_service_effect:
  assumes "state_inv k st" "k + 1 < 2 ^ 64" "client_service params" "ends (add_service S params OPENING st) st'"
  shows "state_inv (k + 1) st'" "evolves st st'"
proof -
  note d = state_invD [OF assms(1)]
  let ?h = "next_srv_handle st" and ?u = "unat (unused_service (srv_state st))"
  let ?old = "st\<lparr>next_srv_handle := ?h + 1\<rparr>"
  note h = next_handle_step [of ?h] and add = add_service_eq [OF d(2), of S params]
  have b: "unat ?h + 1 < 2 ^ 64" using d(6) assms(2) by simp
  have "state_inv (k + 1) st' \<and> evolves st st'"
  proof (cases "?u < 4096")
    case False
    with add assms(4) have e: "st' = ?old" by simp
    have "srv_inv ?old" using h(2) [OF b] by (intro srv_inv_next_handle [OF d(2)]) simp
    moreover have "tx_inv ?old" using d(1) tx_inv_cong [of ?old st] by simp
    moreover have g: "get_service ?old i = get_service st i" for i by (rule get_service_cong) simp
    ultimately have "state_inv (k + 1) ?old"
      using d(3-7) h(1) [OF b] by (simp add: state_inv_def quota_inv_def quotas_granted_def)
    moreover have "evolves st ?old" by (rule evolvesI) (auto simp: g)
    ultimately show ?thesis using e by simp
  next
    case True
    define srv where "srv = set_state OPENING ((fst (service_new S params ?h))\<lparr>public_fourcc := None, localport := of_nat ?u\<rparr>)"
    from add assms(4) True have e: "st' = insert_service ?u srv ?old" by (simp add: srv_def)
    have l: "?u < length (quotas_of ?old)" "?u < length (services_of ?old)"
      using True srv_invD(1,2) [OF d(2)] by simp_all
    have "unat (of_nat ?u :: u32) = ?u" using True by (intro unat_of_nat_u32) simp
    then have s: "unat (localport srv) = ?u" "srv_handle srv = ?h" "srv_ok srv"
      using assms(3) by (auto simp: srv_def service_new_def srv_ok_def user_part_ok_def client_service_def set_state_def)
    have old: "srv_handle s < ?h" if "get_service st i = Some s" for i s using srv_invD(5) [OF d(2) that] by simp
    have "srv_inv st'"
      unfolding e by (rule insert_service_inv [OF d(2) refl True s(1,2) old h(2) [OF b]])
    moreover have g: "get_service st' j = (if j = ?u then Some srv else get_service st j)" for j
      using insert_service_get [OF l, of srv j] get_service_cong [of ?old st j] by (simp add: e)
    moreover have "tx_inv st'"
      using d(1) insert_service_simps [OF l(1), of srv] tx_inv_cong [of st' st] by (simp add: e)
    moreover have "quota_inv ?old" "quotas_granted ?old" using d(3,4) by (simp_all add: quota_inv_def quotas_granted_def)
    then have "quota_inv st'" "quotas_granted st'" unfolding e using l(1) by (simp_all add: inserted_quotas)
    moreover have "next_srv_handle st' = ?h + 1" "conn_state st' = conn_state st"
      using insert_service_simps [OF l(1), of srv] by (simp_all add: e)
    ultimately show ?thesis
      using d(5-7) s(3) h(1) [OF b] srv_invD(7) [OF d(2), of ?u]
      by (auto simp: state_inv_def intro!: evolvesI split: if_splits)
  qed
  then show "state_inv (k + 1) st'" "evolves st st'" by simp_all
qed

section \<open>Received messages\<close>

text \<open>The rings keep their length.\<close>

lemma add_completion_lengths:
  assumes "ends (add_completion S r m us c) (us', c')"
  shows "length (msg_queue us') = length (msg_queue us)" "length (completions c') = length (completions c)"
  using assms by (auto simp: add_completion_def put_completion_def Let_def split: if_splits)

lemma callback_full_lengths:
  assumes "ends (callback_full S r us c) (us', c')"
  shows "length (msg_queue us') = length (msg_queue us)" "length (completions c') = length (completions c)"
  using assms add_completion_lengths [of S r None us c]
  by (auto simp: callback_full_def ends_def seq_res_def split: if_splits prod.splits elim!: bind_res.elims)

lemma callback_insert_lengths:
  assumes "ends (callback_insert S m (us, c)) (us', c')"
  shows "length (msg_queue us') = length (msg_queue us)" "c' = c"
  using assms by (auto simp: callback_insert_def put_message_def Let_def split: if_splits)

lemma user_callback_lengths:
  assumes "ends (user_callback S r m us c) (us', c')"
  shows "length (msg_queue us') = length (msg_queue us) \<and> length (completions c') = length (completions c)"
proof -
  have *: "length (msg_queue us1) = length (msg_queue us) \<and> length (completions c1) = length (completions c)"
    if "ends (if is_vchi us then seq_res (callback_full S r us c) (\<lambda>_ uc. callback_insert S m uc) else Ok False (us, c)) (us1, c1)"
    for us1 c1
  proof (cases "is_vchi us")
    case True
    with that have "ends (seq_res (callback_full S r us c) (\<lambda>_ uc. callback_insert S m uc)) (us1, c1)" by simp
    then show ?thesis
    proof (cases rule: ends_seqE)
      case error
      then show ?thesis by (simp add: callback_full_lengths)
    next
      case (continued a uc)
      then show ?thesis
        by (cases uc) (metis callback_full_lengths callback_insert_lengths)
    qed
  next
    case False
    with that show ?thesis by simp
  qed
  from assms [unfolded user_callback_def] show ?thesis
  proof (cases rule: ends_seqE)
    case error
    then show ?thesis by (rule *)
  next
    case (continued skip uc)
    obtain us1 c1 where uc: "uc = (us1, c1)" by (cases uc)
    note l = * [OF continued(2) [unfolded uc]]
    show ?thesis
    proof (cases skip)
      case True
      with continued(3) l show ?thesis by (simp add: uc)
    next
      case False
      with continued(3) have "ends (add_completion S r m us1 c1) (us', c')" by (simp add: uc)
      from add_completion_lengths [OF this] l show ?thesis by simp
    qed
  qed
qed

lemma service_callback_effect:
  assumes "ends (service_callback S r m srv c) (srv', c')" "user_part_ok srv"
  obtains u where "srv' = srv\<lparr>base_userdata := u\<rparr>" "user_part_ok srv'" "length (completions c') = length (completions c)"
proof -
  from assms(2) obtain us where us: "base_userdata srv = Some (UD_ServiceUser us)" "length (msg_queue us) = 128"
    by (auto simp: user_part_ok_def split: option.splits vchiq_user_data.splits)
  from assms(1) us(1) obtain us' where us': "ends (user_callback S r m us c) (us', c')"
      "srv' = srv\<lparr>base_userdata := Some (UD_ServiceUser us')\<rparr>"
    by (cases "user_callback S r m us c") (auto simp: service_callback_def)
  note l = user_callback_lengths [OF us'(1)]
  show thesis by (rule that [of "Some (UD_ServiceUser us')"]) (use l us(2) us'(2) in \<open>auto simp: user_part_ok_def\<close>)
qed

text \<open>What an operation of the instance may do besides effects on its state.\<close>

definition inst_effects :: "'sem sem_ops \<Rightarrow> 'sem vchiq_instance \<Rightarrow> 'sem vchiq_instance \<Rightarrow> bool" where
  "inst_effects S x y \<longleftrightarrow> effects S (inst_state x) (inst_state y) \<and>
     (connected y \<longrightarrow> connected x \<or> conn_state (inst_state y) = CONNECTED) \<and>
     length (completions (inst_completion y)) = length (completions (inst_completion x))"

lemma inst_effects_state: "effects S (inst_state x) st \<Longrightarrow> inst_effects S x (x\<lparr>inst_state := st\<rparr>)"
  by (simp add: inst_effects_def)

lemma effects_handle_data:
  assumes "state_inv k (inst_state x)" "handle_data S i r m x = Ok a y"
  shows "inst_effects S x y"
proof (cases "y = x")
  case False
  note d = state_invD [OF assms(1)]
  from assms(2) False obtain srv cb z where srv: "get_service (inst_state x) i = Some srv" "base_callback srv = Some cb"
    and z: "run_callback S cb m (srv_handle srv) (on_state (update_service i (\<lambda>s. s\<lparr>base_callback := None\<rparr>)) x) = Ok () z"
    and y: "y = on_state (update_service i (\<lambda>s. s\<lparr>base_callback := Some cb\<rparr>)) z"
    by (auto simp: handle_data_def outcome split: option.splits if_splits)
  let ?x = "on_state (update_service i (\<lambda>s. s\<lparr>base_callback := None\<rparr>)) x"
  have ok: "srv_ok srv" by (rule d(5) [OF srv(1)])
  then have cb: "cb = InternalCallback" "user_part_ok srv" using srv(2) by (simp_all add: srv_ok_def)
  have "same_table (inst_state x) (inst_state ?x)" by (simp add: on_state_def same_table_update)
  then have "lookup_handle (inst_state ?x) (srv_handle srv) = Some i"
    using services.lookup_key [OF srv_invD(4) [OF d(2)] srv(1)] by (simp add: same_table_lookup)
  note l = service_from_handle_lookup [OF this]
  have g: "get_service (inst_state ?x) i = Some (srv\<lparr>base_callback := None\<rparr>)" using srv(1) by (simp add: on_state_def)
  from z obtain srv' c' where s: "ends (service_callback S MESSAGE_AVAILABLE (Some m) (srv\<lparr>base_callback := None\<rparr>) (inst_completion x)) (srv', c')"
      "z = ?x\<lparr>inst_state := update_service i (\<lambda>_. srv') (inst_state ?x), inst_completion := c'\<rparr>"
    using l g cb(1) by (auto simp: run_callback_def on_state_def split: res.splits)
  have "user_part_ok (srv\<lparr>base_callback := None\<rparr>)" using cb(2) by (simp add: user_part_ok_def)
  from service_callback_effect [OF s(1) this] obtain u where u: "srv' = srv\<lparr>base_callback := None, base_userdata := u\<rparr>"
      "user_part_ok srv'" "length (completions c') = length (completions (inst_completion x))" by auto
  let ?f = "(\<lambda>s. s\<lparr>base_callback := Some cb\<rparr>) \<circ> ((\<lambda>_. srv') \<circ> (\<lambda>s. s\<lparr>base_callback := None\<rparr>))"
  have y': "inst_state y = update_service i ?f (inst_state x)"
    by (simp add: y s(2) on_state_def update_service_twice)
  have "srv_step srv (?f srv)"
    using ok u(1,2) srv(2) by (simp add: srv_step_def srv_moves_def srv_ok_def user_part_ok_def)
  then have "effects S (inst_state x) (inst_state y)" unfolding y' by (rule effects_service [where f = ?f, OF srv(1)])
  then show ?thesis using u(3) by (simp add: inst_effects_def y s(2) on_state_def)
qed (simp add: inst_effects_def)

lemma src_port_bound: "unat (src_port_from_id i) < 4096"
  unfolding src_port_from_id_def by (rule masked_port)

lemma handler_service_found:
  assumes "handler_service ty l r st = Ok (Some i) u"
  obtains s where "get_service st i = Some s" "srvstate s \<noteq> FREE"
  using assms
  by (auto simp: handler_service_def service_by_port_def get_service_def outcome split: if_splits option.splits)

lemma effects_handle_message:
  assumes "state_inv k (inst_state x)" "handle_message S m x = Ok a y"
  shows "inst_effects S x y"
proof -
  let ?l = "dst_port_from_id (msgid (header m))" and ?r = "src_port_from_id (msgid (header m))"
  from assms(2) obtain ty service u where ty: "msg_type_from_id (msgid (header m)) = Some ty"
      "handler_service ty ?l ?r (inst_state x) = Ok service u"
    by (auto simp: handle_message_def Let_def split: option.splits res.splits)
  note h = assms(2) [unfolded handle_message_def ty(1) option.case Let_def ty(2) res.case, simplified]
  have g: "\<exists>s. get_service (inst_state x) i = Some s" if "service = Some i" for i
    using ty(2) that handler_service_found [of ty ?l ?r "inst_state x" i] by metis
  have conn: "effects S (inst_state x) ((inst_state x)\<lparr>connect_sem := s\<rparr>)" for s
    using effects_connection [of "inst_state x" "conn_state (inst_state x)" S s] by (simp add: conn_progress_def)
  consider "y = x" | i where "ty = OPENACK" "service = Some i" | i where "ty = CLOSE" "service = Some i"
    | i where "ty = DATA" "service = Some i" | "ty = CONNECT"
    using h by (auto split: message_type.splits option.splits)
  then show ?thesis
  proof cases
    case 2
    then show ?thesis
      using h g effects_openack [OF _ src_port_bound, of "inst_state x" i _ S] by (auto simp: on_state_def intro!: inst_effects_state)
  next
    case 3
    then obtain st where "handle_close S i (inst_state x) = Ok () st" "y = x\<lparr>inst_state := st\<rparr>"
      using h by (auto simp: outcome)
    then show ?thesis
      using effects_handle_close [of S i "inst_state x"] state_invD(5) [OF assms(1)] by (auto intro!: inst_effects_state)
  next
    case 4
    then have "handle_data S i ?r m x = Ok a y" using h by simp
    then show ?thesis by (rule effects_handle_data [OF assms(1)])
  next
    case 5
    then show ?thesis using h conn by (auto simp: on_state_def intro!: inst_effects_state)
  qed (simp add: inst_effects_def)
qed

text \<open>One turn of the loop of the slot handler.\<close>

lemma effects_slots: "same_tx (slot_state st) ss \<Longrightarrow> effects S st (st\<lparr>slot_state := ss\<rparr>)"
  using effect.on_slots [of st ss S] by (auto simp: set_slots_def)

lemma inst_effects_trans:
  assumes "sem_laws S cnt" "state_inv k (inst_state x)" "inst_effects S x y" "inst_effects S y z"
  shows "inst_effects S x z"
proof -
  have y: "effects S (inst_state x) (inst_state y)" "effects S (inst_state y) (inst_state z)"
    using assms(3,4) by (simp_all add: inst_effects_def)
  have "state_inv k (inst_state y)" by (rule effects_sound(1) [OF assms(1) y(1) assms(2)])
  with y(2) have "conn_state (inst_state y) = CONNECTED \<Longrightarrow> conn_state (inst_state z) = CONNECTED"
    using effects_sound(2) [OF assms(1)] evolvesD(1) by blast
  with assms(3,4) y show ?thesis by (auto simp: inst_effects_def intro: rtranclp_trans)
qed

lemma effects_handler_step:
  assumes "sem_laws S cnt" "state_inv k (inst_state x)" "handler_step S tx x = Ok a y"
  shows "inst_effects S x y"
proof -
  from assms(3) obtain p st m z where f: "fetch_slot tx (inst_state x) = Ok p st"
    and h: "handle_message S m (x\<lparr>inst_state := st\<rparr>) = Ok () z" and y: "y = on_state (advance_rx p m) z"
    by (auto simp: handler_step_def outcome split: res.splits)
  let ?x = "x\<lparr>inst_state := st\<rparr>"
  have "effects S (inst_state x) st"
    using f by (auto simp: fetch_slot_def Let_def same_tx_def intro!: effects_slots split: option.splits if_splits)
  then have 1: "inst_effects S x ?x" by (rule inst_effects_state)
  then have "state_inv k (inst_state ?x)"
    using effects_sound(1) [OF assms(1) _ assms(2)] by (auto simp: inst_effects_def)
  from effects_handle_message [OF this h] have 2: "inst_effects S ?x z" .
  have "effects S (inst_state z) (advance_rx p m (inst_state z))"
    unfolding advance_rx_def Let_def by (rule effects_slots) (simp add: same_tx_def)
  then have "inst_effects S z y" unfolding y on_state_def by (rule inst_effects_state)
  with inst_effects_trans [OF assms(1,2) 1 2] show ?thesis by (rule inst_effects_trans [OF assms(1,2)])
qed

section \<open>Operations of the instance\<close>

lemma ends_lift_state: "ends (lift_state f x) y \<longleftrightarrow> (\<exists>st. ends (f (inst_state x)) st \<and> y = x\<lparr>inst_state := st\<rparr>)"
  by (cases "f (inst_state x)") (auto simp: lift_state_def ends_def)

lemma lift_state_effects:
  assumes "ends (lift_state f x) y" "\<And>st. ends (f (inst_state x)) st \<Longrightarrow> effects S (inst_state x) st"
  shows "inst_effects S x y"
  using assms by (auto simp: ends_lift_state intro: inst_effects_state)

lemma connect_poll_connected:
  assumes "connect_poll S st = Ok (Ready u) st'"
  shows "conn_state st' = CONNECTED"
  using assms by (auto simp: connect_poll_def split: option.splits)

lemma connect_connected:
  assumes "state_inv k st" "connect S st = Ok (Ready u) st'"
  shows "conn_state st' = CONNECTED"
proof (cases "conn_state st = DISCONNECTED")
  case True
  then obtain t where "connect_poll S t = Ok (Ready u) st'"
    using assms(2) by (auto simp: connect_def outcome split: if_splits)
  then show ?thesis by (rule connect_poll_connected)
next
  case False
  then show ?thesis
    using assms connect_poll_connected [of S st u st'] state_invD(7) [OF assms(1)] by (auto simp: connect_def split: if_splits)
qed

lemma connect_done_effects:
  assumes "ends (seq_res (lift_state f x) connect_done) y" "\<And>st. ends (f (inst_state x)) st \<Longrightarrow> effects S (inst_state x) st"
    and "\<And>u st. f (inst_state x) = Ok (Ready u) st \<Longrightarrow> conn_state st = CONNECTED"
  shows "inst_effects S x y"
proof (cases "f (inst_state x)")
  case (Ok p st)
  then have "effects S (inst_state x) st" using assms(2) by simp
  with Ok assms(1,3) show ?thesis
    by (auto simp: lift_state_def connect_done_def inst_effects_def split: poll.splits)
next
  case (Err e st)
  with assms(1,2) show ?thesis by (auto simp: lift_state_def intro: inst_effects_state)
qed (use assms(1) in \<open>simp_all add: lift_state_def\<close>)

lemma effects_instance_connect:
  assumes "sem_laws S cnt" "state_inv k (inst_state x)" "ends (instance_connect S x) y"
  shows "inst_effects S x y"
proof (cases "connected x")
  case True
  with assms(3) show ?thesis by (simp add: instance_connect_def inst_effects_def)
next
  case False
  with assms(3) have "ends (seq_res (lift_state (connect S) x) connect_done) y" by (simp add: instance_connect_def)
  then show ?thesis
    by (rule connect_done_effects) (use effects_connect [OF assms(1,2)] connect_connected [OF assms(2)] in auto)
qed

lemma effects_instance_connect_poll:
  assumes "ends (instance_connect_poll S x) y"
  shows "inst_effects S x y"
  using assms [unfolded instance_connect_poll_def]
  by (rule connect_done_effects) (use effects_connect_poll connect_poll_connected in auto)

lemma effects_create_poll:
  assumes "ends (create_poll S open_it h x) y"
  shows "inst_effects S x y"
proof (cases open_it)
  case True
  with assms obtain st where "ends (open_poll S h (inst_state x)) st" "y = x\<lparr>inst_state := st\<rparr>"
    by (cases "open_poll S h (inst_state x)") (auto simp: create_poll_def lift_state_def split: poll.splits)
  then show ?thesis by (simp add: inst_effects_state effects_open_poll)
next
  case False
  with assms show ?thesis by (simp add: create_poll_def inst_effects_def)
qed

text \<open>The reserved port leaves the type of a message id alone, but it sets the lowest bit of the source port.\<close>

lemma port_free_bit: "bit VCHIQ_PORT_FREE n \<longleftrightarrow> n = 12"
proof -
  have "VCHIQ_PORT_FREE = push_bit 12 1" by (simp add: VCHIQ_PORT_FREE_def push_bit_eq_mult)
  then have "bit VCHIQ_PORT_FREE n \<longleftrightarrow> bit (push_bit 12 1 :: u32) n" by (rule arg_cong)
  then show ?thesis by (auto simp only: bit_push_bit_iff bit_1_iff possible_bit_word) auto
qed

lemma make_msg_id_type_free:
  assumes "unat src < 4096"
  shows "msg_type_from_id (make_msg_id t src VCHIQ_PORT_FREE) = Some t"
proof -
  have "drop_bit 24 (make_msg_id t src VCHIQ_PORT_FREE) = message_type_code t"
    by (rule bit_word_eqI)
      (auto simp: make_msg_id_def bit_simps port_free_bit dest: code_bit_bound port_bit_bound [OF assms(1)])
  then show ?thesis by (simp add: msg_type_from_id_def)
qed

lemma effects_instance_queue:
  assumes "sem_laws S cnt" "state_inv k (inst_state x)" "length data \<le> 4088" "ends (instance_queue_message S h data x) y"
  shows "inst_effects S x y"
proof (cases "y = x")
  case False
  with assms(4) obtain i srv where q: "ends (lift_state (queue_message S (Some i)
      (make_msg_id DATA (localport srv) (remoteport srv)) (Some data) False) x) y"
    and g: "get_service (inst_state x) i = Some srv"
    by (auto simp: instance_queue_message_def split: sum.splits option.splits)
  note d = state_invD [OF assms(2)]
  have "unat (localport srv) < 4096" using srv_invD(3) [OF d(2)] srv_invD(5) [OF d(2) g] by simp
  then have "msg_type_from_id (make_msg_id DATA (localport srv) (remoteport srv)) = Some DATA"
    using d(5) [OF g] by (auto simp: srv_ok_def make_msg_id_type make_msg_id_type_free)
  then have "close_allowed (Some i) (make_msg_id DATA (localport srv) (remoteport srv)) (inst_state x)"
    by (simp add: close_allowed_def)
  with q assms(3) show ?thesis
    by (elim lift_state_effects) (intro effects_queue [OF assms(1,2)], simp_all add: context_size_def)
qed (simp add: inst_effects_def)

lemma set_service_user_effects:
  assumes "get_service (inst_state x) i = Some srv" "user_part_ok srv" "length (msg_queue us) = 128"
  shows "inst_effects S x (set_service_user i us x)"
proof -
  have "effects S (inst_state x) (update_service i (\<lambda>s. s\<lparr>base_userdata := Some (UD_ServiceUser us)\<rparr>) (inst_state x))"
    using assms by (intro effects_service) (auto simp: srv_step_def srv_moves_def srv_ok_def user_part_ok_def)
  then show ?thesis by (simp add: set_service_user_def on_state_def inst_effects_state)
qed

lemma dequeue_poll_length: "length (msg_queue (snd (dequeue_poll S us))) = length (msg_queue us)"
  by (simp add: dequeue_poll_def Let_def split: option.splits)

lemma dequeue_take_length:
  "ends (dequeue_take S conv us) us' \<Longrightarrow> length (msg_queue us') = length (msg_queue us)"
  by (auto simp: dequeue_take_def drop_message_def Let_def split: if_splits option.splits sum.splits)

lemma effects_dequeue_resume:
  assumes "state_inv k (inst_state x)" "ends (dequeue_resume S conv i x) y"
  shows "inst_effects S x y"
proof -
  from assms(2) obtain srv us where g: "get_service (inst_state x) i = Some srv" and u: "service_user_of srv = Some us"
    by (auto simp: dequeue_resume_def split: option.splits bind_splits)
  have ok: "user_part_ok srv" using state_invD(5) [OF assms(1) g] by (simp add: srv_ok_def)
  then have l: "length (msg_queue us) = 128"
    using u by (auto simp: user_part_ok_def service_user_of_def split: option.splits vchiq_user_data.splits)
  obtain p us1 where p: "dequeue_poll S us = (p, us1)" by fastforce
  then have l1: "length (msg_queue us1) = 128" using dequeue_poll_length [of S us] l by simp
  note e = set_service_user_effects [OF g ok]
  show ?thesis
  proof (cases p)
    case Pending
    then have "y = set_service_user i us1 x" using assms(2) g u p by (simp add: dequeue_resume_def)
    with e [OF l1] show ?thesis by simp
  next
    case (Ready r)
    then obtain us2 where "ends (dequeue_take S conv us1) us2" "y = set_service_user i us2 x"
      using assms(2) g u p by (cases "dequeue_take S conv us1") (auto simp: dequeue_resume_def)
    with e [of us2] dequeue_take_length [of S conv us1 us2] l1 show ?thesis by simp
  qed
qed

lemma effects_dequeue_message:
  assumes "state_inv k (inst_state x)" "ends (dequeue_message S conv h x) y"
  shows "inst_effects S x y"
proof -
  have s: "ends (dequeue_start h x) z \<Longrightarrow> z = x" for z
    by (auto simp: dequeue_start_def split: sum.splits option.splits if_splits)
  from assms(2) [unfolded dequeue_message_def] show ?thesis
  proof (cases rule: ends_seqE)
    case error
    from s [OF this] show ?thesis by (simp add: inst_effects_def)
  next
    case (continued i z)
    from s [OF continued(2)] continued(3) show ?thesis using effects_dequeue_resume [OF assms(1)] by simp
  qed
qed

lemma collect_lengths: "ends (collect_completions n c) c' \<Longrightarrow> length (completions c') = length (completions c)"
proof (induction n arbitrary: c c')
  case (Suc n)
  show ?case
  proof (cases "c' = c")
    case False
    with Suc.prems obtain x where "ends (seq_res (collect_completions n (drop_completion c)) (\<lambda>xs c. Ok (x # xs) c)) c'"
      by (auto simp: Let_def split: if_splits option.splits)
    then have "ends (collect_completions n (drop_completion c)) c'" by (rule ends_seqE) auto
    from Suc.IH [OF this] show ?thesis by (simp add: drop_completion_def)
  qed simp
qed simp

lemma effects_await:
  assumes "ends (await_completion S count x) y"
  shows "inst_effects S x y"
proof -
  have "inst_state y = inst_state x \<and> connected y = connected x \<and>
      length (completions (inst_completion y)) = length (completions (inst_completion x))"
    using assms collect_lengths [of "unat count" "inst_completion x"]
    by (cases "collect_completions (unat count) (inst_completion x)")
      (auto simp: await_completion_def await_poll_def split: if_splits)
  then show ?thesis by (simp add: inst_effects_def)
qed

section \<open>Runs of the system\<close>

definition sys_inv :: "nat \<Rightarrow> 'sem vchiq_instance \<Rightarrow> bool" where
  "sys_inv k x \<longleftrightarrow> state_inv k (inst_state x) \<and> (connected x \<longrightarrow> conn_state (inst_state x) = CONNECTED) \<and>
     length (completions (inst_completion x)) = 128"

lemma sys_invD:
  assumes "sys_inv k x"
  shows "state_inv k (inst_state x)" "connected x \<Longrightarrow> conn_state (inst_state x) = CONNECTED"
    "length (completions (inst_completion x)) = 128"
  using assms by (simp_all add: sys_inv_def)

text \<open>
  A step of the system.  Futures that wait may be polled at any time.  The code does not bound the data that clients send;
  \<open>limit\<close> is the bound that they keep to.  The VideoCore may write to the memory of the slots and to both shared states, except
  that it leaves the queue of slots of the ARM side alone; the positions kept in \<^verbatim>\<open>SlotState\<close> are out of its reach.
\<close>

inductive sys_step :: "'sem sem_ops \<Rightarrow> (open_payload \<Rightarrow> u8 list) \<Rightarrow> nat \<Rightarrow> 'sem vchiq_instance \<Rightarrow> 'sem vchiq_instance \<Rightarrow> bool"
  for S enc limit where
  connect_call: "ends (instance_connect S x) y \<Longrightarrow> sys_step S enc limit x y"
| connect_wait: "conn_state (inst_state x) \<noteq> DISCONNECTED \<Longrightarrow> ends (instance_connect_poll S x) y \<Longrightarrow> sys_step S enc limit x y"
| create_call: "ends (create_start S enc params open_it vchi x) y \<Longrightarrow> sys_step S enc limit x y"
| create_wait: "ends (create_poll S open_it h x) y \<Longrightarrow> sys_step S enc limit x y"
| close_call: "ends (lift_state (close_start S h) x) y \<Longrightarrow> sys_step S enc limit x y"
| close_wait: "ends (lift_state (close_poll S h) x) y \<Longrightarrow> sys_step S enc limit x y"
| send_call: "length data \<le> limit \<Longrightarrow> ends (instance_queue_message S h data x) y \<Longrightarrow> sys_step S enc limit x y"
| dequeue_call: "ends (dequeue_message S vec_u8_try_from h x) y \<Longrightarrow> sys_step S enc limit x y"
| dequeue_wait: "ends (dequeue_resume S vec_u8_try_from i x) y \<Longrightarrow> sys_step S enc limit x y"
| await_call: "ends (await_completion S count x) y \<Longrightarrow> sys_step S enc limit x y"
| receive: "handler_step S tx x = Ok () y \<Longrightarrow> sys_step S enc limit x y"
| videocore: "same_tx (slots_of x) ss \<Longrightarrow> rx_data ss = rx_data (slots_of x) \<Longrightarrow> rx_pos ss = rx_pos (slots_of x) \<Longrightarrow>
    sys_step S enc limit x (with_slots ss x)"

inductive runs :: "'sem sem_ops \<Rightarrow> (open_payload \<Rightarrow> u8 list) \<Rightarrow> nat \<Rightarrow> nat \<Rightarrow> 'sem vchiq_instance \<Rightarrow> 'sem vchiq_instance \<Rightarrow> bool"
  for S enc limit where
  start: "runs S enc limit 0 x x"
| advance: "runs S enc limit n x y \<Longrightarrow> sys_step S enc limit y z \<Longrightarrow> runs S enc limit (Suc n) x z"

lemma state_inv_mono: "state_inv k st \<Longrightarrow> k \<le> k' \<Longrightarrow> state_inv k' st"
  by (simp add: state_inv_def)

lemma inst_effects_inv:
  assumes "sem_laws S cnt" "sys_inv k x" "inst_effects S x y"
  shows "sys_inv (k + 1) y \<and> evolves (inst_state x) (inst_state y)"
proof -
  have e: "effects S (inst_state x) (inst_state y)" using assms(3) by (simp add: inst_effects_def)
  note s = effects_sound [OF assms(1) e sys_invD(1) [OF assms(2)]]
  have "conn_state (inst_state y) = CONNECTED" if "connected y"
    using that assms(3) sys_invD(2) [OF assms(2)] evolvesD(1) [OF s(2)] by (auto simp: inst_effects_def)
  with s assms(3) sys_invD(3) [OF assms(2)] show ?thesis
    by (simp add: sys_inv_def inst_effects_def state_inv_mono)
qed

lemma client_service_internal: "client_service (internal_params S params vchi)"
  by (simp add: client_service_def internal_params_def service_user_new_def config_defs)

lemma create_start_inv:
  assumes "sem_laws S cnt" "\<And>p. length (enc p) \<le> 4088" "sys_inv k x" "k + 1 < 2 ^ 64"
    and "ends (create_start S enc params open_it vchi x) y"
  shows "sys_inv (k + 1) y \<and> evolves (inst_state x) (inst_state y)"
proof (cases "y = x")
  case True
  then show ?thesis using assms(3) state_inv_mono [of k "inst_state x" "k + 1"] by (simp add: sys_inv_def)
next
  case False
  let ?p = "internal_params S params vchi"
  note d = sys_invD [OF assms(3)]
  from assms(5) False obtain new_state where c: "ends (seq_res (lift_state (add_service S ?p new_state) x)
      (\<lambda>h x. if open_it then seq_res (lift_state (open_send S enc h) x) (\<lambda>_ x. Ok h x) else Ok h x)) y"
    by (auto simp: create_start_def split: sum.splits)
  have add: "state_inv (k + 1) st \<and> evolves (inst_state x) st" if "ends (add_service S ?p new_state (inst_state x)) st" for st
  proof (cases "new_state = OPENING")
    case True
    then show ?thesis using add_service_effect [OF d(1) assms(4) client_service_internal] that by blast
  next
    case False
    then show ?thesis using that by (simp add: add_service_def Let_def split_def)
  qed
  have *: "sys_inv (k + 1) (x\<lparr>inst_state := st\<rparr>) \<and> evolves (inst_state x) st"
    if "state_inv (k + 1) st" "evolves (inst_state x) st" for st
    using that d evolvesD(1) [OF that(2)] by (simp add: sys_inv_def)
  from c show ?thesis
  proof (cases rule: ends_seqE)
    case error
    then show ?thesis using add * by (auto simp: ends_lift_state)
  next
    case (continued h z)
    from continued(2) obtain st where st: "z = x\<lparr>inst_state := st\<rparr>" "state_inv (k + 1) st" "evolves (inst_state x) st"
      unfolding ends_lift_state using add by blast
    show ?thesis
    proof (cases open_it)
      case False
      with continued(3) st * show ?thesis by simp
    next
      case True
      with continued(3) have "ends (seq_res (lift_state (open_send S enc h) z) (\<lambda>_. Ok h)) y" by simp
      then have "ends (lift_state (open_send S enc h) z) y" by (rule ends_seqE) simp_all
      then obtain st' where st': "ends (open_send S enc h st) st'" "y = x\<lparr>inst_state := st'\<rparr>"
        unfolding ends_lift_state st(1) by auto
      note e = effects_sound [OF assms(1) effects_open_send [OF assms(1) st(2) assms(2) st'(1)] st(2)]
      show ?thesis using * [OF e(1) evolves_trans [OF st(3) e(2)]] st'(2) by simp
    qed
  qed
qed

lemma sys_step_inv:
  assumes "sem_laws S cnt" "\<And>p. length (enc p) \<le> 4088" "sys_inv k x" "k + 1 < 2 ^ 64" "sys_step S enc 4088 x y"
  shows "sys_inv (k + 1) y \<and> evolves (inst_state x) (inst_state y)"
proof -
  note i = inst_effects_inv [OF assms(1,3)] and d = sys_invD(1) [OF assms(3)]
  from assms(5) show ?thesis
  proof (cases rule: sys_step.cases)
    case connect_call
    then show ?thesis by (intro i effects_instance_connect [OF assms(1) d])
  next
    case connect_wait
    then show ?thesis by (intro i effects_instance_connect_poll)
  next
    case create_call
    then show ?thesis by (rule create_start_inv [OF assms(1-4)])
  next
    case create_wait
    then show ?thesis by (intro i effects_create_poll)
  next
    case close_call
    then show ?thesis by (intro i lift_state_effects [OF _ effects_close_start [OF assms(1) d]])
  next
    case close_wait
    then show ?thesis by (intro i lift_state_effects [OF _ effects_close_poll])
  next
    case send_call
    then show ?thesis by (intro i effects_instance_queue [OF assms(1) d])
  next
    case dequeue_call
    then show ?thesis by (intro i effects_dequeue_message [OF d])
  next
    case dequeue_wait
    then show ?thesis by (intro i effects_dequeue_resume [OF d])
  next
    case await_call
    then show ?thesis by (intro i effects_await)
  next
    case receive
    then show ?thesis by (intro i effects_handler_step [OF assms(1) d])
  next
    case (videocore ss)
    then show ?thesis by (intro i) (simp add: with_slots_def on_state_def inst_effects_state effects_slots)
  qed
qed

lemma runs_inv:
  assumes "sem_laws S cnt" "\<And>p. length (enc p) \<le> 4088" "runs S enc 4088 n x y" "sys_inv k x" "k + n < 2 ^ 64"
  shows "sys_inv (k + n) y \<and> evolves (inst_state x) (inst_state y)"
  using assms(3-)
proof (induction rule: runs.induct)
  case (start x)
  then show ?case by simp
next
  case (advance n x y z)
  then have "sys_inv (k + n) y" "evolves (inst_state x) (inst_state y)" by simp_all
  with sys_step_inv [OF assms(1,2) this(1) _ advance.hyps(2)] advance.prems(2) show ?case
    by (auto intro: evolves_trans)
qed

section \<open>The start of the system\<close>

definition mailbox_accepts :: "'sem platform \<Rightarrow> bool" where
  "mailbox_accepts P \<longleftrightarrow> (\<forall>a. set_vchiq_slot_base P a = Inr 0)"

lemma fresh_state_inv:
  assumes "fresh_state S P st" "platform_ok P"
  shows "state_inv (unat (next_srv_handle st)) st"
proof -
  have g: "get_service st i = None" for i using assms(1) by (simp add: fresh_state_def get_service_def)
  have q: "slot_use_count q = 0" "slot_quota q = 0" if "q \<in> set (quotas_of st)" for q
    using that assms(1) by (simp_all add: fresh_state_def service_quota_default_def)
  have "quota_inv st" "quotas_granted st"
    using assms(1) q by (simp_all add: quota_inv_def quotas_granted_def fresh_state_def)
  moreover have "conn_state st = DISCONNECTED" using assms(1) by (simp add: fresh_state_def)
  ultimately show ?thesis
    using fresh_tx_inv [OF assms] fresh_srv_inv [OF assms(1)] g by (simp add: state_inv_def)
qed

text \<open>The synchronous slot, which is marked as empty before the address goes to the VideoCore.\<close>

lemma state_initialize_ok:
  assumes "fresh_state S P st" "platform_ok P" "mailbox_accepts P"
  obtains m where "state_initialize P st =
    Ok () (st\<lparr>slot_state := (slot_state st)\<lparr>slot_data := (slot_data (slot_state st))\<lparr>mem := m\<rparr>\<rparr>, initialized := True\<rparr>)"
proof -
  let ?A = "slot_data (slot_state st)"
  let ?i = "ucast (slot_sync (sz_local (slot_zero (slot_state st)))) :: usize"
  have l: "unat (slot_len ?A) = data_slots P + 1" "unat ?i = 1 + data_slots P div 2"
    using assms(1) by (simp_all add: fresh_state_def slots_laid_out_def unat_ucast_u32_usize)
  have b: "63 \<le> data_slots P" using data_slots_bounds [OF assms(2)] by simp
  then have i: "0 < ?i" "?i < slot_len ?A" using l by (simp_all add: word_less_nat_alt)
  have "slot_addr (SlotPosition ?i 0) = unat ?i * 4096" by (simp add: slot_addr_def slot_consts)
  then have "in_memory ?A (slot_addr (SlotPosition ?i 0)) (8 + 0)" using l b by (simp add: in_memory_def)
  then obtain A where "store_message ?A 0 (SlotPosition ?i 0)
      (\<lambda>m c. Ok (m\<lparr>header := (header m)\<lparr>msgid := VCHIQ_MSGID_PADDING\<rparr>\<rparr>) c) () = Ok () (?A\<lparr>mem := A\<rparr>, ())"
    using store_message_pure [of "SlotPosition ?i 0" ?A 0
        "\<lambda>m c. Ok (m\<lparr>header := (header m)\<lparr>msgid := VCHIQ_MSGID_PADDING\<rparr>\<rparr>) c" "()"
        "\<lambda>m. m\<lparr>header := (header m)\<lparr>msgid := VCHIQ_MSGID_PADDING\<rparr>\<rparr>" "()"] i by auto
  then show thesis
    using assms(3) by (intro that [of A]) (simp add: state_initialize_def Let_def mailbox_accepts_def)
qed

lemma instance_new_inv:
  assumes "platform_ok P" "mailbox_accepts P"
  obtains x where "instance_new S P h = Ok x ()" "sys_inv (unat h) x" "\<not> connected x" "initialized (inst_state x)"
    "fresh_state S P ((inst_state x)\<lparr>slot_state := (slots_of x)\<lparr>slot_data := (slot_data (slots_of x))\<lparr>mem := init_mem P\<rparr>\<rparr>,
       initialized := False\<rparr>)"
proof -
  from state_new_fresh [OF assms(1)] obtain st where st: "state_new S P h = Ok st ()" "fresh_state S P st"
      "next_srv_handle st = h" by blast
  from state_initialize_ok [OF st(2) assms] obtain m where
    m: "state_initialize P st = Ok () (st\<lparr>slot_state := (slot_state st)\<lparr>slot_data := (slot_data (slot_state st))\<lparr>mem := m\<rparr>\<rparr>,
        initialized := True\<rparr>)" (is "_ = Ok () ?st") by blast
  let ?x = "\<lparr>inst_state = ?st, connected = False, inst_completion = completion_default S\<rparr>"
  have n: "instance_new S P h = Ok ?x ()" using st(1) m by (simp add: instance_new_def)
  have "state_inv (unat h) ?st"
    by (rule state_inv_cong [OF fresh_state_inv [OF st(2) assms(1), unfolded st(3)]]) (simp_all add: same_tx_def conn_progress_def)
  then have "sys_inv (unat h) ?x" by (simp add: sys_inv_def completion_default_def config_defs)
  with n show thesis
    by (rule that) (use st(2) in \<open>simp_all add: fresh_state_def\<close>)
qed

end
