(* ===== verification/Reachable.thy ===== *)
theory Reachable
  imports System
begin

text \<open>
  What holds in the reachable states of the system: the invariant, the life cycle of services, which
  received messages are handled and which stop the driver.
\<close>

section \<open>Which messages are handled\<close>

lemma and_127_bound: "unat ((w :: usize) AND 127) < 128"
  by (simp add: unat_and_127)

lemma add_completion_total:
  assumes "length (completions c) = 128"
  obtains us' c' where "add_completion S r m us c = Ok () (us', c')" "length (completions c') = 128"
    "length (msg_queue us') = length (msg_queue us)"
proof -
  have "unat (completion_insert c AND (MAX_COMPLETIONS - 1)) < 128" unfolding ring_masks by (rule and_127_bound)
  then have "\<exists>us' c'. add_completion S r m us c = Ok () (us', c')"
    using assms by (simp add: add_completion_def Let_def)
  then obtain us' c' where a: "add_completion S r m us c = Ok () (us', c')" by blast
  show thesis
    using add_completion_lengths [of S r m us c us' c'] a assms by (intro that [OF a]) simp_all
qed

lemma callback_full_total:
  assumes "length (completions c) = 128"
  obtains us' c' where "callback_full S r us c = Ok () (us', c')" "length (completions c') = 128"
    "length (msg_queue us') = length (msg_queue us)"
proof (cases "queue_full us \<and> message_available_pos us < sint (completion_remove c)")
  case True
  obtain us' c' where "add_completion S r None us c = Ok () (us', c')" "length (completions c') = 128"
    "length (msg_queue us') = length (msg_queue us)"
    by (rule add_completion_total [OF assms, of S r None us])
  with True show ?thesis by (intro that [of "us'\<lparr>su_remove_event := try_down_ignored S (su_remove_event us')\<rparr>" c'])
      (simp_all add: callback_full_def)
next
  case False
  then show ?thesis
    using assms by (cases "queue_full us") (auto simp: callback_full_def intro!: that)
qed

lemma user_callback_total:
  assumes "length (completions c) = 128" "length (msg_queue us) = 128"
  shows "\<exists>uc. user_callback S r m us c = Ok () uc"
proof -
  let ?r = "if is_vchi us then seq_res (callback_full S r us c) (\<lambda>_ uc. callback_insert S m uc) else Ok False (us, c)"
  have "\<exists>skip us1 c1. ?r = Ok skip (us1, c1) \<and> length (completions c1) = 128"
  proof (cases "is_vchi us")
    case True
    obtain us1 c1 where f: "callback_full S r us c = Ok () (us1, c1)" "length (completions c1) = 128"
        "length (msg_queue us1) = length (msg_queue us)"
      by (rule callback_full_total [OF assms(1), of S r us])
    have "unat (msg_insert us1 AND (MSG_QUEUE_SIZE - 1)) < length (msg_queue us1)"
      unfolding ring_masks f(3) assms(2) by (rule and_127_bound)
    with True f show ?thesis by (simp add: callback_insert_def Let_def)
  next
    case False
    with assms(1) show ?thesis by auto
  qed
  then obtain skip us1 c1 where s: "?r = Ok skip (us1, c1)" "length (completions c1) = 128" by blast
  have "\<exists>uc. (if skip then Ok () (us1, c1) else add_completion S r m us1 c1) = Ok () uc"
    by (cases skip) (simp, metis (full_types) add_completion_total [OF s(2)])
  then show ?thesis unfolding user_callback_def s(1) by simp
qed

lemma run_callback_total:
  assumes "service_from_handle (inst_state x) h = Inr j" "get_service (inst_state x) j = Some srv"
    and "base_userdata srv = Some (UD_ServiceUser us)"
    and "user_callback S MESSAGE_AVAILABLE (Some m) us (inst_completion x) = Ok () (us', c')"
  shows "\<exists>z. run_callback S InternalCallback m h x = Ok () z"
  using assms by (simp add: run_callback_def service_callback_def)

lemma handle_data_total:
  assumes "sys_inv k x" "get_service (inst_state x) i = Some srv"
  shows "\<exists>y. handle_data S i r m x = Ok () y"
proof (cases "remoteport srv = r \<and> srvstate srv = OPEN")
  case True
  note d = state_invD [OF sys_invD(1) [OF assms(1)]]
  let ?x = "on_state (update_service i (\<lambda>s. s\<lparr>base_callback := None\<rparr>)) x"
  have ok: "base_callback srv = Some InternalCallback" "user_part_ok srv"
    using d(5) [OF assms(2)] by (simp_all add: srv_ok_def)
  then obtain us where us: "base_userdata srv = Some (UD_ServiceUser us)" "length (msg_queue us) = 128"
    by (auto simp: user_part_ok_def split: option.splits vchiq_user_data.splits)
  have "same_table (inst_state x) (inst_state ?x)" by (simp add: on_state_def same_table_update)
  then have "lookup_handle (inst_state ?x) (srv_handle srv) = Some i"
    using services.lookup_key [OF srv_invD(4) [OF d(2)] assms(2)] by (simp add: same_table_lookup)
  note l = service_from_handle_lookup [OF this]
  have g: "get_service (inst_state ?x) i = Some (srv\<lparr>base_callback := None\<rparr>)" using assms(2) by (simp add: on_state_def)
  obtain us' c' where u: "user_callback S MESSAGE_AVAILABLE (Some m) us (inst_completion x) = Ok () (us', c')"
    using user_callback_total [OF sys_invD(3) [OF assms(1)] us(2)] by fastforce
  have "\<exists>z. run_callback S InternalCallback m (srv_handle srv) ?x = Ok () z"
    by (rule run_callback_total [OF l g]) (use u us(1) in \<open>simp_all add: on_state_def\<close>)
  then show ?thesis using True assms(2) ok(1) by (auto simp: handle_data_def)
next
  case False
  with assms(2) show ?thesis by (auto simp: handle_data_def)
qed

text \<open>The service that a message is for, when it is alive.\<close>

definition live_service :: "'sem vchiq_instance \<Rightarrow> u32 \<Rightarrow> 'sem service option" where
  "live_service x port =
     (case get_service (inst_state x) (unat port) of
        Some s \<Rightarrow> if srvstate s = FREE then None else Some s
      | None \<Rightarrow> None)"

definition supported :: "'sem vchiq_instance \<Rightarrow> u32 \<Rightarrow> bool" where
  "supported x mid \<longleftrightarrow>
     (case msg_type_from_id mid of
        Some CONNECT \<Rightarrow> True
      | Some PADDING \<Rightarrow> True
      | Some CLOSE \<Rightarrow>
         (case live_service x (dst_port_from_id mid) of
            Some s \<Rightarrow> dst_port_from_id mid \<noteq> 0 \<or> remoteport s = src_port_from_id mid \<or> remoteport s = VCHIQ_PORT_FREE
          | None \<Rightarrow> False)
      | Some ty \<Rightarrow> ty \<in> {OPENACK, DATA, BULK_RX_DONE, BULK_TX_DONE} \<and> live_service x (dst_port_from_id mid) \<noteq> None
      | None \<Rightarrow> False)"

lemma dst_port_bound: "unat (dst_port_from_id i) < 4096"
  unfolding dst_port_from_id_def by (rule masked_port)

lemma service_by_port_live:
  assumes "srv_inv (inst_state x)"
  shows "service_by_port (inst_state x) (dst_port_from_id mid) =
    Ok (map_option (\<lambda>_. unat (dst_port_from_id mid)) (live_service x (dst_port_from_id mid))) ()"
  using srv_invD(1) [OF assms] dst_port_bound [of mid]
  by (simp add: service_by_port_def live_service_def get_service_def split: option.splits)

lemma live_service_get: "live_service x p = Some s \<Longrightarrow> get_service (inst_state x) (unat p) = Some s"
  by (auto simp: live_service_def split: option.splits if_splits)

lemma handler_service_live:
  fixes x :: "'sem vchiq_instance" and mid :: u32
  assumes "srv_inv (inst_state x)"
  defines "s \<equiv> live_service x (dst_port_from_id mid)"
  shows "ty \<in> {OPENACK, DATA, BULK_RX, BULK_TX, BULK_RX_DONE, BULK_TX_DONE} \<Longrightarrow>
      handler_service ty (dst_port_from_id mid) (src_port_from_id mid) (inst_state x) =
        (if s = None then Panic ''not yet implemented'' else Ok (Some (unat (dst_port_from_id mid))) ())"
    "handler_service CLOSE (dst_port_from_id mid) (src_port_from_id mid) (inst_state x) =
        (case s of None \<Rightarrow> Panic ''not yet implemented''
         | Some srv \<Rightarrow> if dst_port_from_id mid \<noteq> 0 \<or> remoteport srv = src_port_from_id mid \<or> remoteport srv = VCHIQ_PORT_FREE
             then Ok (Some (unat (dst_port_from_id mid))) () else Panic ''not yet implemented'')"
  using service_by_port_live [OF assms(1), of mid] live_service_get [of x "dst_port_from_id mid"]
  by (auto simp: handler_service_def s_def split: option.splits)

lemma handle_close_total:
  assumes "srv_inv st" "get_service st i = Some srv"
  shows "\<exists>st'. handle_close S i st = Ok () st'"
proof -
  have "unat (localport srv) < length (quotas_of st)"
    using srv_invD(2,3) [OF assms(1)] srv_invD(5) [OF assms] by simp
  then show ?thesis
    using assms(2)
    by (cases "srvstate srv") (simp_all add: handle_close_def Let_def close_service_complete_def)
qed

lemma handle_message_supported:
  assumes "sys_inv k x" "supported x (msgid (header m))"
  shows "\<exists>y. handle_message S m x = Ok () y"
proof -
  let ?mid = "msgid (header m)" and ?l = "dst_port_from_id (msgid (header m))"
  have inv: "srv_inv (inst_state x)" by (rule state_invD(2) [OF sys_invD(1) [OF assms(1)]])
  note h = handler_service_live(1) [OF inv, of _ ?mid] handler_service_live(2) [OF inv, of ?mid]
  from assms(2) obtain ty where ty: "msg_type_from_id ?mid = Some ty" by (auto simp: supported_def split: option.splits)
  show ?thesis
  proof (cases "ty \<in> {CONNECT, PADDING}")
    case True
    with ty show ?thesis by (auto simp: handle_message_def handler_service_def)
  next
    case False
    with assms(2) ty obtain s where s: "live_service x ?l = Some s"
        "ty = CLOSE \<and> (?l \<noteq> 0 \<or> remoteport s = src_port_from_id ?mid \<or> remoteport s = VCHIQ_PORT_FREE) \<or>
         ty \<in> {OPENACK, DATA, BULK_RX_DONE, BULK_TX_DONE}"
      by (auto simp: supported_def split: option.splits message_type.splits)
    note g = live_service_get [OF s(1)]
    have hs: "handler_service ty ?l (src_port_from_id ?mid) (inst_state x) = Ok (Some (unat ?l)) ()"
    proof (cases "ty = CLOSE")
      case True
      with s h(2) show ?thesis by auto
    next
      case False
      with s(2) have "ty \<in> {OPENACK, DATA, BULK_RX, BULK_TX, BULK_RX_DONE, BULK_TX_DONE}" by auto
      with h(1) s(1) show ?thesis by simp
    qed
    note hm = handle_message_def [of S m x, unfolded ty option.case Let_def hs res.case]
    from s(2) consider "ty = CLOSE" | "ty = DATA" | "ty \<in> {OPENACK, BULK_RX_DONE, BULK_TX_DONE}" by auto
    then show ?thesis
    proof cases
      case 1
      with handle_close_total [OF inv g, of S] show ?thesis unfolding hm by auto
    next
      case 2
      with handle_data_total [OF assms(1) g, of S "src_port_from_id ?mid" m] show ?thesis unfolding hm by simp
    next
      case 3
      then show ?thesis unfolding hm by auto
    qed
  qed
qed

lemma handle_message_unsupported:
  assumes "sys_inv k x" "\<not> supported x (msgid (header m))"
  shows "\<exists>e. handle_message S m x = Panic e"
proof (cases "msg_type_from_id (msgid (header m))")
  case None
  then show ?thesis by (simp add: handle_message_def)
next
  case (Some ty)
  let ?mid = "msgid (header m)" and ?l = "dst_port_from_id (msgid (header m))"
  have inv: "srv_inv (inst_state x)" by (rule state_invD(2) [OF sys_invD(1) [OF assms(1)]])
  note h = handler_service_live(1) [OF inv, of _ ?mid] handler_service_live(2) [OF inv, of ?mid]
  show ?thesis
  proof (cases "ty \<in> {OPENACK, CLOSE, DATA, BULK_RX_DONE, BULK_TX_DONE}")
    case True
    then have "handler_service ty ?l (src_port_from_id ?mid) (inst_state x) = Panic ''not yet implemented''"
      using assms(2) Some h by (auto simp: supported_def split: option.splits message_type.splits)
    then show ?thesis by (simp add: handle_message_def Some)
  next
    case False
    with assms(2) Some have "ty \<notin> {CONNECT, PADDING}" by (auto simp: supported_def)
    with False h(1) [of ty] show ?thesis
      by (cases ty) (auto simp: handle_message_def Some handler_service_def)
  qed
qed

text \<open>The id of a data message of an open service carries its type and both ports.\<close>

lemma open_service_id:
  assumes "sys_inv k x" "get_service (inst_state x) i = Some srv" "srvstate srv = OPEN"
  shows "msg_type_from_id (make_msg_id DATA (localport srv) (remoteport srv)) = Some DATA"
    "src_port_from_id (make_msg_id DATA (localport srv) (remoteport srv)) = of_nat i"
    "dst_port_from_id (make_msg_id DATA (localport srv) (remoteport srv)) = remoteport srv"
proof -
  note d = state_invD [OF sys_invD(1) [OF assms(1)]]
  have l: "unat (localport srv) = i" "i < 4096" using srv_invD(3) [OF d(2)] srv_invD(5) [OF d(2) assms(2)] by simp_all
  have r: "unat (remoteport srv) < 4096" using d(5) [OF assms(2)] assms(3) by (auto simp: srv_ok_def)
  have "localport srv = of_nat i" using l by (metis of_nat_unat ucast_id)
  with l r show "msg_type_from_id (make_msg_id DATA (localport srv) (remoteport srv)) = Some DATA"
    "src_port_from_id (make_msg_id DATA (localport srv) (remoteport srv)) = of_nat i"
    "dst_port_from_id (make_msg_id DATA (localport srv) (remoteport srv)) = remoteport srv"
    by (simp_all add: make_msg_id_type make_msg_id_src make_msg_id_dst)
qed

section \<open>Concrete systems\<close>

text \<open>An instance with an open service of a client.\<close>

definition client_srv :: "nat service" where
  "client_srv = demo_service\<lparr>base_userdata := Some (UD_ServiceUser (service_user_new counter_sem None True))\<rparr>"

definition client_state :: "nat state" where
  "client_state = (update_service 0 (\<lambda>_. client_srv) open_state)\<lparr>conn_state := CONNECTED\<rparr>"

definition client_instance :: "nat vchiq_instance" where
  "client_instance = as_instance client_state"

lemma client_state_service: "get_service client_state i = (if i = 0 then Some client_srv else None)"
proof -
  have "get_service client_state i = get_service (update_service 0 (\<lambda>_. client_srv) open_state) i"
    by (rule get_service_cong) (simp add: client_state_def)
  moreover have "get_service open_state i = None" if "i \<noteq> 0"
    using that boot_fresh by (simp add: get_service_def open_state_def fresh_state_def)
  ultimately show ?thesis by (simp add: open_state_service)
qed

lemma client_state_srv_inv: "srv_inv client_state" "same_table open_state client_state"
proof -
  have "same_table open_state (update_service 0 (\<lambda>_. client_srv) open_state)"
    by (rule same_table_entry_update) (simp add: open_state_service client_srv_def)
  then show t: "same_table open_state client_state" unfolding client_state_def by (rule same_table_frame)
  show "srv_inv client_state" by (rule same_table_inv [OF t open_state_srv_inv])
qed

lemma client_srv_ok: "srv_ok client_srv"
  by (simp add: srv_ok_def client_srv_def user_part_ok_def service_user_new_def config_defs demo_service_def service_new_def
      demo_params_def)

lemma client_state_inv: "state_inv 4097 client_state"
proof -
  have e: "slot_state client_state = slot_state open_state" "slot_queue_available client_state = slot_queue_available open_state"
      "quota_state client_state = quota_state open_state" "default_slot_quota client_state = default_slot_quota open_state"
      "next_srv_handle client_state = 4097" "conn_state client_state = CONNECTED"
    by (simp_all add: client_state_def update_service_def open_state_def)
  have "tx_inv client_state" using open_state_inv(1) tx_inv_cong [of client_state open_state] e by simp
  moreover have "quota_inv client_state" using open_state_quota_inv e by (simp add: quota_inv_def)
  moreover have "quotas_granted client_state"
  proof -
    have d: "default_slot_quota open_state = slot_queue_available boot_state div 2" "unat (slot_queue_available boot_state) = 31"
      using boot_fresh boot_tx(2) by (simp_all add: open_state_def fresh_state_def update_quota_def)
    then have "unat (default_slot_quota open_state) = 15" by (simp add: unat_div)
    moreover have "quotas_of open_state = (replicate 4096 (service_quota_default counter_sem))[0 := quotas_of open_state ! 0]"
      using boot_fresh by (simp add: open_state_def update_quota_def fresh_state_def)
    ultimately show ?thesis
      unfolding quotas_granted_def e(3,4) open_state_quotas(2)
      by (auto simp: service_quota_default_def word_le_nat_alt dest!: set_update_cases)
  qed
  ultimately show ?thesis
    using client_state_srv_inv(1) client_srv_ok e(5,6) by (simp add: state_inv_def client_state_service)
qed

lemma client_instance_inv: "sys_inv 4097 client_instance"
  using client_state_inv
  by (simp add: sys_inv_def client_instance_def as_instance_def completion_default_def config_defs client_state_def)

lemma board_mailbox: "mailbox_accepts board"
  by (simp add: mailbox_accepts_def board_def)

section \<open>Properties\<close>

text \<open>
  C2: In every state that the system reaches from a new instance, by any interleaving of client calls,
  polls of waiting futures, received messages and writes of the VideoCore, as long as clients send at most 4088 bytes at a
  time, encoded open requests have at most 4088 bytes, and the VideoCore does not write to the queue of slots of the ARM side, the
  transmit side and the service table satisfy their invariants, no quota is exceeded, a connected instance has a connected state,
  and every service is in one of the states of its life cycle with an intact user part.
\<close>

theorem reachable_invariant:
  assumes "platform_ok P" "mailbox_accepts P" "sem_laws S cnt" "\<And>p. length (enc p) \<le> 4088"
    and "instance_new S P h = Ok x ()" "runs S enc 4088 n x y" "unat h + n < 2 ^ 64"
  shows "tx_inv (inst_state y) \<and> srv_inv (inst_state y) \<and> quota_inv (inst_state y) \<and>
    (connected y \<longrightarrow> conn_state (inst_state y) = CONNECTED) \<and>
    (\<forall>i s. get_service (inst_state y) i = Some s \<longrightarrow> srv_ok s)"
proof -
  have "sys_inv (unat h) x" using instance_new_inv [OF assms(1,2), of S h] assms(5) by auto
  with runs_inv [OF assms(3,4,6) _ assms(7)] have "sys_inv (unat h + n) y" by blast
  then show ?thesis by (auto simp: sys_inv_def state_inv_def)
qed

theorem reachable_invariant_witness:
  "\<exists>x y. instance_new counter_sem board 4096 = Ok x () \<and> runs counter_sem (\<lambda>_. []) 4088 1 x y \<and>
    conn_state (inst_state y) = CONNECTING \<and> tx_inv (inst_state y) \<and> srv_inv (inst_state y) \<and> quota_inv (inst_state y)"
proof -
  obtain x where x: "instance_new counter_sem board 4096 = Ok x ()" "sys_inv (unat (4096 :: usize)) x" "\<not> connected x"
      "initialized (inst_state x)"
    and f: "fresh_state counter_sem board ((inst_state x)\<lparr>slot_state := (slots_of x)\<lparr>slot_data :=
       (slot_data (slots_of x))\<lparr>mem := init_mem board\<rparr>\<rparr>, initialized := False\<rparr>)"
    by (rule instance_new_inv [OF board_ok board_mailbox])
  from f have b: "tx_of (inst_state x) = 0" "tx_slots (inst_state x) = 31" "conn_state (inst_state x) = DISCONNECTED"
      "id (connect_sem (inst_state x)) = 0"
    by (simp_all add: fresh_state_def board_data_slots counter_sem_def)
  obtain st where st: "connect counter_sem (inst_state x) = Ok Pending st" "conn_state st = CONNECTING"
    by (rule connect_sends [OF counter_sem_laws state_invD(1) [OF sys_invD(1) [OF x(2)]] x(4) b(3,4)
          small_message_target [OF b(1,2)]])
  let ?y = "x\<lparr>inst_state := st\<rparr>"
  have "ends (instance_connect counter_sem x) ?y"
    using x(3) st(1) by (simp add: instance_connect_def lift_state_def connect_done_def)
  then have r: "runs counter_sem (\<lambda>_. []) 4088 1 x ?y"
    using runs.advance [OF runs.start sys_step.connect_call] by simp
  show ?thesis
    using reachable_invariant [OF board_ok board_mailbox counter_sem_laws _ x(1) r] x(1) r st(2)
    by (intro exI [of _ x] exI [of _ ?y]) simp
qed

text \<open>
  C8: Along every run a service keeps its place, handle and port, closing is never taken back, and its
  state only moves along its life cycle; a freed service stays free, and an established connection stays.
\<close>

theorem service_lifecycle:
  assumes "sem_laws S cnt" "\<And>p. length (enc p) \<le> 4088" "sys_inv k x" "runs S enc 4088 n x y" "k + n < 2 ^ 64"
    and "get_service (inst_state x) i = Some s"
  shows "\<exists>s'. get_service (inst_state y) i = Some s' \<and> srv_handle s' = srv_handle s \<and> localport s' = localport s \<and>
    (closing s \<longrightarrow> closing s') \<and> lifecycle_path (srvstate s) (srvstate s') \<and>
    (srvstate s = FREE \<longrightarrow> srvstate s' = FREE) \<and>
    (conn_state (inst_state x) = CONNECTED \<longrightarrow> conn_state (inst_state y) = CONNECTED)"
proof -
  have e: "evolves (inst_state x) (inst_state y)" using runs_inv [OF assms(1,2,4,3,5)] by simp
  from evolvesD(2) [OF e assms(6)] obtain s' where "get_service (inst_state y) i = Some s'" "srv_moves s s'" by blast
  with evolvesD(1) [OF e] show ?thesis by (auto simp: srv_moves_def)
qed

theorem service_lifecycle_witness:
  "\<exists>y s'. runs counter_sem (\<lambda>_. []) 4088 1 client_instance y \<and> get_service (inst_state y) 0 = Some s' \<and>
    srv_handle s' = 4096 \<and> lifecycle_path OPEN (srvstate s') \<and> srvstate s' = CLOSESENT"
proof -
  have l: "lookup_handle client_state 4096 = Some 0"
    using same_table_lookup [OF client_state_srv_inv(2)] open_state_lookup by simp
  have g: "get_service client_state 0 = Some client_srv" by (simp add: client_state_service)
  have o: "srvstate client_srv = OPEN" "srv_handle client_srv = 4096" by (simp_all add: client_srv_def)
  have t: "tx_of client_state = 0" "tx_slots client_state = 31"
    using open_state_inv(2,3) by (simp_all add: client_state_def)
  obtain st where st: "close_start counter_sem 4096 client_state = Ok () st"
      "get_service st 0 = Some (client_srv\<lparr>closing := True, srvstate := CLOSESENT\<rparr>)"
    by (rule close_start_open [OF state_invD(1) [OF client_state_inv] client_state_srv_inv(1) l g o(1)
          small_message_target [OF t]])
  let ?y = "client_instance\<lparr>inst_state := st\<rparr>"
  have i: "inst_state client_instance = client_state" by (simp add: client_instance_def as_instance_def)
  have "ends (lift_state (close_start counter_sem 4096) client_instance) ?y"
    using st(1) i by (simp add: lift_state_def)
  then have r: "runs counter_sem (\<lambda>_. []) 4088 1 client_instance ?y"
    using runs.advance [OF runs.start sys_step.close_call] by simp
  have g': "get_service (inst_state client_instance) 0 = Some client_srv" using g i by simp
  show ?thesis
    using service_lifecycle [OF counter_sem_laws _ client_instance_inv r _ g'] r st(2) o
    by (intro exI [of _ ?y]) auto
qed

text \<open>
  C9: While the invariant holds, a received message is handled exactly when it is supported: its type
  is known and implemented, and messages for a service are addressed to one that is not free; a \<^verbatim>\<open>CLOSE\<close> for port 0 in
  addition comes from the peer of that service, or the service has no peer yet.  Every other message stops the driver
  with a panic.
\<close>

theorem handle_message_exact:
  assumes "sys_inv k x"
  shows "if supported x (msgid (header m)) then \<exists>y. handle_message S m x = Ok () y
    else \<exists>e. handle_message S m x = Panic e"
  using handle_message_supported [OF assms] handle_message_unsupported [OF assms] by auto

theorem handle_message_exact_witness:
  "(\<exists>y. handle_message counter_sem (answer DATA 1) client_instance = Ok () y) \<and>
   (\<exists>e. handle_message counter_sem (answer PAUSE 0) client_instance = Panic e)"
proof -
  have d: "message_to DATA 1 0 (answer DATA 1)" "message_to PAUSE 0 0 (answer PAUSE 0)" by (simp_all add: answer_to)
  have "supported client_instance (msgid (header (answer DATA 1)))" "\<not> supported client_instance (msgid (header (answer PAUSE 0)))"
    unfolding supported_def message_toD(1-3) [OF d(1)] message_toD(1) [OF d(2)]
    by (simp_all add: live_service_def client_instance_def as_instance_def client_state_service client_srv_def)
  with handle_message_exact [OF client_instance_inv, of "answer DATA 1" counter_sem]
    handle_message_exact [OF client_instance_inv, of "answer PAUSE 0" counter_sem] show ?thesis by simp
qed

text \<open>
  C4: While the invariant holds, data of at most 4088 bytes that a client sends through an open service is found in the stream with
  the ids that the receiver needs: the message has type \<^verbatim>\<open>DATA\<close>, comes from the port of the service, goes to the port
  of its peer and carries the data unchanged.
\<close>

theorem client_data_addressed:
  assumes "sem_laws S cnt" "sys_inv k x" "lookup_handle (inst_state x) h = Some i" "get_service (inst_state x) i = Some srv"
    and "srvstate srv = OPEN" "length data \<le> 4088" "instance_queue_message S h data x = Ok () y"
  shows "\<exists>p m. read_message (slot_data (slots_of y)) p = Ok m () \<and> tx_data (slots_of y) = Some p \<and> msg_data m = data \<and>
    msg_type_from_id (msgid (header m)) = Some DATA \<and> src_port_from_id (msgid (header m)) = of_nat i \<and>
    dst_port_from_id (msgid (header m)) = remoteport srv"
proof -
  let ?id = "make_msg_id DATA (localport srv) (remoteport srv)" and ?st = "inst_state x"
  have q: "queue_message S (Some i) ?id (Some data) False ?st = Ok () (inst_state y)"
    using assms(7) service_from_handle_lookup [OF assms(3)] assms(4)
    by (auto simp: instance_queue_message_def lift_state_def outcome)
  note d = state_invD [OF sys_invD(1) [OF assms(2)]]
  have z: "context_size (Some data) \<le> 4088" using assms(6) by (simp add: context_size_def)
  obtain ty where ty: "tx_target ?id (Some data) ?st < tx_slots ?st * 4096"
      "inst_state y = queued_state (Some i) ty ?id (Some data) (tx_target ?id (Some data) ?st) ?st"
    by (rule queue_message_Ok [OF assms(1) d(1) z q])
  note f = queued_facts(5) [OF d(1) z ty(1), of "Some i" ty, folded ty(2)]
  have "tx_data (slots_of y) = Some (tx_position ?st (tx_target ?id (Some data) ?st))"
    unfolding ty(2) by (rule queued_state_simps(3))
  with f open_service_id [OF assms(2,4,5)] show ?thesis by (auto simp: queued_message_def)
qed

lemma client_state_sendable: "sendable counter_sem (Some 0) (make_msg_id DATA 0 1) (Some [1, 2, 3]) client_state"
proof -
  have q: "quota_state client_state = quota_state open_state" by (simp add: client_state_def)
  have g: "get_service client_state 0 = Some client_srv" by (simp add: client_state_service)
  have "data_quota_free w client_state" for w
    using open_state_quotas(3,4) by (auto simp: data_quota_free_def Let_def q)
  moreover have "service_quota_free w client_srv client_state" for w
    by (simp add: service_quota_free_def Let_def q open_state_quotas(2) service_quota_default_def client_srv_def)
  ultimately have "data_quota_check counter_sem (Some 0) w client_state = Ok () client_state" for w
    using open_state_quotas(1) by (intro data_quota_check_free [OF g]) (simp_all add: q client_srv_def)
  then show ?thesis
    using g open_state_quotas(1)
    by (simp add: sendable_def data_service_ok_def borrow_ref_def context_size_def make_msg_id_type q client_srv_def)
qed

theorem client_data_addressed_witness:
  "\<exists>y p m. instance_queue_message counter_sem 4096 [1, 2, 3] client_instance = Ok () y \<and>
    read_message (slot_data (slots_of y)) p = Ok m () \<and> msg_data m = [1, 2, 3] \<and> src_port_from_id (msgid (header m)) = 0"
proof -
  have i: "inst_state client_instance = client_state" by (simp add: client_instance_def as_instance_def)
  have g: "get_service client_state 0 = Some client_srv" by (simp add: client_state_service)
  have s: "srvstate client_srv = OPEN" "localport client_srv = 0" "remoteport client_srv = 1" by (simp_all add: client_srv_def)
  have l: "lookup_handle client_state 4096 = Some 0"
    using same_table_lookup [OF client_state_srv_inv(2)] open_state_lookup by simp
  have t: "tx_of client_state = 0" "tx_slots client_state = 31"
    using open_state_inv(2,3) by (simp_all add: client_state_def)
  have "tx_target (make_msg_id DATA 0 1) (Some [1, 2, 3]) client_state = 0"
    by (rule tx_target_small [OF t(1)]) (simp add: context_size_def)
  then obtain st where "queue_message counter_sem (Some 0) (make_msg_id DATA 0 1) (Some [1, 2, 3]) False client_state = Ok () st"
    using queue_message_cases [OF state_invD(1) [OF client_state_inv] client_state_sendable, of False] t(2)
    by (metis mult_is_0 neq0_conv numeral_neq_zero)
  then have q: "instance_queue_message counter_sem 4096 [1, 2, 3] client_instance = Ok () (client_instance\<lparr>inst_state := st\<rparr>)"
    by (simp add: instance_queue_message_def lift_state_def i service_from_handle_lookup [OF l] g s)
  from client_data_addressed [OF counter_sem_laws client_instance_inv _ _ s(1) _ q, of 0] show ?thesis
    using q by (auto simp: i l g)
qed

end
