(* ===== verification/Session.thy ===== *)
theory Session
  imports Reachable
begin

text \<open>
  One service of a client from opening to closing, on the VCHIQ side: what each operation of the ARM side and each
  answer of the VideoCore does to a service that lives in an otherwise unused system.  All messages fit into the first slot.
\<close>

section \<open>Sending in the first slot\<close>

lemma tx_target_here:
  assumes "context_size c \<le> 4000" "tx_of st + context_size c + 15 \<le> 4096" "1 \<le> tx_slots st"
  shows "tx_target i c st = tx_of st" "tx_target i c st < tx_slots st * 4096"
    "stride_of (queued_message i c) \<le> context_size c + 15"
proof -
  have "unat (msg_size (header (queued_message i c))) = context_size c"
    using assms(1) by (simp add: queued_message_def unat_of_nat_u32)
  then show s: "stride_of (queued_message i c) \<le> context_size c + 15" by (simp add: stride_of_eq)
  moreover have "tx_of st < 4096" using assms(2) by simp
  ultimately show t: "tx_target i c st = tx_of st" using assms(2) by (simp add: tx_target_def next_tx_def)
  have "1 * 4096 \<le> tx_slots st * 4096" using assms(3) by (rule mult_le_mono1)
  with \<open>tx_of st < 4096\<close> show "tx_target i c st < tx_slots st * 4096" unfolding t by linarith
qed

text \<open>What a message that fits into the first slot changes.\<close>

lemma sent_here:
  assumes "tx_inv st" "sendable S service msg_id c st" "msg_type_from_id msg_id = Some ty"
    and "context_size c \<le> 4000" "tx_of st + context_size c + 15 \<le> 4096" "1 \<le> tx_slots st"
  obtains st' where "queue_message S service msg_id c b st = Ok () st'" "tx_inv st'"
    "tx_of st' \<le> tx_of st + context_size c + 15" "tx_slots st' = tx_slots st" "same_table st st'"
    "srv_state st' = sent_services service ty st" "conn_state st' = conn_state st" "connect_sem st' = connect_sem st"
    "quota_state st' = quota_state st \<or> ty = DATA" "next_srv_handle st' = next_srv_handle st"
    "default_slot_quota st' = default_slot_quota st" "default_message_quota st' = default_message_quota st"
    "initialized st' = initialized st" "slot_queue_available st' = slot_queue_available st"
proof -
  note t = tx_target_here [OF assms(4-6), of msg_id]
  let ?st = "queued_state service ty msg_id c (tx_target msg_id c st) st"
  have q: "queue_message S service msg_id c b st = Ok () ?st"
    using assms(1,2)
  proof (cases rule: queue_message_cases [where b = b])
    case full
    with t(2) show ?thesis by simp
  next
    case (sent ty')
    with assms(3) show ?thesis by simp
  qed
  have z: "context_size c \<le> 4088" using assms(4) by simp
  note f = queued_facts(1,2) [OF assms(1) z t(2), of service ty]
  have u: "tx_of ?st \<le> tx_of st + context_size c + 15" using f(2) t(1,3) by simp
  have a: "quota_state ?st = quota_state st \<or> ty = DATA"
    by (cases "ty = DATA") (simp_all add: queued_state_simps accounted_def split: option.splits)
  show thesis
    by (rule that [OF q f(1) u _ queued_table _ _ _ a]) (simp_all add: queued_state_simps queued_state_frame)
qed

section \<open>The states of a session\<close>

text \<open>A connected state without services; a state with the service of the client at index 0, nobody waiting for it; and
  quotas that let a data message pass.\<close>

definition idle :: "'sem sem_ops \<Rightarrow> 'sem state \<Rightarrow> bool" where
  "idle S st \<longleftrightarrow> tx_inv st \<and> srv_inv st \<and> unused_service (srv_state st) = 0 \<and> (\<forall>i. get_service st i = None) \<and>
     tx_of st \<le> 15 \<and> 31 \<le> tx_slots st \<and> quotas_of st ! 0 = service_quota_default S \<and>
     data_use_count (quota_state st) = 0 \<and> data_quota (quota_state st) = slot_queue_available st - 1 \<and>
     default_slot_quota st = slot_queue_available st div 2 \<and> unat (default_message_quota st) = tx_slots st div 2 * 256"

definition serves :: "('sem \<Rightarrow> nat) \<Rightarrow> service_handle \<Rightarrow> 'sem service \<Rightarrow> 'sem state \<Rightarrow> bool" where
  "serves cnt vh srv st \<longleftrightarrow> tx_inv st \<and> srv_inv st \<and> lookup_handle st vh = Some 0 \<and> get_service st 0 = Some srv \<and>
     srv_handle srv = vh \<and> localport srv = 0 \<and> 31 \<le> tx_slots st \<and> cnt (remove_event srv) = 0"

definition quota_left :: "'sem state \<Rightarrow> bool" where
  "quota_left st \<longleftrightarrow> data_use_count (quota_state st) \<noteq> data_quota (quota_state st) \<and>
     message_use_count (quotas_of st ! 0) \<noteq> message_quota (quotas_of st ! 0) \<and>
     slot_use_count (quotas_of st ! 0) \<noteq> slot_quota (quotas_of st ! 0)"

lemma servesD:
  assumes "serves cnt vh srv st"
  shows "tx_inv st" "srv_inv st" "lookup_handle st vh = Some 0" "get_service st 0 = Some srv" "srv_handle srv = vh"
    "localport srv = 0" "31 \<le> tx_slots st" "cnt (remove_event srv) = 0" "length (quotas_of st) = 4096"
    "service_from_handle st vh = Inr 0"
  using assms srv_invD(2) service_from_handle_lookup by (auto simp: serves_def)

lemma idle_quotas:
  assumes "idle S st"
  shows "slot_queue_available st - 1 \<noteq> 0" "default_slot_quota st \<noteq> 0" "default_message_quota st \<noteq> 0"
proof -
  have a: "31 \<le> unat (slot_queue_available st)" using assms by (simp add: idle_def)
  then have "unat (slot_queue_available st - 1) = unat (slot_queue_available st) - 1" by (intro unat_pred) simp
  then show "slot_queue_available st - 1 \<noteq> 0" using a by fastforce
  have "unat (default_slot_quota st) = unat (slot_queue_available st) div 2"
    "unat (default_message_quota st) = unat (slot_queue_available st) div 2 * 256"
    using assms by (simp_all add: idle_def unat_div)
  with a show "default_slot_quota st \<noteq> 0" "default_message_quota st \<noteq> 0" by fastforce+
qed

section \<open>Opening\<close>

text \<open>The new service before its open message is sent.\<close>

lemma service_added:
  assumes "sem_laws S cnt" "idle S st" "unat (next_srv_handle st) + 1 < 2 ^ 64"
  obtains st1 srv where "add_service S (internal_params S params vchi) OPENING st = Ok (next_srv_handle st) st1"
    "serves cnt (next_srv_handle st) srv st1" "srvstate srv = OPENING" "\<not> closing srv"
    "base_callback srv = Some InternalCallback" "remoteport srv = VCHIQ_PORT_FREE"
    "base_userdata srv = Some (UD_ServiceUser (service_user_new S (sp_userdata params) vchi))" "quota_left st1"
    "tx_of st1 = tx_of st" "conn_state st1 = conn_state st"
proof -
  let ?h = "next_srv_handle st" and ?old = "st\<lparr>next_srv_handle := next_srv_handle st + 1\<rparr>"
  define srv where "srv = set_state OPENING ((fst (service_new S (internal_params S params vchi) ?h))
      \<lparr>public_fourcc := None, localport := 0\<rparr>)"
  let ?st = "insert_service 0 srv ?old"
  have d: "tx_inv st" "srv_inv st" "unused_service (srv_state st) = 0" "\<And>i. get_service st i = None" "31 \<le> tx_slots st"
      "quotas_of st ! 0 = service_quota_default S" "data_use_count (quota_state st) = 0"
      "data_quota (quota_state st) = slot_queue_available st - 1"
    using assms(2) by (simp_all add: idle_def)
  have l: "length (quotas_of ?old) = 4096" "length (services_of ?old) = 4096" using srv_invD(1,2) [OF d(2)] by simp_all
  then have z: "0 < length (quotas_of ?old)" "0 < length (services_of ?old)" by simp_all
  note q = insert_service_simps [OF z(1), of srv]
  have a: "add_service S (internal_params S params vchi) OPENING st = Ok ?h ?st"
    using add_service_eq [OF d(2), of S "internal_params S params vchi"] d(3) by (simp add: srv_def)
  have g: "get_service ?st 0 = Some srv" using insert_service_get [OF z, of srv 0] by simp
  have s: "unat (localport srv) = 0" "srv_handle srv = ?h" "localport srv = 0" "remove_event srv = sem_new S 0"
      "srvstate srv = OPENING" "\<not> closing srv" "base_callback srv = Some InternalCallback" "remoteport srv = VCHIQ_PORT_FREE"
      "base_userdata srv = Some (UD_ServiceUser (service_user_new S (sp_userdata params) vchi))"
    by (simp_all add: srv_def service_new_def set_state_def internal_params_def)
  have lt: "?h < ?h + 1" using assms(3) by (simp add: word_less_nat_alt unat_add_small)
  have "srv_inv ?st"
    using insert_service_inv [OF d(2) _ _ s(1,2) _ lt] d(3,4) by simp
  moreover from this have "lookup_handle ?st ?h = Some 0" using services.lookup_key [OF srv_invD(4) g] s(2) by simp
  moreover have "tx_inv ?st" using d(1) tx_inv_cong [of ?st st] q by simp
  ultimately have "serves cnt ?h srv ?st"
    using g s d(5) q sem_lawsD(1) [OF assms(1), of 0] by (simp add: serves_def)
  moreover have "quota_left ?st"
  proof -
    have "data_use_count (quota_state ?st) = 0" "data_quota (quota_state ?st) = slot_queue_available st - 1"
      using d(7,8) by (simp_all add: insert_service_def Let_def update_quota_def)
    moreover have "quotas_of ?st ! 0 =
        service_quota_setup (default_slot_quota st) (default_message_quota st) (local_tx_pos (slot_state st)) (service_quota_default S)"
      using q(8) d(6) by simp
    ultimately show ?thesis
      using idle_quotas [OF assms(2)]
      by (simp add: quota_left_def service_quota_setup_def service_quota_default_def Let_def)
  qed
  ultimately show thesis using that [OF a _ s(5-9)] q by simp
qed

text \<open>A control message leaves the service alone; the end of its wait is not near.\<close>

lemma serves_sent:
  assumes "serves cnt vh srv st" "tx_inv st'" "same_table st st'" "srv_state st' = srv_state st" "tx_slots st' = tx_slots st"
  shows "serves cnt vh srv st'"
  using servesD [OF assms(1)] assms same_table_inv [OF assms(3)] same_table_lookup [OF assms(3)] get_service_cong [OF assms(4)]
  by (simp add: serves_def)

lemma serves_pending:
  assumes "sem_laws S cnt" "serves cnt vh srv st"
  shows "open_poll S vh st = Ok Pending st" "close_poll S vh st = Ok Pending st"
  using remove_event_pending [OF assms(1) servesD(3,4,8) [OF assms(2)]] by (simp_all add: open_poll_def close_poll_def)

lemma create_started:
  assumes "sem_laws S cnt" "idle S (inst_state x)" "unat (next_srv_handle (inst_state x)) + 1 < 2 ^ 64" "connected x"
    and "\<And>p. length (enc p) \<le> 2000"
  obtains st srv where "create_start S enc params True vchi x = Ok (next_srv_handle (inst_state x)) (x\<lparr>inst_state := st\<rparr>)"
    "serves cnt (next_srv_handle (inst_state x)) srv st" "srvstate srv = OPENING" "\<not> closing srv"
    "base_callback srv = Some InternalCallback" "remoteport srv = VCHIQ_PORT_FREE"
    "base_userdata srv = Some (UD_ServiceUser (service_user_new S (sp_userdata params) vchi))" "quota_left st"
    "tx_of st \<le> 2030" "conn_state st = conn_state (inst_state x)"
proof -
  let ?h = "next_srv_handle (inst_state x)"
  obtain st1 srv where a: "add_service S (internal_params S params vchi) OPENING (inst_state x) = Ok ?h st1"
    "serves cnt ?h srv st1" "srvstate srv = OPENING" "\<not> closing srv" "base_callback srv = Some InternalCallback"
    "remoteport srv = VCHIQ_PORT_FREE" "base_userdata srv = Some (UD_ServiceUser (service_user_new S (sp_userdata params) vchi))"
    "quota_left st1" "tx_of st1 = tx_of (inst_state x)" "conn_state st1 = conn_state (inst_state x)"
    by (rule service_added [OF assms(1-3)])
  note d = servesD [OF a(2)]
  define pl where "pl = \<lparr>op_fourcc = base_fourcc srv, op_client_id = 0, op_version = srv_version srv,
      op_version_min = srv_version_min srv\<rparr>"
  let ?id = "make_msg_id OPEN_MSG 0 0" and ?c = "Some (enc pl)"
  have ty: "msg_type_from_id ?id = Some OPEN_MSG" by (simp add: make_msg_id_type)
  have z: "context_size ?c \<le> 4000" "context_size ?c \<le> 2000"
    using assms(5) [of pl] by (simp_all add: context_size_def)
  then have sd: "sendable S None ?id ?c st1" using ty by (intro control_sendable) (simp add: control_message_def)
  have "tx_of (inst_state x) \<le> 15" using assms(2) by (simp add: idle_def)
  then have room: "tx_of st1 + context_size ?c + 15 \<le> 4096" using z(2) a(9) by simp
  have one: "1 \<le> tx_slots st1" using d(7) by simp
  obtain st where q: "queue_message S None ?id ?c True st1 = Ok () st" "tx_inv st" "tx_of st \<le> tx_of st1 + context_size ?c + 15"
      "tx_slots st = tx_slots st1" "same_table st1 st" "srv_state st = sent_services None OPEN_MSG st1"
      "conn_state st = conn_state st1" "connect_sem st = connect_sem st1" "quota_state st = quota_state st1 \<or> OPEN_MSG = DATA"
    by (rule sent_here [where b = True, OF d(1) sd ty z(1) room one])
  have "open_send S enc ?h st1 = Ok () st"
    using q(1) d(4,6,10) by (simp add: open_send_def pl_def)
  then have c: "create_start S enc params True vchi x = Ok ?h (x\<lparr>inst_state := st\<rparr>)"
    using a(1) assms(4) by (simp add: create_start_def create_state_def lift_state_def)
  have s: "serves cnt ?h srv st" using serves_sent [OF a(2) q(2,5) _ q(4)] q(6) by (simp add: sent_services_def)
  have t: "tx_of st \<le> 2030" using q(3) a(9) z(2) \<open>tx_of (inst_state x) \<le> 15\<close> by linarith
  show thesis
    by (rule that [OF c s a(3-7) _ t]) (use q(7,9) a(8,10) in \<open>simp_all add: quota_left_def\<close>)
qed

section \<open>The answer to the open message\<close>

lemma openack_received:
  assumes "sem_laws S cnt" "serves cnt vh srv (inst_state x)" "srvstate srv = OPENING" "message_to OPENACK r 0 m"
  obtains st st' srv' where "handle_message S m x = Ok () (x\<lparr>inst_state := st\<rparr>)" "open_poll S vh st = Ok (Ready ()) st'"
    "serves cnt vh srv' st'" "srvstate srv' = OPEN" "remoteport srv' = r" "closing srv' = closing srv"
    "base_callback srv' = base_callback srv" "base_userdata srv' = base_userdata srv"
    "quota_state st' = quota_state (inst_state x)" "tx_of st' = tx_of (inst_state x)" "conn_state st' = conn_state (inst_state x)"
proof -
  note d = servesD [OF assms(2)]
  let ?st = "handle_openack S 0 r m (inst_state x)"
  have h: "handle_message S m x = Ok () (x\<lparr>inst_state := ?st\<rparr>)"
    using handle_openack_message [OF assms(4) d(4)] assms(3) by (simp add: on_state_def)
  obtain srv1 where s: "get_service ?st 0 = Some srv1" "srvstate srv1 = OPEN" "remoteport srv1 = r"
      "remove_event srv1 = sem_up S (remove_event srv)" "srv_handle srv1 = vh" "localport srv1 = 0" "closing srv1 = closing srv"
      "base_callback srv1 = base_callback srv" "base_userdata srv1 = base_userdata srv"
    using d(4-6) assms(3)
    by (cases "open_ack_try_from m") (simp_all add: handle_openack_def Let_def set_state_def)
  have f: "slot_state ?st = slot_state (inst_state x)" "quota_state ?st = quota_state (inst_state x)"
      "conn_state ?st = conn_state (inst_state x)" "slot_queue_available ?st = slot_queue_available (inst_state x)"
    using d(4) by (auto simp: handle_openack_def Let_def split: sum.splits option.splits)
  have l: "lookup_handle ?st vh = Some 0" using d(3) by (simp add: same_table_lookup [OF openack_table])
  have "cnt (remove_event srv1) = 1" using s(4) d(8) sem_lawsD(4) [OF assms(1)] by simp
  then obtain e where e: "remove_event_poll S vh ?st =
      Ok (Ready (srvstate srv1)) (update_service 0 (\<lambda>s'. s'\<lparr>remove_event := e\<rparr>) ?st)" "cnt e = 0"
    using remove_event_ready [OF assms(1) l s(1)] by auto
  let ?st' = "update_service 0 (\<lambda>s'. s'\<lparr>remove_event := e\<rparr>) ?st"
  have t: "same_table (inst_state x) ?st'" by (simp add: same_table_update openack_table)
  have "serves cnt vh (srv1\<lparr>remove_event := e\<rparr>) ?st'"
    using same_table_inv [OF t d(2)] same_table_lookup [OF t] d(1,3,7) tx_inv_cong [of ?st' "inst_state x"] f s(1,5,6) e(2)
    by (simp add: serves_def)
  then show thesis
    using e(1) s(2,3,7-9) f by (intro that [OF h, of ?st' "srv1\<lparr>remove_event := e\<rparr>"]) (simp_all add: open_poll_def)
qed

section \<open>Sending data\<close>

lemma data_sent:
  assumes "serves cnt vh srv (inst_state x)" "\<not> closing srv" "unat (remoteport srv) < 4096" "quota_left (inst_state x)"
    and "length data \<le> 40" "tx_of (inst_state x) \<le> 2030"
  obtains st where "instance_queue_message S vh data x = Ok () (x\<lparr>inst_state := st\<rparr>)" "serves cnt vh srv st"
    "tx_of st \<le> 2085" "conn_state st = conn_state (inst_state x)"
proof -
  note d = servesD [OF assms(1)]
  let ?st = "inst_state x" and ?id = "make_msg_id DATA (localport srv) (remoteport srv)" and ?c = "Some data"
  have ty: "msg_type_from_id ?id = Some DATA" using d(6) assms(3) by (simp add: make_msg_id_type)
  have z: "context_size ?c \<le> 40" "context_size ?c \<le> 4000" using assms(5) by (simp_all add: context_size_def)
  have "data_quota_check S (Some 0) w ?st = Ok () ?st" for w
    using assms(2,4) d(6,9)
    by (intro data_quota_check_free [OF d(4)]) (simp_all add: quota_left_def data_quota_free_def service_quota_free_def Let_def)
  then have sd: "sendable S (Some 0) ?id ?c ?st"
    using ty z d(4,6,9) by (simp add: sendable_def data_service_ok_def borrow_ref_def)
  have room: "tx_of ?st + context_size ?c + 15 \<le> 4096" using z(1) assms(6) by linarith
  have one: "1 \<le> tx_slots ?st" using d(7) by simp
  obtain st where q: "queue_message S (Some 0) ?id ?c False ?st = Ok () st" "tx_inv st"
      "tx_of st \<le> tx_of ?st + context_size ?c + 15" "tx_slots st = tx_slots ?st" "same_table ?st st"
      "srv_state st = sent_services (Some 0) DATA ?st" "conn_state st = conn_state ?st"
    by (rule sent_here [where b = False, OF d(1) sd ty z(2) room one])
  have i: "instance_queue_message S vh data x = Ok () (x\<lparr>inst_state := st\<rparr>)"
    using q(1) d(4,10) by (simp add: instance_queue_message_def lift_state_def)
  have s: "serves cnt vh srv st" using serves_sent [OF assms(1) q(2,5) _ q(4)] q(6) by (simp add: sent_services_def)
  show thesis by (rule that [OF i s _ q(7)]) (use q(3) z(1) assms(6) in linarith)
qed

section \<open>Receiving data\<close>

text \<open>The first message for a service of a VCHI client ends in its queue and as a completion.\<close>

lemma data_received:
  assumes "serves cnt vh srv (inst_state x)" "srvstate srv = OPEN" "base_callback srv = Some InternalCallback"
    and "base_userdata srv = Some (UD_ServiceUser (service_user_new S ud True))" "message_to DATA (remoteport srv) 0 m"
    and "inst_completion x = completion_default S"
  obtains y us where "handle_message S m x = Ok () y" "serves cnt vh (srv\<lparr>base_userdata := Some (UD_ServiceUser us)\<rparr>) (inst_state y)"
    "pending_messages us = [Some m]" "completion_inv (inst_completion y)"
    "pending_completions (inst_completion y) = [Some \<lparr>sc_reason = MESSAGE_AVAILABLE, sc_msg = Some m, sc_userdata = ud\<rparr>]"
    "connected y = connected x" "tx_of (inst_state y) = tx_of (inst_state x)" "conn_state (inst_state y) = conn_state (inst_state x)"
proof -
  note d = servesD [OF assms(1)]
  let ?us = "service_user_new S ud True" and ?c = "completion_default S"
  have u: "user_inv ?us" "ring_len (msg_insert ?us) (msg_remove ?us) < 128" "unat (msg_insert ?us) + 1 < 2 ^ 64" "is_vchi ?us"
      "message_available_pos ?us = -1" "\<not> dequeue_pending ?us" "su_userdata ?us = ud" "pending_messages ?us = []"
    using service_user_new_inv by (simp_all add: service_user_new_def ring_len_def)
  have c: "completion_inv ?c" "pending_completions ?c = []" "ring_len (completion_insert ?c) (completion_remove ?c) < 128"
      "completion_remove ?c = 0"
    using completion_default_inv by (simp_all add: completion_default_def ring_len_def)
  obtain us1 where i: "callback_insert S (Some m) (?us, ?c) = Ok False (us1, ?c)" "pending_messages us1 = [Some m]"
      "su_userdata us1 = ud"
    using callback_insert_room [OF u(1-3), of S m ?c] u(5-8) c(4) by auto
  obtain us2 c2 where a: "add_completion S MESSAGE_AVAILABLE (Some m) us1 ?c = Ok () (us2, c2)" "completion_inv c2"
      "pending_completions c2 = [Some \<lparr>sc_reason = MESSAGE_AVAILABLE, sc_msg = Some m, sc_userdata = ud\<rparr>]"
      "pending_messages us2 = [Some m]"
    using add_completion_room [OF c(1,3), of S MESSAGE_AVAILABLE "Some m" us1] c(2) i(2,3) by auto
  have cb: "user_callback S MESSAGE_AVAILABLE (Some m) ?us ?c = Ok () (us2, c2)"
    using i(1) a(1) u(2,4) by (simp add: user_callback_def callback_full_def queue_full_iff)
  let ?x = "on_state (update_service 0 (\<lambda>s. s\<lparr>base_callback := None\<rparr>)) x"
  let ?u = "Some (UD_ServiceUser us2)"
  define y where "y = x\<lparr>inst_state := update_service 0 (\<lambda>s. s\<lparr>base_callback := Some InternalCallback\<rparr>)
      (update_service 0 (\<lambda>_. srv\<lparr>base_callback := None, base_userdata := ?u\<rparr>) (inst_state ?x)), inst_completion := c2\<rparr>"
  have "same_table (inst_state x) (inst_state ?x)" by (simp add: on_state_def same_table_update)
  then have l: "service_from_handle (inst_state ?x) vh = Inr 0"
    using d(3) by (intro service_from_handle_lookup) (simp add: same_table_lookup)
  have gx: "get_service (inst_state ?x) 0 = Some (srv\<lparr>base_callback := None\<rparr>)" using d(4) by (simp add: on_state_def)
  have ic: "inst_completion ?x = ?c" by (simp add: on_state_def assms(6))
  have sc: "service_callback S MESSAGE_AVAILABLE (Some m) (srv\<lparr>base_callback := None\<rparr>) ?c =
      Ok () (srv\<lparr>base_callback := None, base_userdata := ?u\<rparr>, c2)"
    by (simp add: service_callback_def assms(4) cb)
  have "run_callback S InternalCallback m vh ?x = Ok ()
      (?x\<lparr>inst_state := update_service 0 (\<lambda>_. srv\<lparr>base_callback := None, base_userdata := ?u\<rparr>) (inst_state ?x), inst_completion := c2\<rparr>)"
    unfolding run_callback_def vchiq_callback.case l sum.case gx option.case ic sc by simp
  then have h: "handle_data S 0 (remoteport srv) m x = Ok () y"
    using d(4,5) assms(2,3) by (simp add: handle_data_def y_def on_state_def)
  note t = message_toD [OF assms(5)]
  have "handler_service DATA (of_nat 0) (remoteport srv) (inst_state x) = Ok (Some 0) ()"
    unfolding handler_service_def using service_by_port_found [OF d(4) _ t(4)] assms(2) by simp
  then have m: "handle_message S m x = Ok () y"
    unfolding handle_message_def Let_def t(1-3) option.case using h by simp
  have tb: "same_table (inst_state x) (inst_state y)" by (rule handle_message_table [OF m])
  have gy: "get_service (inst_state y) 0 = Some (srv\<lparr>base_userdata := ?u\<rparr>)"
    using gx assms(3) by (simp add: y_def)
  have f: "slot_state (inst_state y) = slot_state (inst_state x)" "conn_state (inst_state y) = conn_state (inst_state x)"
      "slot_queue_available (inst_state y) = slot_queue_available (inst_state x)" "inst_completion y = c2" "connected y = connected x"
    by (simp_all add: y_def on_state_def)
  have s: "serves cnt vh (srv\<lparr>base_userdata := ?u\<rparr>) (inst_state y)"
    using d gy same_table_inv [OF tb d(2)] same_table_lookup [OF tb] tx_inv_cong [of "inst_state y" "inst_state x"] f
    by (simp add: serves_def)
  show thesis using that [OF m s a(4)] a(2,3) f by simp
qed

section \<open>Closing\<close>

lemma close_begun:
  assumes "sem_laws S cnt" "serves cnt vh srv (inst_state x)" "srvstate srv = OPEN" "tx_of (inst_state x) \<le> 2085"
  obtains st where "instance_close_service S vh x = Ok Pending (x\<lparr>inst_state := st\<rparr>)" "close_poll S vh st = Ok Pending st"
    "srv_inv st" "lookup_handle st vh = Some 0" "get_service st 0 = Some (srv\<lparr>closing := True, srvstate := CLOSESENT\<rparr>)"
proof -
  note d = servesD [OF assms(2)]
  have "tx_target (close_id srv) None (inst_state x) < tx_slots (inst_state x) * 4096"
    using assms(4) d(7) by (intro tx_target_here(2)) (simp_all add: context_size_def)
  then obtain st where s: "close_start S vh (inst_state x) = Ok () st" "same_table (inst_state x) st" "tx_inv st"
      "get_service st 0 = Some (srv\<lparr>closing := True, srvstate := CLOSESENT\<rparr>)"
    by (rule close_start_open [OF d(1-4) assms(3)])
  have l: "lookup_handle st vh = Some 0" using d(3) by (simp add: same_table_lookup [OF s(2)])
  have p: "close_poll S vh st = Ok Pending st"
    using remove_event_pending [OF assms(1) l s(4)] d(8) by (simp add: close_poll_def)
  then have "instance_close_service S vh x = Ok Pending (x\<lparr>inst_state := st\<rparr>)"
    using s(1) by (simp add: instance_close_service_def close_service_def lift_state_def)
  then show thesis using p same_table_inv [OF s(2) d(2)] l s(4) by (rule that)
qed

lemma close_answered:
  assumes "sem_laws S cnt" "srv_inv (inst_state x)" "lookup_handle (inst_state x) vh = Some 0"
    and "get_service (inst_state x) 0 = Some srv" "srvstate srv = CLOSESENT" "message_to CLOSE (remoteport srv) 0 m"
  obtains st st' srv' where "handle_message S m x = Ok () (x\<lparr>inst_state := st\<rparr>)" "close_poll S vh st = Ok (Ready ()) st'"
    "srv_inv st'" "get_service st' 0 = Some srv'" "srvstate srv' = FREE"
proof -
  have "unat (localport srv) < length (quotas_of (inst_state x))"
    using srv_invD(2,3) [OF assms(2)] srv_invD(5) [OF assms(2,4)] by simp
  then obtain st srv' where c: "handle_close S 0 (inst_state x) = Ok () st" "get_service st 0 = Some srv'" "srvstate srv' = FREE"
      "remoteport srv' = VCHIQ_PORT_FREE" "remove_event srv' = sem_up S (remove_event srv)"
    by (rule handle_close_sent [OF assms(4,5)])
  have h: "handle_message S m x = Ok () (x\<lparr>inst_state := st\<rparr>)"
    using handle_close_message [OF assms(6,4)] assms(5) c(1) by simp
  have tb: "same_table (inst_state x) st" by (rule handle_close_table [OF c(1)])
  have l: "lookup_handle st vh = Some 0" using assms(3) by (simp add: same_table_lookup [OF tb])
  have "0 < cnt (remove_event srv')" using c(5) sem_lawsD(4) [OF assms(1)] by simp
  then obtain e where e: "remove_event_poll S vh st =
      Ok (Ready (srvstate srv')) (update_service 0 (\<lambda>s'. s'\<lparr>remove_event := e\<rparr>) st)"
    using remove_event_ready [OF assms(1) l c(2)] by blast
  let ?st = "update_service 0 (\<lambda>s'. s'\<lparr>remove_event := e\<rparr>) st"
  have p: "close_poll S vh st = Ok (Ready ()) ?st" using e c(3) by (simp add: close_poll_def)
  have "srv_inv ?st" using same_table_inv [OF _ assms(2), of ?st] tb by (simp add: same_table_update)
  then show thesis using c(2,3) by (intro that [OF h p, of "srv'\<lparr>remove_event := e\<rparr>"]) simp_all
qed

section \<open>From the start to the connection\<close>

lemma fresh_connectable:
  assumes "platform_ok P" "mailbox_accepts P"
  obtains x where "instance_new S P h = Ok x ()" "\<not> connected x" "inst_completion x = completion_default S"
    "initialized (inst_state x)" "tx_inv (inst_state x)" "srv_inv (inst_state x)" "tx_of (inst_state x) = 0"
    "31 \<le> tx_slots (inst_state x)" "conn_state (inst_state x) = DISCONNECTED" "connect_sem (inst_state x) = asem_new S 0"
    "next_srv_handle (inst_state x) = h" "unused_service (srv_state (inst_state x)) = 0"
    "\<forall>i. get_service (inst_state x) i = None" "quotas_of (inst_state x) ! 0 = service_quota_default S"
    "data_use_count (quota_state (inst_state x)) = 0"
    "data_quota (quota_state (inst_state x)) = slot_queue_available (inst_state x) - 1"
    "default_slot_quota (inst_state x) = slot_queue_available (inst_state x) div 2"
    "unat (default_message_quota (inst_state x)) = tx_slots (inst_state x) div 2 * 256"
proof -
  from state_new_fresh [OF assms(1)] obtain st where st: "state_new S P h = Ok st ()" "fresh_state S P st"
      "next_srv_handle st = h" by blast
  from state_initialize_ok [OF st(2) assms] obtain m where
    m: "state_initialize P st = Ok () (st\<lparr>slot_state := (slot_state st)\<lparr>slot_data := (slot_data (slot_state st))\<lparr>mem := m\<rparr>\<rparr>,
        initialized := True\<rparr>)" (is "_ = Ok () ?st") by blast
  let ?x = "\<lparr>inst_state = ?st, connected = False, inst_completion = completion_default S\<rparr>"
  have n: "instance_new S P h = Ok ?x ()" using st(1) m by (simp add: instance_new_def)
  have "tx_inv ?st" using fresh_tx_inv [OF st(2) assms(1)] tx_inv_cong [of ?st st] by simp
  moreover have "srv_inv ?st" using fresh_srv_inv [OF st(2)] srv_inv_cong [of ?st st] by simp
  moreover have "\<forall>i. get_service ?st i = None" using st(2) by (simp add: get_service_def fresh_state_def)
  moreover have "31 \<le> tx_slots st"
    using st(2) data_slots_bounds(1) [OF assms(1)] by (simp add: fresh_state_def)
  ultimately show thesis using st(2,3) by (intro that [OF n]) (simp_all add: fresh_state_def)
qed

lemma connected_idle:
  assumes "sem_laws S cnt" "platform_ok P" "mailbox_accepts P" "message_to CONNECT 0 0 m"
  obtains x x1 x2 x3 where "instance_new S P h = Ok x ()" "\<not> connected x" "instance_connect S x = Ok Pending x1"
    "instance_connect_poll S x1 = Ok Pending x1" "handle_message S m x1 = Ok () x2" "instance_connect_poll S x2 = Ok (Ready ()) x3" "connected x3" "idle S (inst_state x3)"
    "next_srv_handle (inst_state x3) = h" "inst_completion x3 = completion_default S"
proof -
  obtain x where x: "instance_new S P h = Ok x ()" "\<not> connected x" "inst_completion x = completion_default S"
    "initialized (inst_state x)" "tx_inv (inst_state x)" "srv_inv (inst_state x)" "tx_of (inst_state x) = 0"
    "31 \<le> tx_slots (inst_state x)" "conn_state (inst_state x) = DISCONNECTED" "connect_sem (inst_state x) = asem_new S 0"
    "next_srv_handle (inst_state x) = h" "unused_service (srv_state (inst_state x)) = 0"
    "\<forall>i. get_service (inst_state x) i = None" "quotas_of (inst_state x) ! 0 = service_quota_default S"
    "data_use_count (quota_state (inst_state x)) = 0"
    "data_quota (quota_state (inst_state x)) = slot_queue_available (inst_state x) - 1"
    "default_slot_quota (inst_state x) = slot_queue_available (inst_state x) div 2"
    "unat (default_message_quota (inst_state x)) = tx_slots (inst_state x) div 2 * 256"
    by (rule fresh_connectable [OF assms(2,3), of S h])
  let ?st = "inst_state x"
  have sd: "sendable S None connect_id None ?st"
    by (rule control_sendable) (simp add: control_message_def context_size_def)
  have z: "context_size (None :: u8 list option) \<le> 4000" by (simp add: context_size_def)
  have room: "tx_of ?st + context_size None + 15 \<le> 4096" using x(7) by (simp add: context_size_def)
  have one: "1 \<le> tx_slots ?st" using x(8) by simp
  obtain st where q: "queue_message S None connect_id None True ?st = Ok () st" "tx_inv st"
      "tx_of st \<le> tx_of ?st + context_size None + 15" "tx_slots st = tx_slots ?st" "same_table ?st st"
      "srv_state st = sent_services None CONNECT ?st" "conn_state st = conn_state ?st" "connect_sem st = connect_sem ?st"
      "quota_state st = quota_state ?st \<or> CONNECT = DATA" "next_srv_handle st = next_srv_handle ?st"
      "default_slot_quota st = default_slot_quota ?st" "default_message_quota st = default_message_quota ?st"
      "initialized st = initialized ?st" "slot_queue_available st = slot_queue_available ?st"
    by (rule sent_here [where b = True, OF x(5) sd msg_ids(1) z room one])
  have none: "asem_down S (asem_new S 0) = None"
    using down_lawD(1) [OF sem_lawsD(8) [OF assms(1)]] sem_lawsD(2) [OF assms(1), of 0] by simp
  obtain e where e: "asem_down S (asem_up S (asem_new S 0)) = Some e"
    using down_lawD(2) [OF sem_lawsD(8) [OF assms(1)], of "asem_up S (asem_new S 0)"] sem_lawsD(5) [OF assms(1)] by auto
  define x1 where "x1 = x\<lparr>inst_state := st\<lparr>conn_state := CONNECTING\<rparr>\<rparr>"
  define x2 where "x2 = on_state (\<lambda>st. st\<lparr>connect_sem := asem_up S (connect_sem st)\<rparr>) x1"
  define x3 where "x3 = x2\<lparr>inst_state := (inst_state x2)\<lparr>connect_sem := e, conn_state := CONNECTED\<rparr>, connected := True\<rparr>"
  have 1: "instance_connect S x = Ok Pending x1"
    using x(2,4,9,10) q(1,8) none
    by (simp add: x1_def instance_connect_def lift_state_def connect_def connect_poll_def connect_done_def connect_id_def)
  have p: "instance_connect_poll S x1 = Ok Pending x1"
    using q(8) x(10) none by (simp add: x1_def instance_connect_poll_def lift_state_def connect_poll_def connect_done_def)
  have 2: "handle_message S m x1 = Ok () x2"
    unfolding handle_message_def Let_def message_toD(1-3) [OF assms(4)] by (simp add: handler_service_def x2_def)
  have 3: "instance_connect_poll S x2 = Ok (Ready ()) x3"
    using e q(8) x(10)
    by (simp add: x3_def x2_def x1_def on_state_def instance_connect_poll_def lift_state_def connect_poll_def connect_done_def)
  let ?s3 = "inst_state x3"
  have f: "slot_state ?s3 = slot_state st" "srv_state ?s3 = srv_state ?st" "quota_state ?s3 = quota_state ?st"
      "slot_queue_available ?s3 = slot_queue_available ?st" "next_srv_handle ?s3 = h"
      "default_slot_quota ?s3 = default_slot_quota ?st" "default_message_quota ?s3 = default_message_quota ?st"
    using q x(11) by (simp_all add: x3_def x2_def x1_def on_state_def sent_services_def)
  have "tx_inv ?s3" using q(2) tx_inv_cong [of ?s3 st] f q(14) by simp
  moreover have "srv_inv ?s3" using x(6) srv_inv_cong [of ?s3 ?st] f x(11) by simp
  moreover have "get_service ?s3 i = None" for i using get_service_cong [OF f(2)] x(13) by simp
  moreover have "tx_of ?s3 \<le> 15" using q(3) x(7) f(1) by (simp add: context_size_def)
  ultimately have "idle S ?s3" using x(8,12,14-18) f by (simp add: idle_def)
  moreover have "connected x3" "inst_completion x3 = completion_default S"
    using x(3) by (simp_all add: x3_def x2_def x1_def on_state_def)
  ultimately show thesis using that [OF x(1,2) 1 p 2 3] f(5) by simp
qed

end
