(* ===== verification/Vchi.thy ===== *)
theory Vchi
  imports Instance
begin

text \<open>
  The VCHI side, which clients use: \<^verbatim>\<open>src/vchi/instance.rs\<close>, \<^verbatim>\<open>src/vchi/service.rs\<close> and the handler for
  completions of \<^verbatim>\<open>src/vchi/completion.rs\<close>.  A VCHI service has a handle of its own, which travels to the
  VCHIQ side as the user data of the service and comes back with every completion.  Callbacks of clients
  are opaque; the model logs their invocations.  The futures of this side await one future of
  the VCHIQ side each and are split where that one is.
\<close>

section \<open>Data\<close>

type_synonym vchi_callback = nat

record service_creation =
  cr_version :: u16
  cr_version_min :: u16
  cr_service_id :: u32
  cr_rx_fifo_size :: usize
  cr_tx_fifo_size :: usize
  cr_callback :: "vchi_callback option"
  cr_callback_param :: "user_any option"
  cr_want_unaligned_bulk_rx :: bool
  cr_want_unaligned_bulk_tx :: bool
  cr_want_crc :: bool

record vchi_service =
  vs_fourcc :: u32
  vs_callback :: "vchiq_callback option"
  vs_userdata :: "user_any option"
  vs_vchi_callback :: "vchi_callback option"
  vs_handle :: service_handle
  vs_peek_buf :: "u8 list option"
  vs_client_id :: usize
  vs_is_client :: bool

datatype callback_call =
    VchiqCall vchiq_callback reason "slot_message option" service_handle
  | VchiCall vchi_callback "user_any option" reason

record 'sem vchi_instance =
  vi_initialized :: bool
  vi_connected :: bool
  use_close_delivered :: bool
  used_services :: usize
  vi_services :: "service_handle \<rightharpoonup> vchi_service"
  vi_vchiq :: "'sem vchiq_instance"
  SERVICE_HANDLE :: usize
  vi_calls :: "callback_call list"

section \<open>Operations\<close>

definition lift_vchiq ::
  "('sem vchiq_instance \<Rightarrow> ('a, 'sem vchiq_instance) result) \<Rightarrow> 'sem vchi_instance \<Rightarrow> ('a, 'sem vchi_instance) result" where
  "lift_vchiq f v =
     bind_res (f (vi_vchiq v)) (\<lambda>a x. Ok a (v\<lparr>vi_vchiq := x\<rparr>)) (\<lambda>_ x. v\<lparr>vi_vchiq := x\<rparr>)"

definition vchi_new :: "'sem sem_ops \<Rightarrow> 'sem platform \<Rightarrow> usize \<Rightarrow> usize \<Rightarrow> ('sem vchi_instance, unit) result" where
  "vchi_new S P next_handle service_handle =
     (case instance_new S P next_handle of
        Ok x _ \<Rightarrow> Ok \<lparr>vi_initialized = False, vi_connected = False, use_close_delivered = False, used_services = 0,
                 vi_services = Map.empty, vi_vchiq = x, SERVICE_HANDLE = service_handle, vi_calls = []\<rparr> ()
      | Err _ _ \<Rightarrow> Panic ''failed to initialize VCHIQ Instance!''
      | Panic e \<Rightarrow> Panic e
      | Blocked \<Rightarrow> Blocked
      | Undef \<Rightarrow> Undef)"

definition vchi_initialize :: "'sem vchi_instance \<Rightarrow> 'sem vchi_instance" where
  "vchi_initialize v =
     (if \<not> vi_initialized v then v\<lparr>use_close_delivered := True, vi_initialized := True\<rparr> else v)"

definition vchi_connect_done :: "unit poll \<Rightarrow> 'sem vchi_instance \<Rightarrow> (unit poll, 'sem vchi_instance) result" where
  "vchi_connect_done p v = (case p of Ready _ \<Rightarrow> Ok (Ready ()) (v\<lparr>vi_connected := True\<rparr>) | Pending \<Rightarrow> Ok Pending v)"

definition vchi_connect :: "'sem sem_ops \<Rightarrow> 'sem vchi_instance \<Rightarrow> (unit poll, 'sem vchi_instance) result" where
  "vchi_connect S v =
     (if \<not> vi_connected v then seq_res (lift_vchiq (instance_connect S) v) vchi_connect_done
      else Ok (Ready ()) v)"

definition vchi_connect_poll :: "'sem sem_ops \<Rightarrow> 'sem vchi_instance \<Rightarrow> (unit poll, 'sem vchi_instance) result" where
  "vchi_connect_poll S v = seq_res (lift_vchiq (instance_connect_poll S) v) vchi_connect_done"

text \<open>The first part of \<^verbatim>\<open>create_service\<close>: the new handle and the pending service of the VCHIQ side; the
  parameters of the service are kept for its end.\<close>

definition vchi_create_start ::
  "'sem sem_ops \<Rightarrow> (open_payload \<Rightarrow> u8 list) \<Rightarrow> client_params \<Rightarrow> bool \<Rightarrow> 'sem vchi_instance
   \<Rightarrow> (service_handle \<times> service_handle, 'sem vchi_instance) result" where
  "vchi_create_start S enc params open_it v =
     (if \<not> vi_initialized v then Err (VchiErr NotInitialized) v
      else (let h = SERVICE_HANDLE v;
                v = v\<lparr>SERVICE_HANDLE := h + 1\<rparr>;
                params = params\<lparr>sp_userdata := Some (Any_Handle h)\<rparr>
            in seq_res (lift_vchiq (create_start S enc params open_it (sp_callback params = None)) v)
                 (\<lambda>vh v. Ok (h, vh) v)))"

definition vchi_create_poll ::
  "'sem sem_ops \<Rightarrow> client_params \<Rightarrow> vchi_callback option \<Rightarrow> bool \<Rightarrow> service_handle \<times> service_handle
   \<Rightarrow> 'sem vchi_instance \<Rightarrow> (service_handle poll, 'sem vchi_instance) result" where
  "vchi_create_poll S params callback open_it = (\<lambda>(h, vh) v.
     seq_res (lift_vchiq (create_poll S open_it vh) v)
       (\<lambda>p v. case p of
           Pending \<Rightarrow> Ok Pending v
         | Ready vchiq_handle \<Rightarrow>
             Ok (Ready h) (v\<lparr>vi_services := (vi_services v)(h \<mapsto>
               \<lparr>vs_fourcc = sp_fourcc params, vs_callback = sp_callback params, vs_userdata = sp_userdata params,
                vs_vchi_callback = callback, vs_handle = vchiq_handle, vs_peek_buf = None, vs_client_id = 0,
                vs_is_client = open_it\<rparr>)\<rparr>)))"

definition open_params :: "service_creation \<Rightarrow> client_params" where
  "open_params setup = \<lparr>sp_fourcc = cr_service_id setup, sp_callback = None, sp_userdata = cr_callback_param setup,
     sp_version = cr_version setup, sp_version_min = cr_version_min setup\<rparr>"

definition service_open ::
  "'sem sem_ops \<Rightarrow> (open_payload \<Rightarrow> u8 list) \<Rightarrow> service_creation \<Rightarrow> 'sem vchi_instance
   \<Rightarrow> (service_handle poll, 'sem vchi_instance) result" where
  "service_open S enc setup v =
     seq_res (vchi_create_start S enc (open_params setup) True v)
       (\<lambda>hs v. vchi_create_poll S (open_params setup) (cr_callback setup) True hs v)"

text \<open>Closing: the service disappears from the VCHI side once it is closed on the VCHIQ side.\<close>

definition service_close_done :: "service_handle \<Rightarrow> unit poll \<Rightarrow> 'sem vchi_instance \<Rightarrow> (unit poll, 'sem vchi_instance) result" where
  "service_close_done h p v =
     (case p of Ready _ \<Rightarrow> Ok (Ready ()) (v\<lparr>vi_services := (vi_services v)(h := None)\<rparr>) | Pending \<Rightarrow> Ok Pending v)"

definition service_close :: "'sem sem_ops \<Rightarrow> service_handle \<Rightarrow> 'sem vchi_instance \<Rightarrow> (unit poll, 'sem vchi_instance) result" where
  "service_close S h v =
     (case vi_services v h of
        None \<Rightarrow> Err (VchiErr (VchiServiceNotFound h)) v
      | Some s \<Rightarrow> seq_res (lift_vchiq (instance_close_service S (vs_handle s)) v) (service_close_done h))"

definition service_close_poll ::
  "'sem sem_ops \<Rightarrow> service_handle \<Rightarrow> service_handle \<Rightarrow> 'sem vchi_instance \<Rightarrow> (unit poll, 'sem vchi_instance) result" where
  "service_close_poll S h vh v = seq_res (lift_vchiq (lift_state (close_poll S vh)) v) (service_close_done h)"

definition remove_service :: "service_handle \<Rightarrow> 'sem vchi_instance \<Rightarrow> (unit, 'sem vchi_instance) result" where
  "remove_service h v = Panic ''not yet implemented''"

definition vchi_queue_message ::
  "'sem sem_ops \<Rightarrow> service_handle \<Rightarrow> u8 list \<Rightarrow> 'sem vchi_instance \<Rightarrow> (unit, 'sem vchi_instance) result" where
  "vchi_queue_message S h data v =
     (case vi_services v h of
        None \<Rightarrow> Err (VchiErr (VchiServiceNotFound h)) v
      | Some s \<Rightarrow> lift_vchiq (instance_queue_message S (vs_handle s) data) v)"

text \<open>The first poll of \<^verbatim>\<open>dequeue_message\<close>.  When it is pending, the future keeps the map of services locked.\<close>

definition vchi_dequeue_message ::
  "'sem sem_ops \<Rightarrow> service_handle \<Rightarrow> 'sem vchi_instance \<Rightarrow> (u8 list poll, 'sem vchi_instance) result" where
  "vchi_dequeue_message S h v =
     (case vi_services v h of
        None \<Rightarrow> Err (VchiErr (VchiServiceNotFound h)) v
      | Some s \<Rightarrow>
         (case vs_peek_buf s of
            Some buf \<Rightarrow> Ok (Ready buf) (v\<lparr>vi_services := (vi_services v)(h \<mapsto> s\<lparr>vs_peek_buf := None\<rparr>)\<rparr>)
          | None \<Rightarrow> lift_vchiq (dequeue_message S vec_u8_try_from (vs_handle s)) v))"

text \<open>A further poll of \<^verbatim>\<open>dequeue_message\<close>; \<open>i\<close> is the service of the VCHIQ side that it waits for.\<close>

definition vchi_dequeue_poll ::
  "'sem sem_ops \<Rightarrow> nat \<Rightarrow> 'sem vchi_instance \<Rightarrow> (u8 list poll, 'sem vchi_instance) result" where
  "vchi_dequeue_poll S i v = lift_vchiq (dequeue_resume S vec_u8_try_from i) v"

section \<open>The completion handler\<close>

definition dispatch_completion :: "service_completion \<Rightarrow> 'sem vchi_instance \<Rightarrow> (unit, 'sem vchi_instance) result" where
  "dispatch_completion c v =
     (case sc_userdata c of
        Some (Any_Handle h) \<Rightarrow>
         (case vi_services v h of
            None \<Rightarrow> Panic ''called Option::unwrap() on a None value''
          | Some s \<Rightarrow>
             (case vs_callback s of
                Some cb \<Rightarrow> Ok () (v\<lparr>vi_calls := vi_calls v @ [VchiqCall cb (sc_reason c) (sc_msg c) (vs_handle s)]\<rparr>)
              | None \<Rightarrow>
                 (case vs_vchi_callback s of
                    Some cb \<Rightarrow> Ok () (v\<lparr>vi_calls := vi_calls v @ [VchiCall cb (vs_userdata s) (sc_reason c)]\<rparr>)
                  | None \<Rightarrow> Ok () v)))
      | _ \<Rightarrow> Panic ''called Option::unwrap() on a None value'')"

fun dispatch_all :: "service_completion list \<Rightarrow> 'sem vchi_instance \<Rightarrow> (unit, 'sem vchi_instance) result" where
  "dispatch_all [] v = Ok () v"
| "dispatch_all (c # cs) v = seq_res (dispatch_completion c v) (\<lambda>_ v. dispatch_all cs v)"

text \<open>The handler never fails: an error of the wait ends it, which is the result \<open>Ready\<close>.\<close>

definition completion_handler :: "'sem sem_ops \<Rightarrow> 'sem vchi_instance \<Rightarrow> (unit poll, 'sem vchi_instance) result" where
  "completion_handler S v =
     (case await_completion S 8 (vi_vchiq v) of
        Ok Pending x \<Rightarrow> Ok Pending (v\<lparr>vi_vchiq := x\<rparr>)
      | Err _ x \<Rightarrow> Ok (Ready ()) (v\<lparr>vi_vchiq := x\<rparr>)
      | Ok (Ready cs) x \<Rightarrow> seq_res (dispatch_all cs (v\<lparr>vi_vchiq := x\<rparr>)) (\<lambda>_ v. Ok Pending v)
      | Panic e \<Rightarrow> Panic e
      | Blocked \<Rightarrow> Blocked
      | Undef \<Rightarrow> Undef)"

section \<open>Dispatching completions\<close>

text \<open>The call that a completion causes, when its service is known.\<close>

definition known_completion :: "'sem vchi_instance \<Rightarrow> service_completion \<Rightarrow> bool" where
  "known_completion v c \<longleftrightarrow>
     (case sc_userdata c of Some (Any_Handle h) \<Rightarrow> vi_services v h \<noteq> None | _ \<Rightarrow> False)"

definition calls_of :: "'sem vchi_instance \<Rightarrow> service_completion \<Rightarrow> callback_call list" where
  "calls_of v c =
     (case sc_userdata c of
        Some (Any_Handle h) \<Rightarrow>
         (case vi_services v h of
            None \<Rightarrow> []
          | Some s \<Rightarrow>
             (case vs_callback s of
                Some cb \<Rightarrow> [VchiqCall cb (sc_reason c) (sc_msg c) (vs_handle s)]
              | None \<Rightarrow>
                 (case vs_vchi_callback s of
                    Some cb \<Rightarrow> [VchiCall cb (vs_userdata s) (sc_reason c)]
                  | None \<Rightarrow> [])))
      | _ \<Rightarrow> [])"

lemma dispatch_known:
  "known_completion v c \<Longrightarrow> dispatch_completion c v = Ok () (v\<lparr>vi_calls := vi_calls v @ calls_of v c\<rparr>)"
  by (auto simp: known_completion_def dispatch_completion_def calls_of_def split: option.splits user_any.splits)

lemma dispatch_unknown: "\<not> known_completion v c \<Longrightarrow> \<exists>e. dispatch_completion c v = Panic e"
  by (auto simp: known_completion_def dispatch_completion_def split: option.splits user_any.splits)

lemma calls_frame [simp]:
  "known_completion (v\<lparr>vi_calls := l\<rparr>) = known_completion v" "calls_of (v\<lparr>vi_calls := l\<rparr>) = calls_of v"
  "known_completion (v\<lparr>vi_vchiq := x\<rparr>) = known_completion v" "calls_of (v\<lparr>vi_vchiq := x\<rparr>) = calls_of v"
  by (auto simp: known_completion_def calls_of_def fun_eq_iff split: option.splits user_any.splits)

lemma dispatch_all_known:
  assumes "list_all (known_completion v) cs"
  shows "dispatch_all cs v = Ok () (v\<lparr>vi_calls := vi_calls v @ concat (map (calls_of v) cs)\<rparr>)"
  using assms
proof (induction cs arbitrary: v)
  case (Cons c cs)
  then show ?case using Cons.IH [of "v\<lparr>vi_calls := vi_calls v @ calls_of v c\<rparr>"] by (simp add: dispatch_known)
qed simp

lemma dispatch_all_unknown:
  assumes "\<not> list_all (known_completion v) cs"
  shows "\<exists>e. dispatch_all cs v = Panic e"
  using assms
proof (induction cs arbitrary: v)
  case (Cons c cs)
  show ?case
  proof (cases "known_completion v c")
    case True
    with Cons show ?thesis by (simp add: dispatch_known)
  next
    case False
    then show ?thesis using dispatch_unknown by fastforce
  qed
qed simp

text \<open>The completions that the handler gets with one poll.\<close>

lemma await_ready:
  assumes "connected x" "completion_inv (inst_completion x)" "pending_completions (inst_completion x) \<noteq> []"
  obtains c where "await_completion S n x =
      Ok (Ready (map the (take (unat n) (pending_completions (inst_completion x))))) (x\<lparr>inst_completion := c\<rparr>)"
    "completion_inv c" "pending_completions c = drop (unat n) (pending_completions (inst_completion x))"
proof -
  have "completion_remove (inst_completion x) \<noteq> completion_insert (inst_completion x)"
    using assms(3) by (auto simp: ring_content_def ring_len_def)
  then have p: "await_poll S (inst_completion x) = (Ready (), inst_completion x)" by (simp add: await_poll_def)
  from collect_completions_eq [OF assms(2), of "unat n"] obtain c where
    "collect_completions (unat n) (inst_completion x) = Ok (map the (take (unat n) (pending_completions (inst_completion x)))) c"
    "completion_inv c" "pending_completions c = drop (unat n) (pending_completions (inst_completion x))" by blast
  with assms(1) p show thesis by (intro that [of c]) (simp_all add: await_completion_def)
qed

end
