(* ===== verification/Vchi_Properties.thy ===== *)
theory Vchi_Properties
  imports Vchi Reachable
begin

text \<open>
  Properties of the VCHI side: dispatching of completions, the service table and errors.
\<close>

section \<open>Concrete instances\<close>

definition demo_vchi :: "nat vchiq_instance \<Rightarrow> nat vchi_instance" where
  "demo_vchi x = \<lparr>vi_initialized = True, vi_connected = True, use_close_delivered = True, used_services = 0,
     vi_services = Map.empty, vi_vchiq = x, SERVICE_HANDLE = 0, vi_calls = []\<rparr>"

definition demo_setup :: service_creation where
  "demo_setup = \<lparr>cr_version = 1, cr_version_min = 1, cr_service_id = 7, cr_rx_fifo_size = 0, cr_tx_fifo_size = 0,
     cr_callback = Some 1, cr_callback_param = None, cr_want_unaligned_bulk_rx = False,
     cr_want_unaligned_bulk_tx = False, cr_want_crc = False\<rparr>"

definition demo_vchi_service :: vchi_service where
  "demo_vchi_service = \<lparr>vs_fourcc = 7, vs_callback = None, vs_userdata = Some (Any_Client 5), vs_vchi_callback = Some 1,
     vs_handle = 4096, vs_peek_buf = None, vs_client_id = 0, vs_is_client = True\<rparr>"

text \<open>One completion waits for the service with handle 7.\<close>

definition done_completion :: service_completion where
  "done_completion = \<lparr>sc_reason = MESSAGE_AVAILABLE, sc_msg = None, sc_userdata = Some (Any_Handle 7)\<rparr>"

definition waiting_vchi :: "(service_handle \<rightharpoonup> vchi_service) \<Rightarrow> nat vchi_instance" where
  "waiting_vchi srvs = (demo_vchi ((as_instance boot_state)\<lparr>inst_completion :=
     put_completion (Some done_completion) (completion_default counter_sem)\<rparr>))\<lparr>vi_services := srvs\<rparr>"

lemma waiting_facts:
  "connected (vi_vchiq (waiting_vchi srvs))" "completion_inv (inst_completion (vi_vchiq (waiting_vchi srvs)))"
  "pending_completions (inst_completion (vi_vchiq (waiting_vchi srvs))) = map Some [done_completion]"
  "vi_services (waiting_vchi srvs) = srvs" "vi_calls (waiting_vchi srvs) = []" "take 8 [done_completion] = [done_completion]"
proof -
  have c: "ring_ok (completions (completion_default counter_sem)) (completion_insert (completion_default counter_sem))
      (completion_remove (completion_default counter_sem))"
    "ring_len (completion_insert (completion_default counter_sem)) (completion_remove (completion_default counter_sem)) < 128"
    using completion_default_inv(1) [of counter_sem] by (simp_all add: completion_inv_def completion_default_def ring_len_def)
  note p = cq.content_put [OF c, of "Some done_completion"]
  show q: "pending_completions (inst_completion (vi_vchiq (waiting_vchi srvs))) = map Some [done_completion]"
    using p(1) completion_default_inv(2) [of counter_sem] by (simp add: waiting_vchi_def demo_vchi_def)
  then show "completion_inv (inst_completion (vi_vchiq (waiting_vchi srvs)))"
    using p(2) by (simp add: completion_inv_def waiting_vchi_def demo_vchi_def)
qed (simp_all add: waiting_vchi_def demo_vchi_def as_instance_def)

text \<open>A connected instance without services, in which a service can be created.\<close>

definition connected_instance :: "nat vchiq_instance" where
  "connected_instance = as_instance (boot_state\<lparr>conn_state := CONNECTED\<rparr>)"

lemma connected_create:
  "\<exists>x. create_start counter_sem (\<lambda>_. []) params True vchi connected_instance = Ok 4096 x"
proof -
  let ?st = "boot_state\<lparr>conn_state := CONNECTED\<rparr>" and ?p = "internal_params counter_sem params vchi"
  let ?old = "?st\<lparr>next_srv_handle := 4097\<rparr>"
  define srv where "srv = set_state OPENING ((fst (service_new counter_sem ?p 4096))\<lparr>public_fourcc := None, localport := 0\<rparr>)"
  have b: "srv_inv ?st" "unat (unused_service (srv_state ?st)) = 0" "tx_inv ?st" "tx_of ?st = 0" "tx_slots ?st = 31"
      "next_srv_handle ?st = 4096" "unused_service (srv_state ?st) = 0" "services_of ?st = replicate 4096 None" "length (quotas_of ?st) = 4096"
    using fresh_srv_inv [OF boot_fresh] srv_inv_cong [of ?st boot_state] boot_fresh boot_tx_inv tx_inv_cong [of ?st boot_state] boot_tx boot_handle
    by (simp_all add: fresh_state_def)
  let ?a = "insert_service 0 srv ?old"
  have add: "add_service counter_sem ?p OPENING ?st = Ok 4096 ?a"
    using add_service_eq [OF b(1), of counter_sem ?p] b(2,6) by (simp add: srv_def)
  have g: "get_service ?a 0 = Some srv"
    by (subst insert_service_get) (use b(8,9) in \<open>simp_all del: length_greater_0_conv\<close>)
  have none: "get_service ?st i = None" for i unfolding get_service_def b(8) by simp
  have s: "unat (localport srv) = 0" "srv_handle srv = 4096" by (simp_all add: srv_def service_new_def)
  have "srv_inv ?a"
    by (rule insert_service_inv [OF b(1) b(2) [symmetric] _ s]) (simp_all only: none, simp_all)
  then have "lookup_handle ?a 4096 = Some 0"
    using services.lookup_key [OF srv_invD(4) g] by (simp add: srv_def service_new_def)
  note l = service_from_handle_lookup [OF this]
  let ?id = "make_msg_id OPEN_MSG 0 0" and ?c = "Some [] :: u8 list option"
  have ty: "msg_type_from_id ?id = Some OPEN_MSG" by (simp add: make_msg_id_type)
  have cm: "control_message (None, ?id, ?c)" using ty by (simp add: control_message_def context_size_def)
  have i: "0 < length (quotas_of ?old)" using b(9) by simp
  have t: "tx_inv ?a" "tx_of ?a = 0" "tx_slots ?a = 31"
    using b(3-5) insert_service_simps [OF i, of srv] tx_inv_cong [of ?a ?st] by simp_all
  have "tx_target ?id ?c ?a < tx_slots ?a * 4096"
    using tx_target_small [OF t(2), of ?c ?id] t(3) by (simp add: context_size_def)
  then obtain st where "queue_message counter_sem None ?id ?c True ?a = Ok () st"
    using control_sent [OF t(1) cm _ ty] by metis
  then have "open_send counter_sem (\<lambda>_. []) 4096 ?a = Ok () st"
    using l g by (simp add: open_send_def srv_def)
  with add show ?thesis
    by (simp add: create_start_def create_state_def connected_instance_def as_instance_def lift_state_def)
qed

text \<open>The state of a service at handle 4096 whose event has been raised.\<close>

definition signalled :: "service_state \<Rightarrow> nat state" where
  "signalled s = update_service 0 (\<lambda>srv. srv\<lparr>srvstate := s, remove_event := 1\<rparr>) open_state"

definition snd_signalled :: "service_state \<Rightarrow> nat state" where
  "snd_signalled s = update_service 0 (\<lambda>srv. srv\<lparr>remove_event := 0\<rparr>) (signalled s)"

lemma signalled_poll: "remove_event_poll counter_sem 4096 (signalled s) = Ok (Ready s) (snd_signalled s)"
proof -
  have "same_table open_state (signalled s)" by (simp add: signalled_def same_table_update)
  then have "lookup_handle (signalled s) 4096 = Some 0" using open_state_lookup same_table_lookup by metis
  note l = service_from_handle_lookup [OF this]
  have g: "get_service (signalled s) 0 = Some (demo_service\<lparr>srvstate := s, remove_event := 1\<rparr>)"
    by (simp add: signalled_def open_state_service)
  show ?thesis by (simp add: remove_event_poll_def l g snd_signalled_def counter_sem_def counter_down_def)
qed

lemma signalled_open: "open_poll counter_sem 4096 (signalled OPEN) = Ok (Ready ()) (snd_signalled OPEN)"
  by (simp add: open_poll_def signalled_poll)

lemma signalled_close: "close_poll counter_sem 4096 (signalled FREE) = Ok (Ready ()) (snd_signalled FREE)"
  by (simp add: close_poll_def signalled_poll)

section \<open>Properties\<close>

text \<open>
  C13: A poll of the completion handler takes up to eight pending completions and calls the callbacks of
  their services in the order of the completions; the others stay in the queue for the next poll.
\<close>

theorem completions_dispatched:
  assumes "connected (vi_vchiq v)" "completion_inv (inst_completion (vi_vchiq v))"
    and "pending_completions (inst_completion (vi_vchiq v)) = map Some cs" "cs \<noteq> []"
    and "list_all (known_completion v) (take 8 cs)"
  shows "\<exists>v'. completion_handler S v = Ok Pending v' \<and> vi_calls v' = vi_calls v @ concat (map (calls_of v) (take 8 cs)) \<and>
    pending_completions (inst_completion (vi_vchiq v')) = map Some (drop 8 cs) \<and>
    completion_inv (inst_completion (vi_vchiq v')) \<and> vi_services v' = vi_services v"
proof -
  have n: "pending_completions (inst_completion (vi_vchiq v)) \<noteq> []" using assms(3,4) by simp
  obtain c where c: "await_completion S 8 (vi_vchiq v) = Ok (Ready (take 8 cs)) ((vi_vchiq v)\<lparr>inst_completion := c\<rparr>)"
      "completion_inv c" "pending_completions c = map Some (drop 8 cs)"
    by (rule await_ready [OF assms(1,2) n, of S 8]) (simp add: assms(3) take_map drop_map comp_def)
  show ?thesis
    using dispatch_all_known [of "v\<lparr>vi_vchiq := (vi_vchiq v)\<lparr>inst_completion := c\<rparr>\<rparr>" "take 8 cs"] assms(5) c
    by (simp add: completion_handler_def)
qed

theorem completions_dispatched_witness:
  "\<exists>v'. completion_handler counter_sem (waiting_vchi [7 \<mapsto> demo_vchi_service]) = Ok Pending v' \<and>
    vi_calls v' = [VchiCall 1 (Some (Any_Client 5)) MESSAGE_AVAILABLE] \<and>
    pending_completions (inst_completion (vi_vchiq v')) = []"
  using completions_dispatched [of "waiting_vchi [7 \<mapsto> demo_vchi_service]" "[done_completion]" counter_sem] waiting_facts(2,3)
  by (auto simp: waiting_facts(1,4-6) known_completion_def calls_of_def done_completion_def demo_vchi_service_def)

text \<open>
  C39: A completion whose service is not in the table, because it has been closed or because its opening
  has not been finished yet, stops the completion handler with a panic.
\<close>

theorem unknown_completion_panics:
  assumes "connected (vi_vchiq v)" "completion_inv (inst_completion (vi_vchiq v))"
    and "pending_completions (inst_completion (vi_vchiq v)) = map Some cs" "\<not> list_all (known_completion v) (take 8 cs)"
  shows "\<exists>e. completion_handler S v = Panic e"
proof -
  have n: "pending_completions (inst_completion (vi_vchiq v)) \<noteq> []" using assms(3,4) by auto
  obtain c where c: "await_completion S 8 (vi_vchiq v) = Ok (Ready (take 8 cs)) ((vi_vchiq v)\<lparr>inst_completion := c\<rparr>)"
    by (rule await_ready [OF assms(1,2) n, of S 8]) (simp add: assms(3) take_map comp_def)
  show ?thesis
    using dispatch_all_unknown [of "v\<lparr>vi_vchiq := (vi_vchiq v)\<lparr>inst_completion := c\<rparr>\<rparr>" "take 8 cs"] assms(4) c
    by (auto simp: completion_handler_def)
qed

theorem unknown_completion_panics_witness:
  "\<exists>e. completion_handler counter_sem (waiting_vchi Map.empty) = Panic e"
  using unknown_completion_panics [of "waiting_vchi Map.empty" "[done_completion]" counter_sem] waiting_facts(2,3)
  by (auto simp: waiting_facts(1,4-6) known_completion_def done_completion_def)

text \<open>
  C27: Opening a service and closing it again restores the service table of the VCHI side: in between, exactly the
  new handle leads to the service, which refers to its counterpart on the VCHIQ side and keeps the callback and
  the parameter of the client.  Other tasks may run while the two futures wait.
\<close>

theorem open_close_restores:
  assumes "vi_services v (SERVICE_HANDLE v) = None"
    and "vchi_create_start S enc (open_params setup) True v = Ok hs v1" "vi_services w1 = vi_services v1"
    and "vchi_create_poll S (open_params setup) (cr_callback setup) True hs w1 = Ok (Ready h) v2"
    and "vi_services w2 = vi_services v2" "service_close_poll S h (snd hs) w2 = Ok (Ready ()) v3"
  shows "h = SERVICE_HANDLE v \<and> (\<exists>s. vi_services v2 = (vi_services v)(h \<mapsto> s) \<and> vs_handle s = snd hs \<and>
      vs_userdata s = cr_callback_param setup \<and> vs_vchi_callback s = cr_callback setup \<and> vs_callback s = None) \<and>
    vi_services v3 = vi_services v"
proof -
  have 1: "fst hs = SERVICE_HANDLE v" "vi_services v1 = vi_services v"
    using assms(2)
    by (auto simp: vchi_create_start_def Let_def lift_vchiq_def outcome split: if_splits)
  obtain vh v' where p: "create_poll S True (snd hs) (vi_vchiq w1) = Ok (Ready vh) v'"
    using assms(4)
    by (cases "create_poll S True (snd hs) (vi_vchiq w1)")
      (auto simp: vchi_create_poll_def lift_vchiq_def split: prod.splits poll.split_asm)
  then have "vh = snd hs"
    by (cases "open_poll S (snd hs) (inst_state (vi_vchiq w1))")
      (auto simp: create_poll_def lift_state_def split: poll.split_asm)
  with p have 2: "h = fst hs" "\<exists>s. vi_services v2 = (vi_services w1)(h \<mapsto> s) \<and> vs_handle s = snd hs \<and>
      vs_userdata s = cr_callback_param setup \<and> vs_vchi_callback s = cr_callback setup \<and> vs_callback s = None"
    using assms(4) by (auto simp: vchi_create_poll_def lift_vchiq_def open_params_def split: prod.splits)
  have 3: "vi_services v3 = (vi_services w2)(h := None)"
    using assms(6)
    by (cases "close_poll S (snd hs) (inst_state (vi_vchiq w2))")
      (auto simp: service_close_poll_def service_close_done_def lift_vchiq_def lift_state_def split: poll.split_asm)
  show ?thesis using 1 2 3 assms(1,3,5) by (auto simp: fun_upd_idem)
qed

theorem open_close_restores_witness:
  "\<exists>hs v1 h v2 v3. vchi_create_start counter_sem (\<lambda>_. []) (open_params demo_setup) True (demo_vchi connected_instance) = Ok hs v1 \<and>
    vchi_create_poll counter_sem (open_params demo_setup) (Some 1) True hs (v1\<lparr>vi_vchiq := as_instance (signalled OPEN)\<rparr>) =
      Ok (Ready h) v2 \<and>
    service_close_poll counter_sem h (snd hs) (v2\<lparr>vi_vchiq := as_instance (signalled FREE)\<rparr>) = Ok (Ready ()) v3 \<and>
    vi_services v3 = Map.empty"
proof -
  let ?v = "demo_vchi connected_instance"
  obtain x where "create_start counter_sem (\<lambda>_. []) ((open_params demo_setup)\<lparr>sp_userdata := Some (Any_Handle 0)\<rparr>) True
      (sp_callback ((open_params demo_setup)\<lparr>sp_userdata := Some (Any_Handle 0)\<rparr>) = None) connected_instance = Ok 4096 x"
    using connected_create by blast
  then obtain v1 where s: "vchi_create_start counter_sem (\<lambda>_. []) (open_params demo_setup) True ?v = Ok (0, 4096) v1"
    by (simp add: vchi_create_start_def Let_def lift_vchiq_def demo_vchi_def)
  let ?w1 = "v1\<lparr>vi_vchiq := as_instance (signalled OPEN)\<rparr>"
  have "open_poll counter_sem 4096 (signalled OPEN) = Ok (Ready ()) (snd_signalled OPEN)"
    by (rule signalled_open)
  then obtain v2 where p: "vchi_create_poll counter_sem (open_params demo_setup) (cr_callback demo_setup) True (0, 4096) ?w1 = Ok (Ready 0) v2"
    by (simp add: vchi_create_poll_def lift_vchiq_def create_poll_def lift_state_def as_instance_def)
  let ?w2 = "v2\<lparr>vi_vchiq := as_instance (signalled FREE)\<rparr>"
  obtain v3 where c: "service_close_poll counter_sem 0 (snd (0 :: service_handle, 4096)) ?w2 = Ok (Ready ()) v3"
    using signalled_close by (simp add: service_close_poll_def lift_vchiq_def lift_state_def as_instance_def service_close_done_def)
  have "vi_services ?v (SERVICE_HANDLE ?v) = None" by (simp add: demo_vchi_def)
  from open_close_restores [OF this s _ p _ c] have "vi_services v3 = Map.empty" by (simp add: demo_vchi_def)
  moreover have "cr_callback demo_setup = Some 1" by (simp add: demo_setup_def)
  ultimately show ?thesis using s p c by metis
qed

text \<open>
  The errors of the VCHI side leave its services alone: an unknown handle is reported by every operation, opening
  needs an initialized and connected instance, and an instance is connected once.
\<close>

theorem vchi_errors:
  "(vi_services v h = None \<longrightarrow>
      service_close S h v = Err (VchiErr (VchiServiceNotFound h)) v \<and>
      vchi_queue_message S h data v = Err (VchiErr (VchiServiceNotFound h)) v \<and>
      vchi_dequeue_message S h v = Err (VchiErr (VchiServiceNotFound h)) v) \<and>
   (\<not> vi_initialized v \<longrightarrow> service_open S enc setup v = Err (VchiErr NotInitialized) v) \<and>
   (vi_initialized v \<and> \<not> connected (vi_vchiq v) \<longrightarrow>
      service_open S enc setup v = Err (VchiqErr NotConnected) (v\<lparr>SERVICE_HANDLE := SERVICE_HANDLE v + 1\<rparr>)) \<and>
   (connected (vi_vchiq v) \<and> \<not> vi_connected v \<longrightarrow> vchi_connect S v = Err (VchiqErr AlreadyConnected) v) \<and>
   (vi_connected v \<longrightarrow> vchi_connect S v = Ok (Ready ()) v)"
  by (simp add: service_close_def vchi_queue_message_def vchi_dequeue_message_def service_open_def vchi_create_start_def
      Let_def lift_vchiq_def create_start_def create_state_def vchi_connect_def instance_connect_def)

theorem vchi_errors_witness:
  "service_close counter_sem 3 (demo_vchi connected_instance) = Err (VchiErr (VchiServiceNotFound 3)) (demo_vchi connected_instance) \<and>
   service_open counter_sem (\<lambda>_. []) demo_setup ((demo_vchi connected_instance)\<lparr>vi_initialized := False\<rparr>) =
     Err (VchiErr NotInitialized) ((demo_vchi connected_instance)\<lparr>vi_initialized := False\<rparr>) \<and>
   vchi_connect counter_sem (demo_vchi connected_instance) = Ok (Ready ()) (demo_vchi connected_instance)"
  using vchi_errors [of "demo_vchi connected_instance" 3 counter_sem "[]" "\<lambda>_. []" demo_setup]
    vchi_errors [of "(demo_vchi connected_instance)\<lparr>vi_initialized := False\<rparr>" 3 counter_sem "[]" "\<lambda>_. []" demo_setup]
  by (simp add: demo_vchi_def)

end
