(* ===== verification/Shared_Memory.thy ===== *)
theory Shared_Memory
  imports Slot_Zero Slot
begin

text \<open>
  The bytes behind the slot zero.  \<^verbatim>\<open>Event\<close>, \<^verbatim>\<open>SharedState\<close>, \<^verbatim>\<open>SlotInfo\<close> and \<^verbatim>\<open>SlotZero\<close> are \<^verbatim>\<open>repr(C)\<close>
  structures in the memory shared with the VideoCore; the accessors of \<^verbatim>\<open>event.rs\<close>, \<^verbatim>\<open>sharedstate.rs\<close>,
  \<^verbatim>\<open>slotinfo.rs\<close> and \<^verbatim>\<open>slotzero.rs\<close> hold raw pointers to them and read and write single fields with the
  macros of \<^verbatim>\<open>macros.rs\<close>.  A pointer is an address of the byte memory of the prelude, a field is its place
  in the layout of its structure with the encoding of its type.

  The locale \<open>volatile_field\<close> holds the laws of an encoding and derives from them what the getter and the setter
  of a field do.  The records of \<open>Slot_Zero\<close> are the readings of this memory: \<open>read_slot_zero\<close>.
\<close>

section \<open>Layouts\<close>

lemma round_up_ge: "0 < a \<Longrightarrow> n \<le> round_up n a"
proof -
  assume "0 < a"
  then have "n + a - 1 = (n + a - 1) div a * a + (n + a - 1) mod a" "(n + a - 1) mod a < a" by simp_all
  then show ?thesis unfolding round_up_def by linarith
qed

lemma round_up_dvd: "a dvd round_up n a"
  by (simp add: round_up_def)

lemma c_fields_end_append: "c_fields_end k (fs @ gs) = c_fields_end (c_fields_end k fs) gs"
  by (induction k fs rule: c_fields_end.induct) auto

lemma c_fields_end_ge: "list_all (\<lambda>f. 0 < snd f) fs \<Longrightarrow> k \<le> c_fields_end k fs"
  by (induction k fs rule: c_fields_end.induct) (auto intro: order_trans [OF round_up_ge])

lemma c_fields_end_Suc:
  assumes "i < length fs"
  shows "c_fields_end 0 (take (Suc i) fs) = c_offset fs i + fst (fs ! i)"
  unfolding take_Suc_conv_app_nth [OF assms] c_fields_end_append c_offset_def by (cases "fs ! i") simp

lemma c_fields_end_mono:
  assumes "list_all (\<lambda>f. 0 < snd f) fs" "i \<le> j"
  shows "c_fields_end 0 (take i fs) \<le> c_fields_end 0 (take j fs)"
proof -
  have "take j fs = take i fs @ take (j - i) (drop i fs)" using assms(2) by (metis take_add le_add_diff_inverse)
  moreover have "list_all (\<lambda>f. 0 < snd f) (take (j - i) (drop i fs))"
    using assms(1) by (metis list_all_append append_take_drop_id)
  ultimately show ?thesis by (simp add: c_fields_end_append c_fields_end_ge)
qed

lemma c_offset_apart:
  assumes "list_all (\<lambda>f. 0 < snd f) fs" "i < j" "j < length fs"
  shows "c_offset fs i + fst (fs ! i) \<le> c_offset fs j"
proof -
  have "c_offset fs i + fst (fs ! i) = c_fields_end 0 (take (Suc i) fs)"
    using assms by (simp add: c_fields_end_Suc)
  also have "\<dots> \<le> c_fields_end 0 (take j fs)" using assms by (intro c_fields_end_mono) simp_all
  also have "\<dots> \<le> c_offset fs j"
    unfolding c_offset_def using assms by (intro round_up_ge) (simp add: list_all_length)
  finally show ?thesis .
qed

lemma max_align_ge: "1 \<le> foldr (\<lambda>f m. max (snd f) m) (fs :: layout list) 1"
  by (induction fs) auto

lemma c_offset_inside:
  assumes "list_all (\<lambda>f. 0 < snd f) fs" "j < length fs"
  shows "c_offset fs j + fst (fs ! j) \<le> fst (c_struct fs)"
proof -
  have "c_offset fs j + fst (fs ! j) = c_fields_end 0 (take (Suc j) fs)"
    using assms by (simp add: c_fields_end_Suc)
  also have "\<dots> \<le> c_fields_end 0 (take (length fs) fs)" using assms by (intro c_fields_end_mono) simp_all
  also have "\<dots> \<le> fst (c_struct fs)" using max_align_ge [of fs] by (simp add: c_struct_def Let_def round_up_ge)
  finally show ?thesis .
qed

section \<open>Fields\<close>

type_synonym memory = "nat \<Rightarrow> u8"

record 'a shared_field =
  field_offset :: nat
  field_size :: nat
  to_bytes :: "'a \<Rightarrow> u8 list"
  of_bytes :: "u8 list \<Rightarrow> 'a"

text \<open>The two macros: \<^verbatim>\<open>read_volatile\<close> and \<^verbatim>\<open>write_volatile\<close> of one field behind the pointer \<open>inner\<close>.\<close>

definition volatile_getter :: "'a shared_field \<Rightarrow> nat \<Rightarrow> memory \<Rightarrow> 'a" where
  "volatile_getter f inner m = of_bytes f (load_bytes m (inner + field_offset f) (field_size f))"

definition volatile_setter :: "'a shared_field \<Rightarrow> nat \<Rightarrow> 'a \<Rightarrow> memory \<Rightarrow> memory" where
  "volatile_setter f inner value m = store_bytes m (inner + field_offset f) (to_bytes f value)"

text \<open>The types of the fields: 16 and 32 bit integers and arrays of 32 bit integers.\<close>

definition u16_field :: "layout list \<Rightarrow> nat \<Rightarrow> u16 shared_field" where
  "u16_field fs i = \<lparr>field_offset = c_offset fs i, field_size = 2, to_bytes = bytes_of_u16, of_bytes = u16_of_bytes\<rparr>"

definition u32_field :: "layout list \<Rightarrow> nat \<Rightarrow> u32 shared_field" where
  "u32_field fs i = \<lparr>field_offset = c_offset fs i, field_size = 4, to_bytes = bytes_of_u32, of_bytes = u32_of_bytes\<rparr>"

definition bytes_of_u32s :: "u32 list \<Rightarrow> u8 list" where
  "bytes_of_u32s ws = concat (map bytes_of_u32 ws)"

fun u32s_of_bytes :: "nat \<Rightarrow> u8 list \<Rightarrow> u32 list" where
  "u32s_of_bytes 0 bs = []"
| "u32s_of_bytes (Suc n) bs = u32_of_bytes (take 4 bs) # u32s_of_bytes n (drop 4 bs)"

definition u32_array_field :: "nat \<Rightarrow> layout list \<Rightarrow> nat \<Rightarrow> u32 list shared_field" where
  "u32_array_field n fs i =
     \<lparr>field_offset = c_offset fs i, field_size = 4 * n, to_bytes = bytes_of_u32s, of_bytes = u32s_of_bytes n\<rparr>"

lemma length_bytes_of_u32s [simp]: "length (bytes_of_u32s ws) = 4 * length ws"
  by (induction ws) (simp_all add: bytes_of_u32s_def)

lemma length_u32s_of_bytes [simp]: "length (u32s_of_bytes n bs) = n"
  by (induction n bs rule: u32s_of_bytes.induct) simp_all

lemma u32s_of_bytes_of_u32s: "u32s_of_bytes (length ws) (bytes_of_u32s ws) = ws"
  by (induction ws) (simp_all add: bytes_of_u32s_def)

lemma list_of_4: "length bs = 4 \<Longrightarrow> \<exists>a b c d. bs = [a, b, c, d]"
  by (auto simp: length_Suc_conv eval_nat_numeral)

lemma bytes_of_u32_of_bytes [simp]: "length bs = 4 \<Longrightarrow> bytes_of_u32 (u32_of_bytes bs) = bs"
proof -
  assume "length bs = 4"
  then obtain a b c d where bs: "bs = [a, b, c, d]" using list_of_4 by blast
  show ?thesis
    unfolding bs bytes_of_u32_def u32_of_bytes_def list.case
    by (intro arg_cong2 [of _ _ _ _ Cons] refl bit_word_eqI) (auto simp: bit_simps dest: bit_imp_le_length)
qed

lemma bytes_of_u16_of_bytes [simp]: "length bs = 2 \<Longrightarrow> bytes_of_u16 (u16_of_bytes bs) = bs"
proof -
  assume "length bs = 2"
  then obtain a b where bs: "bs = [a, b]" by (auto simp: length_Suc_conv eval_nat_numeral)
  show ?thesis
    unfolding bs bytes_of_u16_def u16_of_bytes_def list.case
    by (intro arg_cong2 [of _ _ _ _ Cons] refl bit_word_eqI) (auto simp: bit_simps dest: bit_imp_le_length)
qed

lemma bytes_of_u32s_of_bytes: "length bs = 4 * n \<Longrightarrow> bytes_of_u32s (u32s_of_bytes n bs) = bs"
  by (induction n bs rule: u32s_of_bytes.induct) (simp_all add: bytes_of_u32s_def)

text \<open>Memories that differ in one range of bytes only.\<close>

definition differ_in :: "nat \<Rightarrow> nat \<Rightarrow> memory \<Rightarrow> memory \<Rightarrow> bool" where
  "differ_in a n m m' \<longleftrightarrow> (\<forall>x. x < a \<or> a + n \<le> x \<longrightarrow> m' x = m x)"

lemma differ_in_refl [simp]: "differ_in a n m m"
  by (simp add: differ_in_def)

lemma differ_in_trans: "differ_in a n m m' \<Longrightarrow> differ_in a n m' m'' \<Longrightarrow> differ_in a n m m''"
  by (simp add: differ_in_def)

lemma differ_in_mono: "differ_in a n m m' \<Longrightarrow> b \<le> a \<Longrightarrow> a + n \<le> b + k \<Longrightarrow> differ_in b k m m'"
  by (auto simp: differ_in_def)

lemma load_differ:
  "differ_in a n m m' \<Longrightarrow> b + k \<le> a \<or> a + n \<le> b \<Longrightarrow> load_bytes m' b k = load_bytes m b k"
  by (intro nth_equalityI) (auto simp: nth_load_bytes differ_in_def)

section \<open>The contract of a field\<close>

text \<open>\<open>ok\<close> are the values of the type of the field, e.g. the lists of the length of an array.\<close>

locale volatile_field =
  fixes f :: "'a shared_field" and ok :: "'a \<Rightarrow> bool"
  assumes length_to_bytes: "ok v \<Longrightarrow> length (to_bytes f v) = field_size f"
    and of_to_bytes: "ok v \<Longrightarrow> of_bytes f (to_bytes f v) = v"
    and of_bytes_ok: "length bs = field_size f \<Longrightarrow> ok (of_bytes f bs)"
    and to_of_bytes: "length bs = field_size f \<Longrightarrow> to_bytes f (of_bytes f bs) = bs"
begin

lemma getter_ok: "ok (volatile_getter f p m)"
  by (simp add: volatile_getter_def of_bytes_ok)

lemma getter_setter: "ok v \<Longrightarrow> volatile_getter f p (volatile_setter f p v m) = v"
  by (simp add: volatile_getter_def volatile_setter_def length_to_bytes of_to_bytes)

lemma setter_getter: "volatile_setter f p (volatile_getter f p m) m = m"
  by (auto simp: fun_eq_iff volatile_getter_def volatile_setter_def to_of_bytes store_bytes_def nth_load_bytes)

lemma setter_setter: "ok v \<Longrightarrow> ok w \<Longrightarrow> volatile_setter f p w (volatile_setter f p v m) = volatile_setter f p w m"
  by (simp add: volatile_setter_def store_bytes_store length_to_bytes)

lemma load_getter: "load_bytes m (p + field_offset f) (field_size f) = to_bytes f (volatile_getter f p m)"
  by (simp add: volatile_getter_def to_of_bytes)

lemma setter_outside:
  assumes "ok v" "x < p + field_offset f \<or> p + field_offset f + field_size f \<le> x"
  shows "volatile_setter f p v m x = m x"
  using assms by (simp add: volatile_setter_def store_bytes_outside length_to_bytes)

lemma load_setter_apart:
  assumes "ok v" "a + n \<le> p + field_offset f \<or> p + field_offset f + field_size f \<le> a"
  shows "load_bytes (volatile_setter f p v m) a n = load_bytes m a n"
  using assms by (simp add: volatile_setter_def load_store_disjoint length_to_bytes)

lemma getter_setter_apart:
  assumes "ok v" "q + field_offset g + field_size g \<le> p + field_offset f \<or>
      p + field_offset f + field_size f \<le> q + field_offset g"
  shows "volatile_getter g q (volatile_setter f p v m) = volatile_getter g q m"
  using load_setter_apart [OF assms] by (simp add: volatile_getter_def)

text \<open>The bytes that a setter may change.\<close>

lemma setter_differ:
  "ok v \<Longrightarrow> a \<le> p + field_offset f \<Longrightarrow> p + field_offset f + field_size f \<le> a + n \<Longrightarrow>
   differ_in a n m (volatile_setter f p v m)"
  by (auto simp: differ_in_def setter_outside)

end

interpretation u16_cell: volatile_field "u16_field fs i" "\<lambda>_. True" for fs i
  by unfold_locales (simp_all add: u16_field_def)

interpretation u32_cell: volatile_field "u32_field fs i" "\<lambda>_. True" for fs i
  by unfold_locales (simp_all add: u32_field_def)

interpretation u32s_cell: volatile_field "u32_array_field n fs i" "\<lambda>ws. length ws = n" for n fs i
  by unfold_locales (auto simp: u32_array_field_def u32s_of_bytes_of_u32s bytes_of_u32s_of_bytes)

section \<open>The structures\<close>

text \<open>\<^verbatim>\<open>Event\<close>\<close>

definition armed_f :: "u32 shared_field" where "armed_f = u32_field event_fields 0"
definition fired_f :: "u32 shared_field" where "fired_f = u32_field event_fields 1"
definition event_f :: "u32 shared_field" where "event_f = u32_field event_fields 2"

text \<open>\<^verbatim>\<open>SharedState\<close>; the four events are structures of their own.\<close>

definition initialized_f :: "u32 shared_field" where "initialized_f = u32_field shared_state_fields 0"
definition slot_first_f :: "u32 shared_field" where "slot_first_f = u32_field shared_state_fields 1"
definition slot_last_f :: "u32 shared_field" where "slot_last_f = u32_field shared_state_fields 2"
definition slot_sync_f :: "u32 shared_field" where "slot_sync_f = u32_field shared_state_fields 3"
definition tx_pos_f :: "u32 shared_field" where "tx_pos_f = u32_field shared_state_fields 5"
definition slot_queue_recycle_f :: "u32 shared_field" where
  "slot_queue_recycle_f = u32_field shared_state_fields 7"
definition slot_queue_f :: "u32 list shared_field" where
  "slot_queue_f = u32_array_field (unat VCHIQ_MAX_SLOTS_PER_SIDE) shared_state_fields 10"
definition debug_f :: "u32 list shared_field" where
  "debug_f = u32_array_field DebugInfo_MAX shared_state_fields 11"

text \<open>\<^verbatim>\<open>SlotInfo\<close>\<close>

definition use_count_f :: "u16 shared_field" where "use_count_f = u16_field slot_info_fields 0"
definition release_count_f :: "u16 shared_field" where "release_count_f = u16_field slot_info_fields 1"

text \<open>\<^verbatim>\<open>SlotZero\<close>\<close>

definition magic_f :: "u32 shared_field" where "magic_f = u32_field slot_zero_fields 0"
definition version_f :: "u16 shared_field" where "version_f = u16_field slot_zero_fields 1"
definition version_min_f :: "u16 shared_field" where "version_min_f = u16_field slot_zero_fields 2"
definition slot_zero_size_f :: "u32 shared_field" where "slot_zero_size_f = u32_field slot_zero_fields 3"
definition slot_size_f :: "u32 shared_field" where "slot_size_f = u32_field slot_zero_fields 4"
definition max_slots_f :: "u32 shared_field" where "max_slots_f = u32_field slot_zero_fields 5"
definition max_slots_per_side_f :: "u32 shared_field" where
  "max_slots_per_side_f = u32_field slot_zero_fields 6"
definition platform_data_f :: "u32 list shared_field" where
  "platform_data_f = u32_array_field 2 slot_zero_fields 7"

section \<open>Accessors\<close>

record 'sem event_ptr =
  event_inner :: nat
  event_sem :: "'sem option"

definition event_ptr_new :: "nat \<Rightarrow> 'sem event_ptr" where
  "event_ptr_new p = \<lparr>event_inner = p, event_sem = None\<rparr>"

record 'sem shared_state_ptr =
  ss_inner :: nat
  trigger_ptr :: "'sem event_ptr"
  recycle_ptr :: "'sem event_ptr"
  sync_trigger_ptr :: "'sem event_ptr"
  sync_release_ptr :: "'sem event_ptr"

definition shared_state_ptr_new :: "nat \<Rightarrow> 'sem shared_state_ptr" where
  "shared_state_ptr_new p =
     \<lparr>ss_inner = p,
      trigger_ptr = event_ptr_new (p + c_offset shared_state_fields 4),
      recycle_ptr = event_ptr_new (p + c_offset shared_state_fields 6),
      sync_trigger_ptr = event_ptr_new (p + c_offset shared_state_fields 8),
      sync_release_ptr = event_ptr_new (p + c_offset shared_state_fields 9)\<rparr>"

record slot_info_ptr =
  si_inner :: nat
  si_len :: usize

definition slot_info_ptr_new :: "nat \<Rightarrow> usize \<Rightarrow> slot_info_ptr" where
  "slot_info_ptr_new p n = \<lparr>si_inner = p, si_len = n\<rparr>"

record 'sem slot_zero_ptr =
  sz_inner :: nat
  local_ptr :: "'sem shared_state_ptr"
  remote_ptr :: "'sem shared_state_ptr"
  slots_ptr :: slot_info_ptr
  ptr_total_memory :: usize

definition slot_zero_ptr_new :: "nat \<Rightarrow> usize \<Rightarrow> 'sem slot_zero_ptr" where
  "slot_zero_ptr_new p mem_size =
     (let local = shared_state_ptr_new (p + c_offset slot_zero_fields 9);
          remote = shared_state_ptr_new (p + c_offset slot_zero_fields 8);
          slots = slot_info_ptr_new (p + c_offset slot_zero_fields 10) VCHIQ_MAX_SLOTS
      in \<lparr>sz_inner = p, local_ptr = local, remote_ptr = remote, slots_ptr = slots, ptr_total_memory = mem_size\<rparr>)"

section \<open>Reading the structures\<close>

definition read_event :: "memory \<Rightarrow> 'sem event_ptr \<Rightarrow> 'sem event_accessor" where
  "read_event m e = \<lparr>armed = volatile_getter armed_f (event_inner e) m, fired = volatile_getter fired_f (event_inner e) m,
     event_word = volatile_getter event_f (event_inner e) m, ev_sem = event_sem e\<rparr>"

definition read_shared_state :: "memory \<Rightarrow> 'sem shared_state_ptr \<Rightarrow> 'sem shared_state" where
  "read_shared_state m s =
     \<lparr>ss_initialized = volatile_getter initialized_f (ss_inner s) m,
      slot_first = volatile_getter slot_first_f (ss_inner s) m,
      slot_last = volatile_getter slot_last_f (ss_inner s) m,
      slot_sync = volatile_getter slot_sync_f (ss_inner s) m,
      trigger = read_event m (trigger_ptr s),
      tx_pos = volatile_getter tx_pos_f (ss_inner s) m,
      recycle = read_event m (recycle_ptr s),
      slot_queue_recycle = volatile_getter slot_queue_recycle_f (ss_inner s) m,
      sync_trigger = read_event m (sync_trigger_ptr s),
      sync_release = read_event m (sync_release_ptr s),
      slot_queue = volatile_getter slot_queue_f (ss_inner s) m,
      debug = volatile_getter debug_f (ss_inner s) m\<rparr>"

definition read_slot_info :: "memory \<Rightarrow> nat \<Rightarrow> slot_info" where
  "read_slot_info m p = \<lparr>use_count = volatile_getter use_count_f p m, release_count = volatile_getter release_count_f p m\<rparr>"

definition read_slot_infos :: "memory \<Rightarrow> slot_info_ptr \<Rightarrow> slot_info list" where
  "read_slot_infos m s = map (\<lambda>i. read_slot_info m (si_inner s + i * fst slot_info_layout)) [0..<unat (si_len s)]"

definition read_slot_zero :: "memory \<Rightarrow> 'sem slot_zero_ptr \<Rightarrow> 'sem slot_zero" where
  "read_slot_zero m z =
     \<lparr>magic = volatile_getter magic_f (sz_inner z) m,
      sz_version = volatile_getter version_f (sz_inner z) m,
      sz_version_min = volatile_getter version_min_f (sz_inner z) m,
      slot_zero_size = volatile_getter slot_zero_size_f (sz_inner z) m,
      slot_size = volatile_getter slot_size_f (sz_inner z) m,
      max_slots = volatile_getter max_slots_f (sz_inner z) m,
      max_slots_per_side = volatile_getter max_slots_per_side_f (sz_inner z) m,
      platform_data = volatile_getter platform_data_f (sz_inner z) m,
      sz_remote = read_shared_state m (remote_ptr z),
      sz_local = read_shared_state m (local_ptr z),
      sz_slots = read_slot_infos m (slots_ptr z),
      total_memory = ptr_total_memory z\<rparr>"

lemma layout_vals:
  "event_layout = (12, 4)" "shared_state_layout = (372, 4)" "slot_info_layout = (4, 2)"
  "slot_zero_layout = (1288, 4)"
  by code_simp+

lemmas event_field_defs = armed_f_def fired_f_def event_f_def

lemmas shared_state_field_defs =
  initialized_f_def slot_first_f_def slot_last_f_def slot_sync_f_def tx_pos_f_def slot_queue_recycle_f_def
  slot_queue_f_def debug_f_def

lemmas slot_info_field_defs = use_count_f_def release_count_f_def

lemmas slot_zero_field_defs =
  magic_f_def version_f_def version_min_f_def slot_zero_size_f_def slot_size_f_def max_slots_f_def
  max_slots_per_side_f_def platform_data_f_def

lemma field_place [simp]:
  "field_offset (u16_field fs i) = c_offset fs i" "field_size (u16_field fs i) = 2"
  "field_offset (u32_field fs i) = c_offset fs i" "field_size (u32_field fs i) = 4"
  "field_offset (u32_array_field n fs i) = c_offset fs i" "field_size (u32_array_field n fs i) = 4 * n"
  by (simp_all add: u16_field_def u32_field_def u32_array_field_def)

lemma event_offsets: "c_offset event_fields 0 = 0" "c_offset event_fields 1 = 4" "c_offset event_fields 2 = 8"
  by code_simp+

lemma shared_state_offsets:
  "c_offset shared_state_fields 0 = 0" "c_offset shared_state_fields 1 = 4" "c_offset shared_state_fields 2 = 8"
  "c_offset shared_state_fields 3 = 12" "c_offset shared_state_fields 4 = 16" "c_offset shared_state_fields 5 = 28"
  "c_offset shared_state_fields 6 = 32" "c_offset shared_state_fields 7 = 44" "c_offset shared_state_fields 8 = 48"
  "c_offset shared_state_fields 9 = 60" "c_offset shared_state_fields 10 = 72" "c_offset shared_state_fields 11 = 328"
  by code_simp+

lemma slot_info_offsets: "c_offset slot_info_fields 0 = 0" "c_offset slot_info_fields 1 = 2"
  by code_simp+

lemma slot_zero_offsets:
  "c_offset slot_zero_fields 0 = 0" "c_offset slot_zero_fields 1 = 4" "c_offset slot_zero_fields 2 = 6"
  "c_offset slot_zero_fields 3 = 8" "c_offset slot_zero_fields 4 = 12" "c_offset slot_zero_fields 5 = 16"
  "c_offset slot_zero_fields 6 = 20" "c_offset slot_zero_fields 7 = 24" "c_offset slot_zero_fields 8 = 32"
  "c_offset slot_zero_fields 9 = 404" "c_offset slot_zero_fields 10 = 776"
  by code_simp+

lemma array_lengths: "unat VCHIQ_MAX_SLOTS_PER_SIDE = 64" "DebugInfo_MAX = 11" "unat VCHIQ_MAX_SLOTS = 128"
  by (simp_all add: config_defs)

lemmas offsets =
  event_offsets shared_state_offsets slot_info_offsets slot_zero_offsets array_lengths
  event_offsets(2) [unfolded One_nat_def] shared_state_offsets(2) [unfolded One_nat_def]
  slot_info_offsets(2) [unfolded One_nat_def] slot_zero_offsets(2) [unfolded One_nat_def]

text \<open>Where the pointers of the accessors point to; the semaphores are free.\<close>

definition shared_state_at :: "nat \<Rightarrow> 'sem shared_state_ptr \<Rightarrow> bool" where
  "shared_state_at p s \<longleftrightarrow> ss_inner s = p \<and>
     event_inner (trigger_ptr s) = p + 16 \<and> event_inner (recycle_ptr s) = p + 32 \<and>
     event_inner (sync_trigger_ptr s) = p + 48 \<and> event_inner (sync_release_ptr s) = p + 60"

definition slot_zero_at :: "nat \<Rightarrow> 'sem slot_zero_ptr \<Rightarrow> bool" where
  "slot_zero_at p z \<longleftrightarrow> sz_inner z = p \<and> shared_state_at (p + 32) (remote_ptr z) \<and>
     shared_state_at (p + 404) (local_ptr z) \<and> slots_ptr z = \<lparr>si_inner = p + 776, si_len = VCHIQ_MAX_SLOTS\<rparr>"

lemma slot_zero_ptr_new_at: "slot_zero_at p (slot_zero_ptr_new p n)"
  by (simp add: slot_zero_at_def shared_state_at_def slot_zero_ptr_new_def shared_state_ptr_new_def event_ptr_new_def
      slot_info_ptr_new_def slot_zero_offsets shared_state_offsets)

lemma getter_differ:
  "differ_in a n m m' \<Longrightarrow> p + field_offset f + field_size f \<le> a \<or> a + n \<le> p + field_offset f \<Longrightarrow>
   volatile_getter f p m' = volatile_getter f p m"
  by (simp add: volatile_getter_def load_differ)

lemma read_event_differ:
  "differ_in a n m m' \<Longrightarrow> event_inner e + 12 \<le> a \<or> a + n \<le> event_inner e \<Longrightarrow> read_event m' e = read_event m e"
  unfolding read_event_def event_field_defs
  by (intro event_accessor.equality) (auto intro!: getter_differ simp: offsets)

lemma read_shared_state_differ:
  assumes "shared_state_at p s" "differ_in a n m m'" "p + 372 \<le> a \<or> a + n \<le> p"
  shows "read_shared_state m' s = read_shared_state m s"
  using assms(1,3) unfolding read_shared_state_def shared_state_field_defs shared_state_at_def
  by (intro shared_state.equality)
    (auto intro!: getter_differ [OF assms(2)] read_event_differ [OF assms(2)] simp: offsets)

lemma read_slot_infos_differ:
  assumes "differ_in a n m m'" "si_inner s + 4 * unat (si_len s) \<le> a \<or> a + n \<le> si_inner s"
  shows "read_slot_infos m' s = read_slot_infos m s"
  unfolding read_slot_infos_def read_slot_info_def slot_info_field_defs layout_vals
  using assms(2) by (auto intro!: getter_differ [OF assms(1)] simp: offsets)

text \<open>What a write to one structure does to the structure that contains it.\<close>

lemma read_slot_zero_differ:
  assumes "slot_zero_at p z" "differ_in a n m m'" "p + 1288 \<le> a \<or> a + n \<le> p"
  shows "read_slot_zero m' z = read_slot_zero m z"
proof -
  have r: "read_shared_state m' (remote_ptr z) = read_shared_state m (remote_ptr z)"
    "read_shared_state m' (local_ptr z) = read_shared_state m (local_ptr z)"
    using assms(1,3) by (auto simp: slot_zero_at_def intro!: read_shared_state_differ [OF _ assms(2)])
  have s: "read_slot_infos m' (slots_ptr z) = read_slot_infos m (slots_ptr z)"
    using assms(1,3) by (intro read_slot_infos_differ [OF assms(2)]) (auto simp: slot_zero_at_def offsets)
  show ?thesis
    using assms(1,3) unfolding read_slot_zero_def slot_zero_field_defs slot_zero_at_def r s
    by (intro slot_zero.equality) (auto intro!: getter_differ [OF assms(2)] simp: offsets)
qed

lemma read_slot_zero_local:
  assumes "slot_zero_at p z" "differ_in (p + 404) 372 m m'"
  shows "read_slot_zero m' z = (read_slot_zero m z)\<lparr>sz_local := read_shared_state m' (local_ptr z)\<rparr>"
proof -
  have r: "read_shared_state m' (remote_ptr z) = read_shared_state m (remote_ptr z)"
    using assms(1) by (auto simp: slot_zero_at_def intro!: read_shared_state_differ [OF _ assms(2)])
  have s: "read_slot_infos m' (slots_ptr z) = read_slot_infos m (slots_ptr z)"
    using assms(1) by (intro read_slot_infos_differ [OF assms(2)]) (auto simp: slot_zero_at_def offsets)
  show ?thesis
    using assms(1) unfolding read_slot_zero_def slot_zero_field_defs slot_zero_at_def r s
    by (intro slot_zero.equality) (auto intro!: getter_differ [OF assms(2)] simp: offsets)
qed

lemma read_slot_zero_remote:
  assumes "slot_zero_at p z" "differ_in (p + 32) 372 m m'"
  shows "read_slot_zero m' z = (read_slot_zero m z)\<lparr>sz_remote := read_shared_state m' (remote_ptr z)\<rparr>"
proof -
  have r: "read_shared_state m' (local_ptr z) = read_shared_state m (local_ptr z)"
    using assms(1) by (auto simp: slot_zero_at_def intro!: read_shared_state_differ [OF _ assms(2)])
  have s: "read_slot_infos m' (slots_ptr z) = read_slot_infos m (slots_ptr z)"
    using assms(1) by (intro read_slot_infos_differ [OF assms(2)]) (auto simp: slot_zero_at_def offsets)
  show ?thesis
    using assms(1) unfolding read_slot_zero_def slot_zero_field_defs slot_zero_at_def r s
    by (intro slot_zero.equality) (auto intro!: getter_differ [OF assms(2)] simp: offsets)
qed

lemma read_shared_state_event:
  assumes "shared_state_at p s" "differ_in a 12 m m'"
  shows "a = p + 16 \<Longrightarrow> read_shared_state m' s = (read_shared_state m s)\<lparr>trigger := read_event m' (trigger_ptr s)\<rparr>"
    and "a = p + 32 \<Longrightarrow> read_shared_state m' s = (read_shared_state m s)\<lparr>recycle := read_event m' (recycle_ptr s)\<rparr>"
    and "a = p + 48 \<Longrightarrow> read_shared_state m' s = (read_shared_state m s)\<lparr>sync_trigger := read_event m' (sync_trigger_ptr s)\<rparr>"
    and "a = p + 60 \<Longrightarrow> read_shared_state m' s = (read_shared_state m s)\<lparr>sync_release := read_event m' (sync_release_ptr s)\<rparr>"
  using assms(1) unfolding read_shared_state_def shared_state_field_defs shared_state_at_def
  by (auto intro!: getter_differ [OF assms(2)] read_event_differ [OF assms(2)] simp: offsets)

section \<open>Writing fields\<close>

lemmas cell_simps =
  u16_cell.getter_setter u32_cell.getter_setter u32s_cell.getter_setter
  u16_cell.getter_setter_apart u32_cell.getter_setter_apart u32s_cell.getter_setter_apart

lemma read_event_set:
  "read_event (volatile_setter armed_f (event_inner e) v m) e = (read_event m e)\<lparr>armed := v\<rparr>"
  "read_event (volatile_setter fired_f (event_inner e) v m) e = (read_event m e)\<lparr>fired := v\<rparr>"
  by (simp_all add: read_event_def event_field_defs cell_simps offsets)

lemma event_set_differ:
  "differ_in (event_inner e) 12 m (volatile_setter armed_f (event_inner e) v m)"
  "differ_in (event_inner e) 12 m (volatile_setter fired_f (event_inner e) v m)"
  unfolding event_field_defs by (intro u32_cell.setter_differ; simp add: offsets)+

lemma shared_state_set_differ:
  "differ_in (ss_inner s) 372 m (volatile_setter initialized_f (ss_inner s) v m)"
  "differ_in (ss_inner s) 372 m (volatile_setter slot_first_f (ss_inner s) v m)"
  "differ_in (ss_inner s) 372 m (volatile_setter slot_last_f (ss_inner s) v m)"
  "differ_in (ss_inner s) 372 m (volatile_setter slot_sync_f (ss_inner s) v m)"
  "differ_in (ss_inner s) 372 m (volatile_setter tx_pos_f (ss_inner s) v m)"
  "differ_in (ss_inner s) 372 m (volatile_setter slot_queue_recycle_f (ss_inner s) v m)"
  "length q = 64 \<Longrightarrow> differ_in (ss_inner s) 372 m (volatile_setter slot_queue_f (ss_inner s) q m)"
  "length d = 11 \<Longrightarrow> differ_in (ss_inner s) 372 m (volatile_setter debug_f (ss_inner s) d m)"
  unfolding shared_state_field_defs
  by (intro u32_cell.setter_differ u32s_cell.setter_differ; simp add: offsets)+

lemma read_shared_state_set:
  assumes "shared_state_at p s"
  shows "read_shared_state (volatile_setter initialized_f (ss_inner s) v m) s = (read_shared_state m s)\<lparr>ss_initialized := v\<rparr>"
    and "read_shared_state (volatile_setter slot_first_f (ss_inner s) v m) s = (read_shared_state m s)\<lparr>slot_first := v\<rparr>"
    and "read_shared_state (volatile_setter slot_last_f (ss_inner s) v m) s = (read_shared_state m s)\<lparr>slot_last := v\<rparr>"
    and "read_shared_state (volatile_setter slot_sync_f (ss_inner s) v m) s = (read_shared_state m s)\<lparr>slot_sync := v\<rparr>"
    and "read_shared_state (volatile_setter tx_pos_f (ss_inner s) v m) s = (read_shared_state m s)\<lparr>tx_pos := v\<rparr>"
    and "read_shared_state (volatile_setter slot_queue_recycle_f (ss_inner s) v m) s =
      (read_shared_state m s)\<lparr>slot_queue_recycle := v\<rparr>"
    and "length q = 64 \<Longrightarrow>
      read_shared_state (volatile_setter slot_queue_f (ss_inner s) q m) s = (read_shared_state m s)\<lparr>slot_queue := q\<rparr>"
    and "length d = 11 \<Longrightarrow>
      read_shared_state (volatile_setter debug_f (ss_inner s) d m) s = (read_shared_state m s)\<lparr>debug := d\<rparr>"
  using assms
  by (simp_all add: read_shared_state_def read_event_def shared_state_field_defs event_field_defs cell_simps offsets
      shared_state_at_def)

lemma slot_zero_set_differ:
  "differ_in (sz_inner z) 32 m (volatile_setter magic_f (sz_inner z) v m)"
  "differ_in (sz_inner z) 32 m (volatile_setter version_f (sz_inner z) u m)"
  "differ_in (sz_inner z) 32 m (volatile_setter version_min_f (sz_inner z) u m)"
  "differ_in (sz_inner z) 32 m (volatile_setter slot_zero_size_f (sz_inner z) v m)"
  "differ_in (sz_inner z) 32 m (volatile_setter slot_size_f (sz_inner z) v m)"
  "differ_in (sz_inner z) 32 m (volatile_setter max_slots_f (sz_inner z) v m)"
  "differ_in (sz_inner z) 32 m (volatile_setter max_slots_per_side_f (sz_inner z) v m)"
  "length d = 2 \<Longrightarrow> differ_in (sz_inner z) 32 m (volatile_setter platform_data_f (sz_inner z) d m)"
  unfolding slot_zero_field_defs
  by (intro u16_cell.setter_differ u32_cell.setter_differ u32s_cell.setter_differ; simp add: offsets)+

lemma read_slot_zero_header:
  assumes "slot_zero_at p z" "differ_in p 32 m m'"
  shows "read_shared_state m' (remote_ptr z) = read_shared_state m (remote_ptr z)"
    and "read_shared_state m' (local_ptr z) = read_shared_state m (local_ptr z)"
    and "read_slot_infos m' (slots_ptr z) = read_slot_infos m (slots_ptr z)"
  using assms(1)
  by (auto simp: slot_zero_at_def offsets intro!: read_shared_state_differ [OF _ assms(2)] read_slot_infos_differ [OF assms(2)])

lemma read_slot_zero_set:
  assumes "slot_zero_at p z"
  shows "read_slot_zero (volatile_setter magic_f (sz_inner z) v m) z = (read_slot_zero m z)\<lparr>magic := v\<rparr>"
    and "read_slot_zero (volatile_setter version_f (sz_inner z) u m) z = (read_slot_zero m z)\<lparr>sz_version := u\<rparr>"
    and "read_slot_zero (volatile_setter version_min_f (sz_inner z) u m) z = (read_slot_zero m z)\<lparr>sz_version_min := u\<rparr>"
    and "read_slot_zero (volatile_setter slot_zero_size_f (sz_inner z) v m) z = (read_slot_zero m z)\<lparr>slot_zero_size := v\<rparr>"
    and "read_slot_zero (volatile_setter slot_size_f (sz_inner z) v m) z = (read_slot_zero m z)\<lparr>slot_size := v\<rparr>"
    and "read_slot_zero (volatile_setter max_slots_f (sz_inner z) v m) z = (read_slot_zero m z)\<lparr>max_slots := v\<rparr>"
    and "read_slot_zero (volatile_setter max_slots_per_side_f (sz_inner z) v m) z =
      (read_slot_zero m z)\<lparr>max_slots_per_side := v\<rparr>"
    and "length d = 2 \<Longrightarrow>
      read_slot_zero (volatile_setter platform_data_f (sz_inner z) d m) z = (read_slot_zero m z)\<lparr>platform_data := d\<rparr>"
proof -
  have p: "sz_inner z = p" using assms by (simp add: slot_zero_at_def)
  note d = slot_zero_set_differ [where z = z, unfolded p slot_zero_field_defs]
  note h = d [THEN read_slot_zero_header(1) [OF assms]] d [THEN read_slot_zero_header(2) [OF assms]]
    d [THEN read_slot_zero_header(3) [OF assms]]
  show "read_slot_zero (volatile_setter magic_f (sz_inner z) v m) z = (read_slot_zero m z)\<lparr>magic := v\<rparr>"
    "read_slot_zero (volatile_setter version_f (sz_inner z) u m) z = (read_slot_zero m z)\<lparr>sz_version := u\<rparr>"
    "read_slot_zero (volatile_setter version_min_f (sz_inner z) u m) z = (read_slot_zero m z)\<lparr>sz_version_min := u\<rparr>"
    "read_slot_zero (volatile_setter slot_zero_size_f (sz_inner z) v m) z = (read_slot_zero m z)\<lparr>slot_zero_size := v\<rparr>"
    "read_slot_zero (volatile_setter slot_size_f (sz_inner z) v m) z = (read_slot_zero m z)\<lparr>slot_size := v\<rparr>"
    "read_slot_zero (volatile_setter max_slots_f (sz_inner z) v m) z = (read_slot_zero m z)\<lparr>max_slots := v\<rparr>"
    "read_slot_zero (volatile_setter max_slots_per_side_f (sz_inner z) v m) z =
      (read_slot_zero m z)\<lparr>max_slots_per_side := v\<rparr>"
    "length d = 2 \<Longrightarrow>
      read_slot_zero (volatile_setter platform_data_f (sz_inner z) d m) z = (read_slot_zero m z)\<lparr>platform_data := d\<rparr>"
    unfolding p slot_zero_field_defs read_slot_zero_def by (simp_all add: h cell_simps offsets del: One_nat_def)
qed

text \<open>The fields of the two shared states, as fields of the slot zero.\<close>

lemma slot_zero_atD:
  assumes "slot_zero_at p z"
  shows "sz_inner z = p" "ss_inner (local_ptr z) = p + 404" "ss_inner (remote_ptr z) = p + 32"
    and "shared_state_at (p + 404) (local_ptr z)" "shared_state_at (p + 32) (remote_ptr z)"
  using assms by (simp_all add: slot_zero_at_def shared_state_at_def)

lemma sz_local_read [simp]: "sz_local (read_slot_zero m z) = read_shared_state m (local_ptr z)"
  and sz_remote_read [simp]: "sz_remote (read_slot_zero m z) = read_shared_state m (remote_ptr z)"
  and total_memory_read [simp]: "total_memory (read_slot_zero m z) = ptr_total_memory z"
  by (simp_all add: read_slot_zero_def)


lemma read_slot_zero_set_local:
  assumes "slot_zero_at p z"
    and d: "differ_in (ss_inner (local_ptr z)) 372 m (volatile_setter f (ss_inner (local_ptr z)) v m)"
  shows "read_slot_zero (volatile_setter f (ss_inner (local_ptr z)) v m) z =
      (read_slot_zero m z)\<lparr>sz_local := read_shared_state (volatile_setter f (ss_inner (local_ptr z)) v m) (local_ptr z)\<rparr>"
  using read_slot_zero_local [OF assms(1)] d slot_zero_atD [OF assms(1)] by simp

lemma read_slot_zero_set_remote:
  assumes "slot_zero_at p z"
    and d: "differ_in (ss_inner (remote_ptr z)) 372 m (volatile_setter f (ss_inner (remote_ptr z)) v m)"
  shows "read_slot_zero (volatile_setter f (ss_inner (remote_ptr z)) v m) z =
      (read_slot_zero m z)\<lparr>sz_remote := read_shared_state (volatile_setter f (ss_inner (remote_ptr z)) v m) (remote_ptr z)\<rparr>"
  using read_slot_zero_remote [OF assms(1)] d slot_zero_atD [OF assms(1)] by simp

end
