(* ===== verification/Ping.thy ===== *)
theory Ping
  imports Session Vchi_Properties Shared_Memory
begin

text \<open>
  The test program of \<^verbatim>\<open>src/main.rs\<close>, a client of the VCHI side: \<^verbatim>\<open>test_vchiq\<close> connects and runs \<^verbatim>\<open>vchiq_ping_test\<close>,
  which opens a service, sends a message, waits until the callback has been told of an answer and closes the service.

  The program is one future; it is split where it waits, and \<open>test_poll\<close> is one poll of it.  Two other thoughts run beside
  it: the slot handler, which handles a received message, and the completion handler, which calls \<^verbatim>\<open>vchi_clnt_callback\<close>.  A run
  is the list of the steps that the three take.  The boot code (\<^verbatim>\<open>alive\<close>, \<^verbatim>\<open>run\<close>) is glue to other crates and not modelled.
\<close>

section \<open>Data\<close>

type_synonym i32 = "32 word"

datatype test_message = TM_Error | TM_OneWay | TM_Async | TM_Sync | TM_Config | TM_Echo

definition test_message_i32 :: "test_message \<Rightarrow> i32" where
  "test_message_i32 t =
     (case t of TM_Error \<Rightarrow> 0 | TM_OneWay \<Rightarrow> 1 | TM_Async \<Rightarrow> 2 | TM_Sync \<Rightarrow> 3 | TM_Config \<Rightarrow> 4 | TM_Echo \<Rightarrow> 5)"

record test_parameter =
  tp_magic :: i32
  tp_blocksize :: i32
  tp_iters :: i32
  tp_verify :: i32
  tp_echo :: i32
  tp_align_size :: i32
  tp_client_align :: i32
  tp_server_align :: i32
  tp_client_message_quota :: i32
  tp_server_message_quota :: i32

text \<open>The \<^verbatim>\<open>repr(C)\<close> bytes of the parameter, as they are sent.\<close>

definition test_parameter_bytes :: "test_parameter \<Rightarrow> u8 list" where
  "test_parameter_bytes t = bytes_of_u32s
     [tp_magic t, tp_blocksize t, tp_iters t, tp_verify t, tp_echo t, tp_align_size t, tp_client_align t,
      tp_server_align t, tp_client_message_quota t, tp_server_message_quota t]"

record 'sem callback_data =
  cb_service :: "service_handle option"
  reply_event :: 'sem

text \<open>The callback is a function pointer and the callback data a boxed value; the VCHI side passes both around.\<close>

definition clnt_callback :: vchi_callback where "clnt_callback = 0"
definition callback_param :: user_any where "callback_param = Any_Client 0"

record 'sem kernel =
  k_vchi :: "'sem vchi_instance"
  k_data :: "'sem callback_data"

section \<open>The callback\<close>

definition vchi_clnt_callback ::
  "'sem sem_ops \<Rightarrow> user_any option \<Rightarrow> reason \<Rightarrow> 'sem callback_data \<Rightarrow> (unit, 'sem callback_data) result" where
  "vchi_clnt_callback S user_data reason d =
     (case user_data of
        None \<Rightarrow> Ok () d
      | Some ud \<Rightarrow>
          if ud \<noteq> callback_param then Panic ''called Option::unwrap() on a None value''
          else (case reason of
                  MESSAGE_AVAILABLE \<Rightarrow> Ok () (d\<lparr>reply_event := sem_up S (reply_event d)\<rparr>)
                | BULK_TRANSMIT_DONE \<Rightarrow> Panic ''not yet implemented''
                | BULK_RECEIVE_DONE \<Rightarrow> Panic ''not yet implemented''
                | _ \<Rightarrow> Ok () d))"

section \<open>The ping test\<close>

text \<open>Where the future of the test waits: for the service to open (with its two handles), for the answer, or for the
  service to close.\<close>

datatype ping_stage =
    Opening "service_handle \<times> service_handle"
  | Waiting service_handle
  | Closing service_handle service_handle
  | Done

definition lift_vchi ::
  "('sem vchi_instance \<Rightarrow> ('a, 'sem vchi_instance) result) \<Rightarrow> 'sem kernel \<Rightarrow> ('a, 'sem kernel) result" where
  "lift_vchi f p = bind_res (f (k_vchi p)) (\<lambda>a v. Ok a (p\<lparr>k_vchi := v\<rparr>)) (\<lambda>_ v. p\<lparr>k_vchi := v\<rparr>)"

definition ping_setup :: "u32 \<Rightarrow> service_creation" where
  "ping_setup fourcc = \<lparr>cr_version = 3, cr_version_min = 3, cr_service_id = fourcc, cr_rx_fifo_size = 0, cr_tx_fifo_size = 0,
     cr_callback = Some clnt_callback, cr_callback_param = Some callback_param, cr_want_unaligned_bulk_rx = False,
     cr_want_unaligned_bulk_tx = False, cr_want_crc = False\<rparr>"

definition ping_message :: test_parameter where
  "ping_message = \<lparr>tp_magic = test_message_i32 TM_Config, tp_blocksize = 0, tp_iters = 100, tp_verify = 1, tp_echo = 1,
     tp_align_size = 1, tp_client_align = 0, tp_server_align = 0, tp_client_message_quota = 0,
     tp_server_message_quota = 0\<rparr>"

definition ping_closed :: "service_handle \<Rightarrow> service_handle \<Rightarrow> unit poll \<Rightarrow> 'sem kernel \<Rightarrow> (ping_stage, 'sem kernel) result" where
  "ping_closed h vh r p = (case r of Ready _ \<Rightarrow> Ok Done p | Pending \<Rightarrow> Ok (Closing h vh) p)"

definition ping_wait :: "'sem sem_ops \<Rightarrow> service_handle \<Rightarrow> 'sem kernel \<Rightarrow> (ping_stage, 'sem kernel) result" where
  "ping_wait S h p =
     (case sem_try_down S (reply_event (k_data p)) of
        Some s \<Rightarrow>
          (let p = p\<lparr>k_data := (k_data p)\<lparr>reply_event := s\<rparr>\<rparr>;
               vh = (case vi_services (k_vchi p) h of Some srv \<Rightarrow> vs_handle srv | None \<Rightarrow> 0)
           in seq_res (lift_vchi (service_close S h) p) (ping_closed h vh))
      | None \<Rightarrow> Ok (Waiting h) p)"

definition ping_opened ::
  "'sem sem_ops \<Rightarrow> u32 \<Rightarrow> service_handle \<times> service_handle \<Rightarrow> 'sem kernel \<Rightarrow> (ping_stage, 'sem kernel) result" where
  "ping_opened S fourcc hs p =
     seq_res (lift_vchi (vchi_create_poll S (open_params (ping_setup fourcc)) (cr_callback (ping_setup fourcc)) True hs) p)
       (\<lambda>r p. case r of
           Pending \<Rightarrow> Ok (Opening hs) p
         | Ready h \<Rightarrow>
             (let p = p\<lparr>k_data := (k_data p)\<lparr>cb_service := Some h\<rparr>\<rparr>
              in seq_res (lift_vchi (vchi_queue_message S h (test_parameter_bytes ping_message)) p)
                   (\<lambda>_ p. ping_wait S h p)))"

definition ping_start ::
  "'sem sem_ops \<Rightarrow> (open_payload \<Rightarrow> u8 list) \<Rightarrow> u32 \<Rightarrow> 'sem kernel \<Rightarrow> (ping_stage, 'sem kernel) result" where
  "ping_start S enc fourcc p =
     (let p = p\<lparr>k_data := \<lparr>cb_service = None, reply_event = sem_new S 0\<rparr>\<rparr>
      in seq_res (lift_vchi (vchi_create_start S enc (open_params (ping_setup fourcc)) True) p)
           (\<lambda>hs p. ping_opened S fourcc hs p))"

definition ping_poll :: "'sem sem_ops \<Rightarrow> u32 \<Rightarrow> ping_stage \<Rightarrow> 'sem kernel \<Rightarrow> (ping_stage, 'sem kernel) result" where
  "ping_poll S fourcc stage p =
     (case stage of
        Opening hs \<Rightarrow> ping_opened S fourcc hs p
      | Waiting h \<Rightarrow> ping_wait S h p
      | Closing h vh \<Rightarrow> seq_res (lift_vchi (service_close_poll S h vh) p) (ping_closed h vh)
      | Done \<Rightarrow> Ok Done p)"

section \<open>The test program\<close>

text \<open>A failure to connect is unwrapped; the outcome of the ping test is only logged.\<close>

datatype test_stage = Connecting | Pinging ping_stage | Finished "box_error option"

definition echo_fourcc :: u32 where
  "echo_fourcc = four_cc_from 0x65 0x63 0x68 0x6F"

definition ping_logged :: "(ping_stage, 'sem kernel) result \<Rightarrow> (test_stage, 'sem kernel) result" where
  "ping_logged r =
     (case r of
        Ok Done p \<Rightarrow> Ok (Finished None) p
      | Ok s p \<Rightarrow> Ok (Pinging s) p
      | Err e p \<Rightarrow> Ok (Finished (Some e)) p
      | Panic e \<Rightarrow> Panic e
      | Blocked \<Rightarrow> Blocked
      | Undef \<Rightarrow> Undef)"

definition test_connected ::
  "'sem sem_ops \<Rightarrow> (open_payload \<Rightarrow> u8 list) \<Rightarrow> (unit poll, 'sem vchi_instance) result \<Rightarrow> 'sem callback_data
   \<Rightarrow> (test_stage, 'sem kernel) result" where
  "test_connected S enc r d =
     (case r of
        Ok Pending v \<Rightarrow> Ok Connecting \<lparr>k_vchi = v, k_data = d\<rparr>
      | Ok (Ready _) v \<Rightarrow> ping_logged (ping_start S enc echo_fourcc \<lparr>k_vchi = v, k_data = d\<rparr>)
      | Err e v \<Rightarrow> Panic ''called Result::unwrap() on an Err value''
      | Panic e \<Rightarrow> Panic e
      | Blocked \<Rightarrow> Blocked
      | Undef \<Rightarrow> Undef)"

definition test_start ::
  "'sem sem_ops \<Rightarrow> (open_payload \<Rightarrow> u8 list) \<Rightarrow> 'sem platform \<Rightarrow> usize \<Rightarrow> usize \<Rightarrow> (test_stage, 'sem kernel) result" where
  "test_start S enc P next_handle service_handle =
     (case vchi_new S P next_handle service_handle of
        Ok v _ \<Rightarrow> test_connected S enc (vchi_connect S (vchi_initialize v)) \<lparr>cb_service = None, reply_event = sem_new S 0\<rparr>
      | Err e _ \<Rightarrow> Panic ''unreachable''
      | Panic e \<Rightarrow> Panic e
      | Blocked \<Rightarrow> Blocked
      | Undef \<Rightarrow> Undef)"

definition test_poll ::
  "'sem sem_ops \<Rightarrow> (open_payload \<Rightarrow> u8 list) \<Rightarrow> test_stage \<Rightarrow> 'sem kernel \<Rightarrow> (test_stage, 'sem kernel) result" where
  "test_poll S enc stage p =
     (case stage of
        Connecting \<Rightarrow> test_connected S enc (vchi_connect_poll S (k_vchi p)) (k_data p)
      | Pinging s \<Rightarrow> ping_logged (ping_poll S echo_fourcc s p)
      | Finished e \<Rightarrow> Ok (Finished e) p)"

section \<open>The other thoughts\<close>

text \<open>The slot handler handles a message; the completion handler runs and the callbacks that it calls run.\<close>

definition kernel_receive :: "'sem sem_ops \<Rightarrow> slot_message \<Rightarrow> 'sem kernel \<Rightarrow> (unit, 'sem kernel) result" where
  "kernel_receive S m = lift_vchi (lift_vchiq (handle_message S m))"

fun run_calls :: "'sem sem_ops \<Rightarrow> callback_call list \<Rightarrow> 'sem callback_data \<Rightarrow> (unit, 'sem callback_data) result" where
  "run_calls S [] d = Ok () d"
| "run_calls S (VchiCall cb ud reason # cs) d =
     (if cb = clnt_callback then seq_res (vchi_clnt_callback S ud reason d) (\<lambda>_ d. run_calls S cs d)
      else run_calls S cs d)"
| "run_calls S (VchiqCall cb reason m h # cs) d = run_calls S cs d"

definition kernel_dispatch :: "'sem sem_ops \<Rightarrow> 'sem kernel \<Rightarrow> (unit, 'sem kernel) result" where
  "kernel_dispatch S p =
     bind_res (completion_handler S (k_vchi p))
       (\<lambda>_ v. bind_res (run_calls S (drop (length (vi_calls (k_vchi p))) (vi_calls v)) (k_data p))
          (\<lambda>_ d. Ok () (p\<lparr>k_vchi := v, k_data := d\<rparr>)) (\<lambda>_ d. p\<lparr>k_vchi := v, k_data := d\<rparr>))
       (\<lambda>_ v. p\<lparr>k_vchi := v\<rparr>)"

datatype kernel_event = Polled | Received slot_message | Dispatched

definition kernel_step ::
  "'sem sem_ops \<Rightarrow> (open_payload \<Rightarrow> u8 list) \<Rightarrow> kernel_event \<Rightarrow> test_stage \<times> 'sem kernel \<Rightarrow> (unit, test_stage \<times> 'sem kernel) result" where
  "kernel_step S enc ev = (\<lambda>(stage, p).
     case ev of
       Polled \<Rightarrow> bind_res (test_poll S enc stage p) (\<lambda>stage p. Ok () (stage, p)) (\<lambda>_ p. (stage, p))
     | Received m \<Rightarrow> bind_res (kernel_receive S m p) (\<lambda>_ p. Ok () (stage, p)) (\<lambda>_ p. (stage, p))
     | Dispatched \<Rightarrow> bind_res (kernel_dispatch S p) (\<lambda>_ p. Ok () (stage, p)) (\<lambda>_ p. (stage, p)))"

fun kernel_run ::
  "'sem sem_ops \<Rightarrow> (open_payload \<Rightarrow> u8 list) \<Rightarrow> kernel_event list \<Rightarrow> test_stage \<times> 'sem kernel
   \<Rightarrow> (unit, test_stage \<times> 'sem kernel) result" where
  "kernel_run S enc [] k = Ok () k"
| "kernel_run S enc (ev # evs) k = seq_res (kernel_step S enc ev k) (\<lambda>_ k. kernel_run S enc evs k)"

section \<open>Steps of the program\<close>

text \<open>The kernel with the parts that the steps change, and the service of the test in the VCHI table.\<close>

definition kernel_at ::
  "bool \<Rightarrow> (service_handle \<rightharpoonup> vchi_service) \<Rightarrow> 'sem vchiq_instance \<Rightarrow> usize \<Rightarrow> callback_call list \<Rightarrow> 'sem callback_data \<Rightarrow> 'sem kernel" where
  "kernel_at c srvs x h calls d =
     \<lparr>k_vchi = \<lparr>vi_initialized = True, vi_connected = c, use_close_delivered = True, used_services = 0, vi_services = srvs,
        vi_vchiq = x, SERVICE_HANDLE = h, vi_calls = calls\<rparr>, k_data = d\<rparr>"

definition ping_service :: "service_handle \<Rightarrow> vchi_service" where
  "ping_service vh = \<lparr>vs_fourcc = echo_fourcc, vs_callback = None, vs_userdata = Some callback_param,
     vs_vchi_callback = Some clnt_callback, vs_handle = vh, vs_peek_buf = None, vs_client_id = 0, vs_is_client = True\<rparr>"

lemma kernel_lift [simp]:
  "lift_vchi (lift_vchiq f) (kernel_at c srvs x h calls d) =
     bind_res (f x) (\<lambda>a x. Ok a (kernel_at c srvs x h calls d)) (\<lambda>_ x. kernel_at c srvs x h calls d)"
  by (cases "f x") (simp_all add: lift_vchi_def lift_vchiq_def kernel_at_def)

lemma kernel_parts [simp]:
  "k_data (kernel_at c srvs x h calls d) = d" "vi_services (k_vchi (kernel_at c srvs x h calls d)) = srvs"
  "vi_vchiq (k_vchi (kernel_at c srvs x h calls d)) = x" "vi_calls (k_vchi (kernel_at c srvs x h calls d)) = calls"
  "vi_initialized (k_vchi (kernel_at c srvs x h calls d))" "SERVICE_HANDLE (k_vchi (kernel_at c srvs x h calls d)) = h"
  "(kernel_at c srvs x h calls d)\<lparr>k_data := d'\<rparr> = kernel_at c srvs x h calls d'"
  by (simp_all add: kernel_at_def)

lemma lift_open_poll:
  "create_poll S True vh x =
     seq_res (lift_state (open_poll S vh) x) (\<lambda>p x. case p of Ready _ \<Rightarrow> Ok (Ready vh) x | Pending \<Rightarrow> Ok Pending x)"
  by (simp add: create_poll_def)

text \<open>Repeated polls of a program that waits change nothing.\<close>

lemma idle_polls:
  "kernel_step S enc Polled k = Ok () k \<Longrightarrow> kernel_run S enc (replicate n Polled @ evs) k = kernel_run S enc evs k"
  by (induction n) simp_all

lemma step_received:
  assumes "handle_message S m x = Ok () y"
  shows "kernel_step S enc (Received m) (stage, kernel_at c srvs x h calls d) = Ok () (stage, kernel_at c srvs y h calls d)"
  using assms by (simp add: kernel_step_def kernel_receive_def)

lemma step_started:
  assumes "instance_new S P nh = Ok x ()" "instance_connect S x = Ok Pending x1"
  shows "test_start S enc P nh h =
    Ok Connecting (kernel_at False Map.empty x1 h [] \<lparr>cb_service = None, reply_event = sem_new S 0\<rparr>)"
  using assms
  by (simp add: test_start_def vchi_new_def vchi_initialize_def vchi_connect_def lift_vchiq_def vchi_connect_done_def
      test_connected_def kernel_at_def)

lemma step_connecting:
  assumes "instance_connect_poll S x = Ok Pending x"
  shows "kernel_step S enc Polled (Connecting, kernel_at False srvs x h calls d) = Ok () (Connecting, kernel_at False srvs x h calls d)"
  using assms
  by (simp add: kernel_step_def test_poll_def vchi_connect_poll_def lift_vchiq_def vchi_connect_done_def test_connected_def
      kernel_at_def)

text \<open>A poll of \<^verbatim>\<open>service_open\<close>, and one when the service is open: the test message is sent and the answer not yet there.\<close>

lemma opening_polled:
  assumes "open_poll S vh (inst_state x) = Ok Pending (inst_state x)"
  shows "ping_opened S fourcc (h, vh) (kernel_at c srvs x k calls d) = Ok (Opening (h, vh)) (kernel_at c srvs x k calls d)"
  using assms
  by (simp add: ping_opened_def vchi_create_poll_def lift_vchi_def lift_vchiq_def lift_open_poll lift_state_def kernel_at_def)

lemma step_opening:
  assumes "open_poll S vh (inst_state x) = Ok Pending (inst_state x)"
  shows "kernel_step S enc Polled (Pinging (Opening (h, vh)), kernel_at c srvs x k calls d) =
    Ok () (Pinging (Opening (h, vh)), kernel_at c srvs x k calls d)"
  by (simp add: kernel_step_def test_poll_def ping_poll_def ping_logged_def opening_polled [OF assms])

lemma step_connected:
  assumes "instance_connect_poll S x = Ok (Ready ()) x3"
    and "create_start S enc ((open_params (ping_setup echo_fourcc))\<lparr>sp_userdata := Some (Any_Handle h)\<rparr>) True True x3 = Ok vh x4"
    and "open_poll S vh (inst_state x4) = Ok Pending (inst_state x4)"
  shows "kernel_step S enc Polled (Connecting, kernel_at False srvs x h calls d) =
    Ok () (Pinging (Opening (h, vh)), kernel_at True srvs x4 (h + 1) calls \<lparr>cb_service = None, reply_event = sem_new S 0\<rparr>)"
proof -
  let ?d = "\<lparr>cb_service = None, reply_event = sem_new S 0\<rparr>"
  have "test_poll S enc Connecting (kernel_at False srvs x h calls d) =
      ping_logged (ping_start S enc echo_fourcc (kernel_at True srvs x3 h calls d))"
    using assms(1)
    by (simp add: test_poll_def vchi_connect_poll_def lift_vchiq_def vchi_connect_done_def test_connected_def kernel_at_def)
  moreover have "lift_vchi (vchi_create_start S enc (open_params (ping_setup echo_fourcc)) True) (kernel_at True srvs x3 h calls ?d) =
      Ok (h, vh) (kernel_at True srvs x4 (h + 1) calls ?d)"
    using assms(2) by (simp add: lift_vchi_def vchi_create_start_def Let_def lift_vchiq_def kernel_at_def open_params_def)
  ultimately show ?thesis
    by (simp add: kernel_step_def ping_start_def ping_logged_def opening_polled [OF assms(3)])
qed

lemma step_opened:
  assumes "open_poll S vh (inst_state x) = Ok (Ready ()) st"
    and "instance_queue_message S vh (test_parameter_bytes ping_message) (x\<lparr>inst_state := st\<rparr>) = Ok () y"
    and "sem_try_down S (reply_event d) = None"
  shows "kernel_step S enc Polled (Pinging (Opening (h, vh)), kernel_at c Map.empty x k calls d) =
    Ok () (Pinging (Waiting h), kernel_at c [h \<mapsto> ping_service vh] y k calls (d\<lparr>cb_service := Some h\<rparr>))"
proof -
  have "lift_vchi (vchi_create_poll S (open_params (ping_setup echo_fourcc)) (cr_callback (ping_setup echo_fourcc)) True (h, vh))
      (kernel_at c Map.empty x k calls d) =
      Ok (Ready h) (kernel_at c [h \<mapsto> ping_service vh] (x\<lparr>inst_state := st\<rparr>) k calls d)"
    using assms(1)
    by (simp add: vchi_create_poll_def lift_vchi_def lift_vchiq_def lift_open_poll lift_state_def kernel_at_def ping_service_def
        open_params_def ping_setup_def)
  moreover have "lift_vchi (vchi_queue_message S h (test_parameter_bytes ping_message))
      (kernel_at c [h \<mapsto> ping_service vh] (x\<lparr>inst_state := st\<rparr>) k calls d') =
      Ok () (kernel_at c [h \<mapsto> ping_service vh] y k calls d')" for d'
    using assms(2) by (simp add: lift_vchi_def vchi_queue_message_def lift_vchiq_def kernel_at_def ping_service_def)
  ultimately show ?thesis
    using assms(3) by (simp add: kernel_step_def test_poll_def ping_poll_def ping_opened_def Let_def ping_wait_def ping_logged_def)
qed

lemma step_waiting:
  assumes "sem_try_down S (reply_event d) = None"
  shows "kernel_step S enc Polled (Pinging (Waiting h), kernel_at c srvs x k calls d) =
    Ok () (Pinging (Waiting h), kernel_at c srvs x k calls d)"
  using assms by (simp add: kernel_step_def test_poll_def ping_poll_def ping_wait_def ping_logged_def)

text \<open>The completion handler takes the completion of the answer and raises the semaphore of the test.\<close>

lemma step_dispatched:
  assumes "connected x" "completion_inv (inst_completion x)"
    and "pending_completions (inst_completion x) =
      [Some \<lparr>sc_reason = MESSAGE_AVAILABLE, sc_msg = Some m, sc_userdata = Some (Any_Handle h)\<rparr>]"
  obtains q where "kernel_step S enc Dispatched (stage, kernel_at c [h \<mapsto> ping_service vh] x k calls d) =
    Ok () (stage, kernel_at c [h \<mapsto> ping_service vh] (x\<lparr>inst_completion := q\<rparr>) k
      (calls @ [VchiCall clnt_callback (Some callback_param) MESSAGE_AVAILABLE]) (d\<lparr>reply_event := sem_up S (reply_event d)\<rparr>))"
    "completion_inv q" "pending_completions q = []"
proof -
  let ?v = "k_vchi (kernel_at c [h \<mapsto> ping_service vh] x k calls d)"
  have n: "pending_completions (inst_completion x) \<noteq> []" using assms(3) by simp
  obtain q where q: "await_completion S 8 x =
      Ok (Ready (map the (take (unat (8 :: usize)) (pending_completions (inst_completion x))))) (x\<lparr>inst_completion := q\<rparr>)"
    "completion_inv q" "pending_completions q = drop (unat (8 :: usize)) (pending_completions (inst_completion x))"
    by (rule await_ready [OF assms(1,2) n, of S 8])
  have "completion_handler S ?v = Ok Pending (k_vchi (kernel_at c [h \<mapsto> ping_service vh] (x\<lparr>inst_completion := q\<rparr>) k
      (calls @ [VchiCall clnt_callback (Some callback_param) MESSAGE_AVAILABLE]) d))"
    using q(1) by (simp add: completion_handler_def assms(3) dispatch_completion_def kernel_at_def ping_service_def)
  then show thesis
    using q(2,3) by (intro that [of q])
      (simp_all add: kernel_step_def kernel_dispatch_def vchi_clnt_callback_def assms(3) kernel_at_def)
qed

lemma step_answered:
  assumes "sem_try_down S (reply_event d) = Some s" "instance_close_service S vh x = Ok Pending y"
  shows "kernel_step S enc Polled (Pinging (Waiting h), kernel_at c [h \<mapsto> ping_service vh] x k calls d) =
    Ok () (Pinging (Closing h vh), kernel_at c [h \<mapsto> ping_service vh] y k calls (d\<lparr>reply_event := s\<rparr>))"
proof -
  have "lift_vchi (service_close S h) (kernel_at c [h \<mapsto> ping_service vh] x k calls d') =
      Ok Pending (kernel_at c [h \<mapsto> ping_service vh] y k calls d')" for d'
    using assms(2)
    by (simp add: lift_vchi_def service_close_def lift_vchiq_def service_close_done_def kernel_at_def ping_service_def)
  then show ?thesis
    using assms(1)
    by (simp add: kernel_step_def test_poll_def ping_poll_def ping_wait_def Let_def ping_closed_def ping_logged_def ping_service_def)
qed

lemma step_closing:
  assumes "close_poll S vh (inst_state x) = Ok r st"
  shows "kernel_step S enc Polled (Pinging (Closing h vh), kernel_at c srvs x k calls d) =
    (case r of
       Pending \<Rightarrow> Ok () (Pinging (Closing h vh), kernel_at c srvs (x\<lparr>inst_state := st\<rparr>) k calls d)
     | Ready _ \<Rightarrow> Ok () (Finished None, kernel_at c (srvs(h := None)) (x\<lparr>inst_state := st\<rparr>) k calls d))"
  using assms
  by (cases r) (simp_all add: kernel_step_def test_poll_def ping_poll_def service_close_poll_def lift_vchi_def lift_vchiq_def
      lift_state_def service_close_done_def ping_closed_def ping_logged_def kernel_at_def)

lemma step_finished: "kernel_step S enc Polled (Finished e, p) = Ok () (Finished e, p)"
  by (simp add: kernel_step_def test_poll_def)

section \<open>Phases of a run\<close>

text \<open>The two contents of the callback data while the test runs: before and after the service is open.\<close>

definition reply_data :: "'sem sem_ops \<Rightarrow> service_handle option \<Rightarrow> 'sem callback_data" where
  "reply_data S h = \<lparr>cb_service = h, reply_event = sem_new S 0\<rparr>"

lemma test_parameter_length: "length (test_parameter_bytes t) = 40"
  by (simp add: test_parameter_bytes_def)

lemma reply_pending: "sem_laws S cnt \<Longrightarrow> sem_try_down S (reply_event (reply_data S h)) = None"
  using down_lawD(1) [OF sem_lawsD(6)] sem_lawsD(1) [of S cnt 0] by (simp add: reply_data_def)

lemma run_connected:
  assumes "sem_laws S cnt" "platform_ok P" "mailbox_accepts P" "\<And>p. length (enc p) \<le> 2000" "unat nh + 1 < 2 ^ 64"
    and "message_to CONNECT 0 0 m"
  obtains p x vh srv where "test_start S enc P nh h = Ok Connecting p"
    "\<forall>evs. kernel_run S enc (replicate n Polled @ Received m # Polled # evs) (Connecting, p) =
       kernel_run S enc evs (Pinging (Opening (h, vh)), kernel_at True Map.empty x (h + 1) [] (reply_data S None))"
    "serves cnt vh srv (inst_state x)" "srvstate srv = OPENING" "\<not> closing srv" "base_callback srv = Some InternalCallback"
    "base_userdata srv = Some (UD_ServiceUser (service_user_new S (Some (Any_Handle h)) True))" "quota_left (inst_state x)"
    "tx_of (inst_state x) \<le> 2030" "connected x" "inst_completion x = completion_default S"
proof -
  let ?pp = "(open_params (ping_setup echo_fourcc))\<lparr>sp_userdata := Some (Any_Handle h)\<rparr>"
  obtain x0 x1 x2 x3 where c: "instance_new S P nh = Ok x0 ()" "\<not> connected x0" "instance_connect S x0 = Ok Pending x1"
    "instance_connect_poll S x1 = Ok Pending x1" "handle_message S m x1 = Ok () x2"
    "instance_connect_poll S x2 = Ok (Ready ()) x3" "connected x3" "idle S (inst_state x3)"
    "next_srv_handle (inst_state x3) = nh" "inst_completion x3 = completion_default S"
    by (rule connected_idle [OF assms(1-3,6)])
  have nh: "unat (next_srv_handle (inst_state x3)) + 1 < 2 ^ 64" using assms(5) c(9) by simp
  obtain st srv where o: "create_start S enc ?pp True True x3 = Ok (next_srv_handle (inst_state x3)) (x3\<lparr>inst_state := st\<rparr>)"
    "serves cnt (next_srv_handle (inst_state x3)) srv st" "srvstate srv = OPENING" "\<not> closing srv"
    "base_callback srv = Some InternalCallback" "remoteport srv = VCHIQ_PORT_FREE"
    "base_userdata srv = Some (UD_ServiceUser (service_user_new S (sp_userdata ?pp) True))" "quota_left st"
    "tx_of st \<le> 2030" "conn_state st = conn_state (inst_state x3)"
    by (rule create_started [OF assms(1) c(8) nh c(7) assms(4)])
  let ?x4 = "x3\<lparr>inst_state := st\<rparr>" and ?vh = "next_srv_handle (inst_state x3)"
  let ?p = "kernel_at False Map.empty x1 h [] (reply_data S None)"
  have s: "serves cnt ?vh srv (inst_state ?x4)" using o(2) by simp
  note step = step_connected [OF c(6) o(1) serves_pending(1) [OF assms(1) s], folded reply_data_def]
  have "\<forall>evs. kernel_run S enc (replicate n Polled @ Received m # Polled # evs) (Connecting, ?p) =
       kernel_run S enc evs (Pinging (Opening (h, ?vh)), kernel_at True Map.empty ?x4 (h + 1) [] (reply_data S None))"
    by (simp add: idle_polls [OF step_connecting [OF c(4)]] step_received [OF c(5)] step)
  then show thesis
    by (rule that [OF step_started [OF c(1,3), folded reply_data_def] _ s]) (use o c in simp_all)
qed

lemma run_opened:
  assumes "sem_laws S cnt" "serves cnt vh srv (inst_state x)" "srvstate srv = OPENING" "\<not> closing srv" "quota_left (inst_state x)"
    and "tx_of (inst_state x) \<le> 2030" "message_to OPENACK r 0 m"
  obtains st srv' where "\<forall>evs. kernel_run S enc (replicate n Polled @ Received m # Polled # evs)
      (Pinging (Opening (h, vh)), kernel_at c Map.empty x k calls (reply_data S None)) =
      kernel_run S enc evs (Pinging (Waiting h), kernel_at c [h \<mapsto> ping_service vh] (x\<lparr>inst_state := st\<rparr>) k calls (reply_data S (Some h)))"
    "serves cnt vh srv' st" "srvstate srv' = OPEN" "remoteport srv' = r" "base_callback srv' = base_callback srv"
    "base_userdata srv' = base_userdata srv" "tx_of st \<le> 2085"
proof -
  obtain st5 st6 srv' where a: "handle_message S m x = Ok () (x\<lparr>inst_state := st5\<rparr>)" "open_poll S vh st5 = Ok (Ready ()) st6"
    "serves cnt vh srv' st6" "srvstate srv' = OPEN" "remoteport srv' = r" "closing srv' = closing srv"
    "base_callback srv' = base_callback srv" "base_userdata srv' = base_userdata srv"
    "quota_state st6 = quota_state (inst_state x)" "tx_of st6 = tx_of (inst_state x)" "conn_state st6 = conn_state (inst_state x)"
    by (rule openack_received [OF assms(1-3,7)])
  let ?x6 = "x\<lparr>inst_state := st6\<rparr>"
  have s: "serves cnt vh srv' (inst_state ?x6)" "\<not> closing srv'" "unat (remoteport srv') < 4096" "quota_left (inst_state ?x6)"
      "length (test_parameter_bytes ping_message) \<le> 40" "tx_of (inst_state ?x6) \<le> 2030"
    using a assms(4-7) by (simp_all add: message_to_def quota_left_def test_parameter_length)
  obtain st where d: "instance_queue_message S vh (test_parameter_bytes ping_message) ?x6 = Ok () (?x6\<lparr>inst_state := st\<rparr>)"
    "serves cnt vh srv' st" "tx_of st \<le> 2085" "conn_state st = conn_state (inst_state ?x6)"
    by (rule data_sent [OF s])
  have o: "open_poll S vh (inst_state (x\<lparr>inst_state := st5\<rparr>)) = Ok (Ready ()) st6" using a(2) by simp
  have q: "instance_queue_message S vh (test_parameter_bytes ping_message) (x\<lparr>inst_state := st5, inst_state := st6\<rparr>) =
      Ok () (x\<lparr>inst_state := st\<rparr>)" using d(1) by simp
  note step = step_opened [OF o q reply_pending [OF assms(1)]]
  have "(reply_data S None)\<lparr>cb_service := Some h\<rparr> = reply_data S (Some h)" by (simp add: reply_data_def)
  then show thesis
    by (intro that [OF _ d(2) a(4,5,7,8) d(3)])
      (simp add: idle_polls [OF step_opening [OF serves_pending(1) [OF assms(1,2)]]] step_received [OF a(1)] step)
qed

lemma run_answered:
  assumes "sem_laws S cnt" "serves cnt vh srv (inst_state x)" "srvstate srv = OPEN" "base_callback srv = Some InternalCallback"
    and "base_userdata srv = Some (UD_ServiceUser (service_user_new S (Some (Any_Handle h)) True))"
    and "message_to DATA (remoteport srv) 0 m" "inst_completion x = completion_default S" "connected x" "tx_of (inst_state x) \<le> 2085"
  obtains y srv' s where "\<forall>evs. kernel_run S enc (replicate n Polled @ Received m # replicate n' Polled @ Dispatched # Polled # evs)
      (Pinging (Waiting h), kernel_at c [h \<mapsto> ping_service vh] x k calls (reply_data S (Some h))) =
      kernel_run S enc evs (Pinging (Closing h vh), kernel_at c [h \<mapsto> ping_service vh] y k
        (calls @ [VchiCall clnt_callback (Some callback_param) MESSAGE_AVAILABLE]) \<lparr>cb_service = Some h, reply_event = s\<rparr>)"
    "close_poll S vh (inst_state y) = Ok Pending (inst_state y)" "srv_inv (inst_state y)" "lookup_handle (inst_state y) vh = Some 0"
    "get_service (inst_state y) 0 = Some srv'" "srvstate srv' = CLOSESENT" "remoteport srv' = remoteport srv"
proof -
  obtain x8 us where e: "handle_message S m x = Ok () x8"
    "serves cnt vh (srv\<lparr>base_userdata := Some (UD_ServiceUser us)\<rparr>) (inst_state x8)"
    "pending_messages us = [Some m]" "completion_inv (inst_completion x8)"
    "pending_completions (inst_completion x8) =
      [Some \<lparr>sc_reason = MESSAGE_AVAILABLE, sc_msg = Some m, sc_userdata = Some (Any_Handle h)\<rparr>]"
    "connected x8 = connected x" "tx_of (inst_state x8) = tx_of (inst_state x)" "conn_state (inst_state x8) = conn_state (inst_state x)"
    by (rule data_received [OF assms(2-7)])
  let ?srv8 = "srv\<lparr>base_userdata := Some (UD_ServiceUser us)\<rparr>" and ?d = "reply_data S (Some h)"
  let ?calls = "calls @ [VchiCall clnt_callback (Some callback_param) MESSAGE_AVAILABLE]"
  have c8: "connected x8" using e(6) assms(8) by simp
  obtain q where q: "kernel_step S enc Dispatched (Pinging (Waiting h), kernel_at c [h \<mapsto> ping_service vh] x8 k calls ?d) =
      Ok () (Pinging (Waiting h), kernel_at c [h \<mapsto> ping_service vh] (x8\<lparr>inst_completion := q\<rparr>) k ?calls
        (?d\<lparr>reply_event := sem_up S (reply_event ?d)\<rparr>))" "completion_inv q" "pending_completions q = []"
    by (rule step_dispatched [OF c8 e(4,5)])
  let ?x9 = "x8\<lparr>inst_completion := q\<rparr>" and ?d9 = "?d\<lparr>reply_event := sem_up S (reply_event ?d)\<rparr>"
  have s9: "serves cnt vh ?srv8 (inst_state ?x9)" "srvstate ?srv8 = OPEN" "tx_of (inst_state ?x9) \<le> 2085"
    using e(2,7) assms(3,9) by simp_all
  obtain st where f: "instance_close_service S vh ?x9 = Ok Pending (?x9\<lparr>inst_state := st\<rparr>)" "close_poll S vh st = Ok Pending st"
    "srv_inv st" "lookup_handle st vh = Some 0" "get_service st 0 = Some (?srv8\<lparr>closing := True, srvstate := CLOSESENT\<rparr>)"
    by (rule close_begun [OF assms(1) s9])
  obtain s where up: "sem_try_down S (reply_event ?d9) = Some s"
    using down_lawD(2) [OF sem_lawsD(6) [OF assms(1)], of "sem_up S (reply_event ?d)"] sem_lawsD(4) [OF assms(1)] by auto
  note idle = step_waiting [OF reply_pending [OF assms(1)]]
  have "\<forall>evs. kernel_run S enc (replicate n Polled @ Received m # replicate n' Polled @ Dispatched # Polled # evs)
      (Pinging (Waiting h), kernel_at c [h \<mapsto> ping_service vh] x k calls ?d) =
      kernel_run S enc evs (Pinging (Closing h vh),
        kernel_at c [h \<mapsto> ping_service vh] (?x9\<lparr>inst_state := st\<rparr>) k ?calls (?d9\<lparr>reply_event := s\<rparr>))"
    using step_answered [OF up f(1), of enc h c k ?calls] q(1)
    by (simp add: idle_polls [OF idle] step_received [OF e(1)])
  moreover have "?d9\<lparr>reply_event := s\<rparr> = \<lparr>cb_service = Some h, reply_event = s\<rparr>" by (simp add: reply_data_def)
  ultimately show thesis by (intro that [of "?x9\<lparr>inst_state := st\<rparr>" s "?srv8\<lparr>closing := True, srvstate := CLOSESENT\<rparr>"]) (use f(2-5) in simp_all)
qed

lemma run_closed:
  assumes "sem_laws S cnt" "close_poll S vh (inst_state x) = Ok Pending (inst_state x)" "srv_inv (inst_state x)"
    and "lookup_handle (inst_state x) vh = Some 0" "get_service (inst_state x) 0 = Some srv" "srvstate srv = CLOSESENT"
    and "message_to CLOSE (remoteport srv) 0 m"
  obtains y where "\<forall>evs. kernel_run S enc (replicate n Polled @ Received m # Polled # evs)
      (Pinging (Closing h vh), kernel_at c srvs x k calls d) =
      kernel_run S enc evs (Finished None, kernel_at c (srvs(h := None)) y k calls d)"
proof -
  obtain st st' srv' where g: "handle_message S m x = Ok () (x\<lparr>inst_state := st\<rparr>)"
    "close_poll S vh st = Ok (Ready ()) st'" "srv_inv st'" "get_service st' 0 = Some srv'" "srvstate srv' = FREE"
    by (rule close_answered [OF assms(1,3-7)])
  have i: "kernel_step S enc Polled (Pinging (Closing h vh), kernel_at c srvs x k calls d) =
      Ok () (Pinging (Closing h vh), kernel_at c srvs x k calls d)"
    using step_closing [OF assms(2), of enc h c srvs k calls d] by simp
  have "close_poll S vh (inst_state (x\<lparr>inst_state := st\<rparr>)) = Ok (Ready ()) st'" using g(2) by simp
  note step = step_closing [OF this, simplified]
  show thesis by (rule that [of "x\<lparr>inst_state := st'\<rparr>"]) (simp add: idle_polls [OF i] step_received [OF g(1)] step)
qed

section \<open>Properties\<close>

text \<open>The events of a whole run: the four answers of the VideoCore, one run of the completion handler and polls of the
  test, which may be polled any number of times while it waits.\<close>

definition ping_events :: "(nat \<Rightarrow> nat) \<Rightarrow> slot_message \<Rightarrow> slot_message \<Rightarrow> slot_message \<Rightarrow> slot_message \<Rightarrow> kernel_event list" where
  "ping_events n m_connect m_openack m_reply m_close =
     replicate (n 0) Polled @ Received m_connect # Polled # replicate (n 1) Polled @ Received m_openack # Polled #
     replicate (n 2) Polled @ Received m_reply # replicate (n 3) Polled @ Dispatched # Polled # replicate (n 4) Polled @
     Received m_close # Polled # []"

lemma ping_run:
  assumes "sem_laws S cnt" "platform_ok P" "mailbox_accepts P" "\<And>p. length (enc p) \<le> 2000" "unat nh + 1 < 2 ^ 64"
    and "message_to CONNECT 0 0 m1" "message_to OPENACK r 0 m2" "message_to DATA r 0 m3" "message_to CLOSE r 0 m4"
  shows "\<exists>p1 p. test_start S enc P nh h = Ok Connecting p1 \<and>
    kernel_run S enc (ping_events n m1 m2 m3 m4) (Connecting, p1) = Ok () (Finished None, p) \<and>
    vi_services (k_vchi p) = Map.empty \<and> cb_service (k_data p) = Some h \<and>
    vi_calls (k_vchi p) = [VchiCall clnt_callback (Some callback_param) MESSAGE_AVAILABLE]"
proof -
  obtain p x vh srv where a: "test_start S enc P nh h = Ok Connecting p"
    "\<forall>evs. kernel_run S enc (replicate (n 0) Polled @ Received m1 # Polled # evs) (Connecting, p) =
       kernel_run S enc evs (Pinging (Opening (h, vh)), kernel_at True Map.empty x (h + 1) [] (reply_data S None))"
    "serves cnt vh srv (inst_state x)" "srvstate srv = OPENING" "\<not> closing srv" "base_callback srv = Some InternalCallback"
    "base_userdata srv = Some (UD_ServiceUser (service_user_new S (Some (Any_Handle h)) True))" "quota_left (inst_state x)"
    "tx_of (inst_state x) \<le> 2030" "connected x" "inst_completion x = completion_default S"
    by (rule run_connected [OF assms(1-6)])
  obtain st srv' where b: "\<forall>evs. kernel_run S enc (replicate (n 1) Polled @ Received m2 # Polled # evs)
      (Pinging (Opening (h, vh)), kernel_at True Map.empty x (h + 1) [] (reply_data S None)) =
      kernel_run S enc evs (Pinging (Waiting h),
        kernel_at True [h \<mapsto> ping_service vh] (x\<lparr>inst_state := st\<rparr>) (h + 1) [] (reply_data S (Some h)))"
    "serves cnt vh srv' st" "srvstate srv' = OPEN" "remoteport srv' = r" "base_callback srv' = base_callback srv"
    "base_userdata srv' = base_userdata srv" "tx_of st \<le> 2085"
    by (rule run_opened [OF assms(1) a(3-5,8,9) assms(7)])
  let ?x = "x\<lparr>inst_state := st\<rparr>"
  have w: "serves cnt vh srv' (inst_state ?x)" "base_callback srv' = Some InternalCallback"
      "base_userdata srv' = Some (UD_ServiceUser (service_user_new S (Some (Any_Handle h)) True))"
      "message_to DATA (remoteport srv') 0 m3" "inst_completion ?x = completion_default S" "connected ?x"
      "tx_of (inst_state ?x) \<le> 2085"
    using a(6,7,10,11) b assms(8) by simp_all
  obtain y srv'' s where c: "\<forall>evs. kernel_run S enc
      (replicate (n 2) Polled @ Received m3 # replicate (n 3) Polled @ Dispatched # Polled # evs)
      (Pinging (Waiting h), kernel_at True [h \<mapsto> ping_service vh] ?x (h + 1) [] (reply_data S (Some h))) =
      kernel_run S enc evs (Pinging (Closing h vh), kernel_at True [h \<mapsto> ping_service vh] y (h + 1)
        ([] @ [VchiCall clnt_callback (Some callback_param) MESSAGE_AVAILABLE]) \<lparr>cb_service = Some h, reply_event = s\<rparr>)"
    "close_poll S vh (inst_state y) = Ok Pending (inst_state y)" "srv_inv (inst_state y)" "lookup_handle (inst_state y) vh = Some 0"
    "get_service (inst_state y) 0 = Some srv''" "srvstate srv'' = CLOSESENT" "remoteport srv'' = remoteport srv'"
    by (rule run_answered [OF assms(1) w(1) b(3) w(2-7)])
  have "message_to CLOSE (remoteport srv'') 0 m4" using c(7) b(4) assms(9) by simp
  then obtain z where d: "\<forall>evs. kernel_run S enc (replicate (n 4) Polled @ Received m4 # Polled # evs)
      (Pinging (Closing h vh), kernel_at True [h \<mapsto> ping_service vh] y (h + 1)
        ([] @ [VchiCall clnt_callback (Some callback_param) MESSAGE_AVAILABLE]) \<lparr>cb_service = Some h, reply_event = s\<rparr>) =
      kernel_run S enc evs (Finished None, kernel_at True ([h \<mapsto> ping_service vh](h := None)) z (h + 1)
        ([] @ [VchiCall clnt_callback (Some callback_param) MESSAGE_AVAILABLE]) \<lparr>cb_service = Some h, reply_event = s\<rparr>)"
    by (rule run_closed [OF assms(1) c(2-6)])
  have "kernel_run S enc (ping_events n m1 m2 m3 m4) (Connecting, p) = Ok () (Finished None, kernel_at True ([h \<mapsto> ping_service vh](h := None)) z (h + 1)
        ([] @ [VchiCall clnt_callback (Some callback_param) MESSAGE_AVAILABLE]) \<lparr>cb_service = Some h, reply_event = s\<rparr>)"
    unfolding ping_events_def a(2) [rule_format] b(1) [rule_format] c(1) [rule_format] d [rule_format] by simp
  with a(1) show ?thesis by simp
qed

section \<open>The wait for the reply\<close>

text \<open>How often the callback has been told of a message, and what holds in each stage of the test.\<close>

fun told :: "callback_call list \<Rightarrow> nat" where
  "told [] = 0"
| "told (VchiCall cb ud reason # cs) =
     (if cb = clnt_callback \<and> ud \<noteq> None \<and> reason = MESSAGE_AVAILABLE then 1 else 0) + told cs"
| "told (VchiqCall cb reason m h # cs) = told cs"

lemma told_append [simp]: "told (cs @ cs') = told cs + told cs'"
  by (induction cs rule: told.induct) simp_all

definition ping_inv :: "('sem \<Rightarrow> nat) \<Rightarrow> test_stage \<Rightarrow> 'sem kernel \<Rightarrow> bool" where
  "ping_inv cnt stage p \<longleftrightarrow>
     (let n = told (vi_calls (k_vchi p)); r = cnt (reply_event (k_data p)) in
      case stage of
        Connecting \<Rightarrow> vi_services (k_vchi p) = Map.empty \<and> n = 0
      | Pinging (Opening _) \<Rightarrow> r = n
      | Pinging (Waiting _) \<Rightarrow> r = n
      | Pinging _ \<Rightarrow> Suc r = n
      | Finished None \<Rightarrow> 0 < n
      | Finished (Some _) \<Rightarrow> True)"

lemma poll_case_Ok [outcome]:
  "(case q of Ready a \<Rightarrow> f a | Pending \<Rightarrow> r) = Ok b t \<longleftrightarrow> (\<exists>a. q = Ready a \<and> f a = Ok b t) \<or> q = Pending \<and> r = Ok b t"
  by (cases q) simp_all

lemma vchi_keeps_calls [simp]:
  "vchi_create_start S enc ps b v = Ok hs v' \<Longrightarrow> vi_calls v' = vi_calls v"
  "vchi_create_poll S ps cb b hs v = Ok r v' \<Longrightarrow> vi_calls v' = vi_calls v"
  "vchi_queue_message S h data v = Ok u v' \<Longrightarrow> vi_calls v' = vi_calls v"
  "service_close S h v = Ok q v' \<Longrightarrow> vi_calls v' = vi_calls v"
  "service_close_poll S h vh v = Ok q v' \<Longrightarrow> vi_calls v' = vi_calls v"
  "vchi_connect_poll S v = Ok q v' \<Longrightarrow> vi_calls v' = vi_calls v \<and> vi_services v' = vi_services v"
  by (auto simp: vchi_create_start_def vchi_create_poll_def vchi_queue_message_def service_close_def service_close_poll_def
      vchi_connect_poll_def service_close_done_def vchi_connect_done_def lift_vchiq_def Let_def outcome
      split: if_splits option.splits prod.splits)

lemma dispatch_all_calls:
  "dispatch_all cs v = Ok u v' \<Longrightarrow> \<exists>l. vi_calls v' = vi_calls v @ l \<and> (vi_services v = Map.empty \<longrightarrow> l = []) \<and> vi_services v' = vi_services v"
proof (induction cs arbitrary: v)
  case (Cons c cs)
  then show ?case
    by (fastforce simp: outcome dispatch_completion_def split: option.splits user_any.splits)
qed simp

lemma handler_calls:
  assumes "completion_handler S v = Ok q v'"
  obtains l where "vi_calls v' = vi_calls v @ l" "vi_services v = Map.empty \<Longrightarrow> l = []" "vi_services v' = vi_services v"
proof -
  consider "vi_calls v' = vi_calls v" "vi_services v' = vi_services v"
    | cs x where "dispatch_all cs (v\<lparr>vi_vchiq := x\<rparr>) = Ok () v'"
    using assms by (auto simp: completion_handler_def outcome split: res.splits poll.splits)
  then show thesis using that dispatch_all_calls by cases fastforce+
qed

lemma run_calls_told:
  assumes "sem_laws S cnt" "run_calls S cs d = Ok u d'"
  shows "cnt (reply_event d') = cnt (reply_event d) + told cs"
  using assms(2)
proof (induction cs arbitrary: d)
  case (Cons c cs)
  then show ?case
    using sem_lawsD(4) [OF assms(1)]
    by (cases c) (auto simp: outcome vchi_clnt_callback_def split: if_splits option.splits reason.splits)
qed simp

lemma lift_vchi_Ok [outcome]: "lift_vchi f p = Ok a p' \<longleftrightarrow> (\<exists>v. f (k_vchi p) = Ok a v \<and> p' = p\<lparr>k_vchi := v\<rparr>)"
  by (auto simp: lift_vchi_def outcome)

lemma ping_wait_inv:
  assumes "sem_laws S cnt" "cnt (reply_event (k_data p)) = told (vi_calls (k_vchi p))" "ping_logged (ping_wait S h p) = Ok stage p'"
  shows "ping_inv cnt stage p'"
proof (cases "sem_try_down S (reply_event (k_data p))")
  case None
  with assms(2,3) show ?thesis by (auto simp: ping_wait_def ping_logged_def ping_inv_def Let_def)
next
  case (Some s)
  then have s: "Suc (cnt s) = told (vi_calls (k_vchi p))"
    using assms(2) down_lawD(3) [OF sem_lawsD(6) [OF assms(1)]] by metis
  let ?p = "p\<lparr>k_data := (k_data p)\<lparr>reply_event := s\<rparr>\<rparr>"
  show ?thesis
  proof (cases "service_close S h (k_vchi p)")
    case (Ok r v)
    then have "vi_calls v = vi_calls (k_vchi p)" by simp
    with assms(3) s Some Ok show ?thesis
      by (cases r) (auto simp: ping_wait_def ping_logged_def ping_closed_def ping_inv_def Let_def lift_vchi_def)
  qed (use assms(3) Some in \<open>auto simp: ping_wait_def ping_logged_def ping_inv_def Let_def lift_vchi_def\<close>)
qed

text \<open>A poll, a received message and a run of the completion handler keep the invariant.\<close>

lemma ping_opened_inv:
  assumes "sem_laws S cnt" "cnt (reply_event (k_data p)) = told (vi_calls (k_vchi p))"
    and "ping_logged (ping_opened S fourcc hs p) = Ok stage p'"
  shows "ping_inv cnt stage p'"
proof -
  let ?cs = "open_params (ping_setup fourcc)" and ?cb = "cr_callback (ping_setup fourcc)"
  show ?thesis
  proof (cases "vchi_create_poll S ?cs ?cb True hs (k_vchi p)")
    case (Ok r v)
    then have v: "vi_calls v = vi_calls (k_vchi p)" by simp
    show ?thesis
    proof (cases r)
      case Pending
      with assms(2,3) Ok v show ?thesis by (auto simp: ping_opened_def lift_vchi_def ping_logged_def ping_inv_def)
    next
      case (Ready h)
      let ?p = "p\<lparr>k_vchi := v, k_data := (k_data p)\<lparr>cb_service := Some h\<rparr>\<rparr>"
      show ?thesis
      proof (cases "vchi_queue_message S h (test_parameter_bytes ping_message) v")
        case q: (Ok u w)
        then have "vi_calls w = vi_calls v" by simp
        with assms(2) v have "cnt (reply_event (k_data (?p\<lparr>k_vchi := w\<rparr>))) = told (vi_calls (k_vchi (?p\<lparr>k_vchi := w\<rparr>)))" by simp
        then show ?thesis
          using assms(3) Ok Ready q by (intro ping_wait_inv [OF assms(1)]) (auto simp: ping_opened_def lift_vchi_def Let_def)
      qed (use assms(3) Ok Ready in \<open>auto simp: ping_opened_def lift_vchi_def Let_def ping_logged_def ping_inv_def\<close>)
    qed
  qed (use assms(3) in \<open>auto simp: ping_opened_def lift_vchi_def ping_logged_def ping_inv_def\<close>)
qed

lemma ping_start_inv:
  assumes "sem_laws S cnt" "told (vi_calls (k_vchi p)) = 0" "ping_logged (ping_start S enc fourcc p) = Ok stage p'"
  shows "ping_inv cnt stage p'"
proof (cases "vchi_create_start S enc (open_params (ping_setup fourcc)) True (k_vchi p)")
  case (Ok hs v)
  then have "vi_calls v = vi_calls (k_vchi p)" by simp
  with assms(2) sem_lawsD(1) [OF assms(1), of 0] have "cnt (sem_new S 0) = told (vi_calls v)" by simp
  then show ?thesis
    using assms(3) Ok by (intro ping_opened_inv [OF assms(1)]) (auto simp: ping_start_def lift_vchi_def Let_def)
qed (use assms(3) in \<open>auto simp: ping_start_def lift_vchi_def Let_def ping_logged_def ping_inv_def\<close>)

lemma test_connected_inv:
  assumes "sem_laws S cnt" "test_connected S enc r d = Ok stage p'"
    and "\<And>q v. r = Ok q v \<Longrightarrow> vi_services v = Map.empty \<and> told (vi_calls v) = 0"
  shows "ping_inv cnt stage p'"
proof (cases r)
  case (Ok q v)
  note v = assms(3) [OF this]
  show ?thesis
  proof (cases q)
    case Pending
    with assms(2) Ok v show ?thesis by (auto simp: test_connected_def ping_inv_def)
  next
    case Ready
    with assms(2) Ok v show ?thesis by (intro ping_start_inv [OF assms(1)]) (auto simp: test_connected_def)
  qed
qed (use assms(2) in \<open>auto simp: test_connected_def\<close>)

lemma test_start_inv:
  assumes "sem_laws S cnt" "test_start S enc P nh h = Ok stage p"
  shows "ping_inv cnt stage p"
proof -
  from assms(2) obtain v u where v: "vchi_new S P nh h = Ok v u"
      "test_connected S enc (vchi_connect S (vchi_initialize v)) \<lparr>cb_service = None, reply_event = sem_new S 0\<rparr> = Ok stage p"
    by (auto simp: test_start_def split: res.splits)
  have "vi_services v = Map.empty" "vi_calls v = []" using v(1) by (auto simp: vchi_new_def split: res.splits)
  then show ?thesis
    by (intro test_connected_inv [OF assms(1) v(2)])
      (auto simp: vchi_connect_def vchi_initialize_def vchi_connect_done_def lift_vchiq_def outcome split: if_splits)
qed

lemma test_poll_inv:
  assumes "sem_laws S cnt" "ping_inv cnt stage p" "test_poll S enc stage p = Ok stage' p'"
  shows "ping_inv cnt stage' p'"
proof (cases stage)
  case Connecting
  with assms(2,3) show ?thesis
    by (intro test_connected_inv [OF assms(1)]) (auto simp: test_poll_def ping_inv_def dest: vchi_keeps_calls(6))
next
  case (Pinging s)
  with assms(3) have l: "ping_logged (ping_poll S echo_fourcc s p) = Ok stage' p'" by (simp add: test_poll_def)
  show ?thesis
  proof (cases s)
    case (Opening hs)
    then show ?thesis using l assms(2) Pinging by (intro ping_opened_inv [OF assms(1)]) (auto simp: ping_poll_def ping_inv_def)
  next
    case (Waiting h)
    then show ?thesis using l assms(2) Pinging by (intro ping_wait_inv [OF assms(1)]) (auto simp: ping_poll_def ping_inv_def)
  next
    case (Closing h vh)
    show ?thesis
    proof (cases "service_close_poll S h vh (k_vchi p)")
      case (Ok r v)
      then have "vi_calls v = vi_calls (k_vchi p)" by simp
      then show ?thesis
        using Ok l assms(2) Pinging Closing
        by (cases r) (auto simp: ping_poll_def ping_closed_def ping_logged_def ping_inv_def lift_vchi_def Let_def)
    qed (use l Closing in \<open>auto simp: ping_poll_def ping_logged_def ping_inv_def lift_vchi_def\<close>)
  next
    case Done
    then show ?thesis using l assms(2) Pinging by (auto simp: ping_poll_def ping_logged_def ping_inv_def Let_def)
  qed
next
  case (Finished e)
  with assms(2,3) show ?thesis by (simp add: test_poll_def)
qed

lemma ping_inv_grown:
  assumes "ping_inv cnt stage p" "vi_calls (k_vchi p') = vi_calls (k_vchi p) @ l"
    and "cnt (reply_event (k_data p')) = cnt (reply_event (k_data p)) + told l"
    and "vi_services (k_vchi p) = Map.empty \<Longrightarrow> l = []" "vi_services (k_vchi p') = vi_services (k_vchi p)"
  shows "ping_inv cnt stage p'"
  using assms by (auto simp: ping_inv_def Let_def split: test_stage.splits ping_stage.splits option.splits)

lemma kernel_step_inv:
  assumes "sem_laws S cnt" "ping_inv cnt stage p" "kernel_step S enc ev (stage, p) = Ok u (stage', p')"
  shows "ping_inv cnt stage' p'"
proof (cases ev)
  case Polled
  with assms show ?thesis by (auto simp: kernel_step_def outcome intro: test_poll_inv)
next
  case (Received m)
  with assms(3) have "stage' = stage" "vi_calls (k_vchi p') = vi_calls (k_vchi p)" "k_data p' = k_data p"
      "vi_services (k_vchi p') = vi_services (k_vchi p)"
    by (auto simp: kernel_step_def kernel_receive_def lift_vchiq_def outcome)
  then show ?thesis using ping_inv_grown [OF assms(2), of p' "[]"] by simp
next
  case Dispatched
  with assms(3) obtain q v d u' where h: "completion_handler S (k_vchi p) = Ok q v" "stage' = stage" "p' = p\<lparr>k_vchi := v, k_data := d\<rparr>"
      "run_calls S (drop (length (vi_calls (k_vchi p))) (vi_calls v)) (k_data p) = Ok u' d"
    by (auto simp: kernel_step_def kernel_dispatch_def outcome)
  obtain l where l: "vi_calls v = vi_calls (k_vchi p) @ l" "vi_services (k_vchi p) = Map.empty \<Longrightarrow> l = []"
      "vi_services v = vi_services (k_vchi p)"
    by (rule handler_calls [OF h(1)]) blast
  have "cnt (reply_event d) = cnt (reply_event (k_data p)) + told l" using run_calls_told [OF assms(1) h(4)] l(1) by simp
  then show ?thesis using ping_inv_grown [OF assms(2), of p' l] l h(2,3) by simp
qed

lemma kernel_run_inv:
  assumes "sem_laws S cnt" "ping_inv cnt stage p" "kernel_run S enc evs (stage, p) = Ok u (stage', p')"
  shows "ping_inv cnt stage' p'"
  using assms(2,3)
proof (induction evs arbitrary: stage p)
  case (Cons ev evs)
  from Cons.prems(2) obtain stage1 p1 where s: "kernel_step S enc ev (stage, p) = Ok () (stage1, p1)"
      "kernel_run S enc evs (stage1, p1) = Ok u (stage', p')"
    by (auto simp: outcome)
  show ?case by (rule Cons.IH [OF kernel_step_inv [OF assms(1) Cons.prems(1) s(1)] s(2)])
qed simp

section \<open>Properties\<close>

text \<open>
  C3: The test program runs to its end when the VideoCore answers: it connects, opens the echo service, sends the test
  message, learns of the reply through its callback, which is called once, closes the service and finishes without
  an error; the VCHI side then has no service any more.  It may be polled any number of times while it waits.
\<close>

theorem ping_test_passes:
  assumes "sem_laws S cnt" "platform_ok P" "mailbox_accepts P" "\<And>p. length (enc p) \<le> 2000" "unat nh + 1 < 2 ^ 64"
    and "message_to CONNECT 0 0 m1" "message_to OPENACK r 0 m2" "message_to DATA r 0 m3" "message_to CLOSE r 0 m4"
  shows "\<exists>p1 p. test_start S enc P nh h = Ok Connecting p1 \<and>
    kernel_run S enc (ping_events n m1 m2 m3 m4) (Connecting, p1) = Ok () (Finished None, p) \<and>
    vi_services (k_vchi p) = Map.empty \<and> cb_service (k_data p) = Some h \<and>
    vi_calls (k_vchi p) = [VchiCall clnt_callback (Some callback_param) MESSAGE_AVAILABLE]"
  by (rule ping_run [OF assms])

theorem ping_test_passes_witness:
  "\<exists>p1 p. test_start counter_sem (\<lambda>_. []) board 4096 0 = Ok Connecting p1 \<and>
    kernel_run counter_sem (\<lambda>_. []) (ping_events (\<lambda>_. 2) (answer CONNECT 0) (answer OPENACK 5) (answer DATA 5) (answer CLOSE 5))
      (Connecting, p1) = Ok () (Finished None, p) \<and>
    vi_services (k_vchi p) = Map.empty \<and> vi_calls (k_vchi p) = [VchiCall clnt_callback (Some callback_param) MESSAGE_AVAILABLE]"
  using ping_test_passes [OF counter_sem_laws board_ok board_mailbox _ _ answer_to answer_to answer_to answer_to,
      of "\<lambda>_. []" 4096 5 0 "\<lambda>_. 2"]
  by auto

text \<open>
  C12: However the test, the slot handler and the completion handler take turns and whatever messages arrive: while the test
  waits, its semaphore counts the messages that the callback has been told of, and the test closes the service and
  finishes without an error only after the callback has been told of one.
\<close>

theorem ping_waits_for_reply:
  assumes "sem_laws S cnt" "test_start S enc P nh h = Ok stage0 p0" "kernel_run S enc evs (stage0, p0) = Ok () (stage, p)"
  shows "(\<forall>i. stage = Pinging (Waiting i) \<longrightarrow> cnt (reply_event (k_data p)) = told (vi_calls (k_vchi p))) \<and>
    ((\<exists>i vh. stage = Pinging (Closing i vh)) \<or> stage = Finished None \<longrightarrow> 0 < told (vi_calls (k_vchi p)))"
proof -
  have "ping_inv cnt stage p" by (rule kernel_run_inv [OF assms(1) test_start_inv [OF assms(1,2)] assms(3)])
  then show ?thesis by (auto simp: ping_inv_def Let_def)
qed

theorem ping_waits_for_reply_witness:
  "\<exists>p1 p. test_start counter_sem (\<lambda>_. []) board 4096 0 = Ok Connecting p1 \<and>
    kernel_run counter_sem (\<lambda>_. []) (ping_events (\<lambda>_. 0) (answer CONNECT 0) (answer OPENACK 5) (answer DATA 5) (answer CLOSE 5))
      (Connecting, p1) = Ok () (Finished None, p) \<and> 0 < told (vi_calls (k_vchi p))"
proof -
  obtain p1 p where r: "test_start counter_sem (\<lambda>_. []) board 4096 0 = Ok Connecting p1"
    "kernel_run counter_sem (\<lambda>_. []) (ping_events (\<lambda>_. 0) (answer CONNECT 0) (answer OPENACK 5) (answer DATA 5) (answer CLOSE 5))
      (Connecting, p1) = Ok () (Finished None, p)"
    using ping_run [OF counter_sem_laws board_ok board_mailbox _ _ answer_to answer_to answer_to answer_to,
        of "\<lambda>_. []" 4096 5 0 "\<lambda>_. 0"] by auto
  with ping_waits_for_reply [OF counter_sem_laws r] show ?thesis by blast
qed

end
