(* ===== verification/Shared_Access.thy ===== *)
theory Shared_Access
  imports Shared_Memory
begin

text \<open>
  The operations of the accessors over the shared memory: \<^verbatim>\<open>EventAccessor\<close> and \<^verbatim>\<open>SlotZeroAccessor::initialize\<close> as
  sequences of volatile reads and writes.  They are shown to implement the operations on records of \<open>Event\<close>
  and \<open>Slot_Zero\<close>, which the rest of the development uses, and to write nothing but the bytes of their structure.
\<close>

section \<open>Events\<close>

definition raw_event_init :: "'sem event_ptr \<Rightarrow> 'sem option \<Rightarrow> memory \<Rightarrow> 'sem event_ptr \<times> memory" where
  "raw_event_init e sem m =
     (let m = volatile_setter armed_f (event_inner e) 0 m
      in case sem of Some s \<Rightarrow> (e\<lparr>event_sem := Some s\<rparr>, m) | None \<Rightarrow> (e, m))"

definition raw_signal_local :: "'sem sem_ops \<Rightarrow> 'sem event_ptr \<Rightarrow> memory \<Rightarrow> 'sem event_ptr \<times> memory" where
  "raw_signal_local S e m =
     (let m = volatile_setter armed_f (event_inner e) 0 m
      in case event_sem e of Some s \<Rightarrow> (e\<lparr>event_sem := Some (sem_up S s)\<rparr>, m) | None \<Rightarrow> (e, m))"

definition raw_signal_remote :: "'sem event_ptr \<Rightarrow> memory \<Rightarrow> mmio_writes \<Rightarrow> memory \<times> mmio_writes" where
  "raw_signal_remote e m b =
     (let m = volatile_setter fired_f (event_inner e) 1 m
      in (m, if volatile_getter armed_f (event_inner e) m \<noteq> 0 then ring_vc_doorbell b else b))"

text \<open>The VideoCore may write to the memory between the two reads of \<open>fired\<close>: the argument \<open>vc\<close>.\<close>

definition raw_event_poll ::
  "'sem sem_ops \<Rightarrow> (memory \<Rightarrow> memory) \<Rightarrow> 'sem event_ptr \<Rightarrow> memory \<Rightarrow> (unit poll, 'sem event_ptr \<times> memory) result" where
  "raw_event_poll S vc e m =
     (let inner = event_inner e in
      if volatile_getter fired_f inner m = 0 then
        (let m = vc (volatile_setter armed_f inner 1 m) in
         if volatile_getter fired_f inner m = 0 then
           (case event_sem e of
              Some s \<Rightarrow> (case sem_try_down S s of
                  None \<Rightarrow> Ok Pending (e, m)
                | Some s' \<Rightarrow> Ok (Ready ()) (e\<lparr>event_sem := Some s'\<rparr>, volatile_setter armed_f inner 0 m))
            | None \<Rightarrow> Panic ''called wait on event not owned by ARM!'')
         else Ok (Ready ()) (e, volatile_setter fired_f inner 0 m))
      else Ok (Ready ()) (e, volatile_setter fired_f inner 0 m))"

definition raw_event_wait ::
  "'sem sem_ops \<Rightarrow> (memory \<Rightarrow> memory) \<Rightarrow> 'sem event_ptr \<Rightarrow> memory \<Rightarrow> (unit poll, 'sem event_ptr \<times> memory) result" where
  "raw_event_wait S vc e m = raw_event_poll S vc e (volatile_setter armed_f (event_inner e) 1 m)"

section \<open>The slot zero\<close>

text \<open>
  The mutable references that \<^verbatim>\<open>local_mut\<close>, \<^verbatim>\<open>trigger_mut\<close> and their likes hand out: an operation on the part is
  one on the whole.  \<^verbatim>\<open>local_ref\<close> and \<^verbatim>\<open>trigger\<close> are the selectors of the accessor records.
\<close>

definition trigger_mut ::
  "('sem event_ptr \<Rightarrow> memory \<Rightarrow> 'sem event_ptr \<times> memory) \<Rightarrow> 'sem shared_state_ptr \<Rightarrow> memory \<Rightarrow> 'sem shared_state_ptr \<times> memory" where
  "trigger_mut f s m = (let (e, m) = f (trigger_ptr s) m in (s\<lparr>trigger_ptr := e\<rparr>, m))"

definition sync_trigger_mut ::
  "('sem event_ptr \<Rightarrow> memory \<Rightarrow> 'sem event_ptr \<times> memory) \<Rightarrow> 'sem shared_state_ptr \<Rightarrow> memory \<Rightarrow> 'sem shared_state_ptr \<times> memory" where
  "sync_trigger_mut f s m = (let (e, m) = f (sync_trigger_ptr s) m in (s\<lparr>sync_trigger_ptr := e\<rparr>, m))"

definition sync_release_mut ::
  "('sem event_ptr \<Rightarrow> memory \<Rightarrow> 'sem event_ptr \<times> memory) \<Rightarrow> 'sem shared_state_ptr \<Rightarrow> memory \<Rightarrow> 'sem shared_state_ptr \<times> memory" where
  "sync_release_mut f s m = (let (e, m) = f (sync_release_ptr s) m in (s\<lparr>sync_release_ptr := e\<rparr>, m))"

definition recycle_mut ::
  "('sem event_ptr \<Rightarrow> memory \<Rightarrow> 'sem event_ptr \<times> memory) \<Rightarrow> 'sem shared_state_ptr \<Rightarrow> memory \<Rightarrow> 'sem shared_state_ptr \<times> memory" where
  "recycle_mut f s m = (let (e, m) = f (recycle_ptr s) m in (s\<lparr>recycle_ptr := e\<rparr>, m))"

definition local_mut ::
  "('sem shared_state_ptr \<Rightarrow> memory \<Rightarrow> 'sem shared_state_ptr \<times> memory) \<Rightarrow> 'sem slot_zero_ptr \<Rightarrow> memory \<Rightarrow> 'sem slot_zero_ptr \<times> memory" where
  "local_mut f z m = (let (s, m) = f (local_ptr z) m in (z\<lparr>local_ptr := s\<rparr>, m))"

definition remote_mut ::
  "('sem shared_state_ptr \<Rightarrow> memory \<Rightarrow> 'sem shared_state_ptr \<times> memory) \<Rightarrow> 'sem slot_zero_ptr \<Rightarrow> memory \<Rightarrow> 'sem slot_zero_ptr \<times> memory" where
  "remote_mut f z m = (let (s, m) = f (remote_ptr z) m in (z\<lparr>remote_ptr := s\<rparr>, m))"

text \<open>
  \<^verbatim>\<open>initialize\<close>: the values that do not depend on what is in the memory, from \<^verbatim>\<open>set_magic\<close> to \<^verbatim>\<open>set_tx_pos\<close>;
  the queue, the debug words, the events and the flag; and the whole.
\<close>

definition raw_init_fields :: "usize \<Rightarrow> usize \<Rightarrow> usize \<Rightarrow> 'sem slot_zero_ptr \<Rightarrow> memory \<Rightarrow> memory" where
  "raw_init_fields slot_zero_size' first_data_slot num_slots z m =
     (let m = volatile_setter magic_f (sz_inner z) (shared_four_cc_from 0x56 0x43 0x48 0x49) m;
          m = volatile_setter version_f (sz_inner z) 8 m;
          m = volatile_setter version_min_f (sz_inner z) 3 m;
          m = volatile_setter slot_zero_size_f (sz_inner z) (ucast slot_zero_size') m;
          m = volatile_setter slot_size_f (sz_inner z) (ucast VCHIQ_SLOT_SIZE) m;
          m = volatile_setter max_slots_f (sz_inner z) (ucast VCHIQ_MAX_SLOTS) m;
          m = volatile_setter max_slots_per_side_f (sz_inner z) (ucast VCHIQ_MAX_SLOTS_PER_SIDE) m;
          m = volatile_setter slot_sync_f (ss_inner (remote_ptr z)) (ucast first_data_slot) m;
          m = volatile_setter slot_first_f (ss_inner (remote_ptr z)) (ucast (first_data_slot + 1)) m;
          m = volatile_setter slot_last_f (ss_inner (remote_ptr z)) (ucast (first_data_slot + num_slots div 2 - 1)) m;
          m = volatile_setter slot_sync_f (ss_inner (local_ptr z)) (ucast (first_data_slot + num_slots div 2)) m;
          m = volatile_setter slot_first_f (ss_inner (local_ptr z)) (ucast (first_data_slot + num_slots div 2 + 1)) m;
          m = volatile_setter slot_last_f (ss_inner (local_ptr z)) (ucast (first_data_slot + num_slots - 1)) m
      in volatile_setter tx_pos_f (ss_inner (local_ptr z)) 0 m)"

definition raw_init_rest :: "'sem sem_ops \<Rightarrow> u32 list \<Rightarrow> 'sem slot_zero_ptr \<Rightarrow> memory \<Rightarrow> 'sem slot_zero_ptr \<times> memory" where
  "raw_init_rest S queue z m =
     (let m = volatile_setter slot_queue_f (ss_inner (local_ptr z)) queue m;
          dbg = volatile_getter debug_f (ss_inner (local_ptr z)) m;
          dbg = dbg[DebugInfo_ENTRIES := of_nat DebugInfo_MAX];
          m = volatile_setter debug_f (ss_inner (local_ptr z)) dbg m;
          (z, m) = local_mut (trigger_mut (\<lambda>e. raw_event_init e (Some (sem_new S 0)))) z m;
          (z, m) = local_mut (sync_trigger_mut (\<lambda>e. raw_event_init e (Some (sem_new S 0)))) z m;
          (z, m) = local_mut (sync_release_mut (\<lambda>e. raw_event_init e (Some (sem_new S 0)))) z m;
          (z, m) = local_mut (recycle_mut (\<lambda>e. raw_event_init e (Some (sem_new S 0)))) z m;
          m = volatile_setter initialized_f (ss_inner (local_ptr z)) 1 m
      in (z, m))"

definition raw_slot_zero_initialize ::
  "'sem sem_ops \<Rightarrow> 'sem slot_zero_ptr \<Rightarrow> memory \<Rightarrow> (usize, 'sem slot_zero_ptr \<times> memory) result" where
  "raw_slot_zero_initialize S z m =
     (let slot_zero_size' = size_of_SlotZero;
          first_data_slot = (slot_zero_size' + VCHIQ_SLOT_SIZE - 1) div VCHIQ_SLOT_SIZE;
          num_slots = ptr_total_memory z div VCHIQ_SLOT_SIZE - first_data_slot
      in if \<not> 4 \<le> num_slots then Panic ''VCHIQ interface requires at least 4 slots''
         else
          (let m = raw_init_fields slot_zero_size' first_data_slot num_slots z m;
               queue = volatile_getter slot_queue_f (ss_inner (local_ptr z)) m;
               first = volatile_getter slot_first_f (ss_inner (local_ptr z)) m;
               last = volatile_getter slot_last_f (ss_inner (local_ptr z)) m;
               slot_queue_available = last - first + 1
           in case fill_slot_queue 0 slot_queue_available first queue of
                None \<Rightarrow> Panic ''index out of bounds''
              | Some queue \<Rightarrow>
                  (let (z, m) = raw_init_rest S queue z m in Ok num_slots (z, m))))"

section \<open>Events refine their record\<close>

lemma read_event_fields [simp]:
  "armed (read_event m e) = volatile_getter armed_f (event_inner e) m"
  "fired (read_event m e) = volatile_getter fired_f (event_inner e) m"
  "ev_sem (read_event m e) = event_sem e"
  by (simp_all add: read_event_def)

lemma read_event_sem [simp]: "read_event m (e\<lparr>event_sem := s\<rparr>) = (read_event m e)\<lparr>ev_sem := s\<rparr>"
  by (simp add: read_event_def)

lemma raw_event_init_refines:
  assumes "raw_event_init e sem m = (e', m')"
  shows "read_event m' e' = event_init (read_event m e) sem" "event_inner e' = event_inner e"
    "differ_in (event_inner e) 12 m m'"
  using assms event_set_differ(1) [of e m 0]
  by (auto simp: raw_event_init_def event_init_def Let_def read_event_set split: option.splits)

lemma raw_signal_local_refines:
  assumes "raw_signal_local S e m = (e', m')"
  shows "read_event m' e' = signal_local S (read_event m e)" "event_inner e' = event_inner e"
    "differ_in (event_inner e) 12 m m'"
  using assms event_set_differ(1) [of e m 0]
  by (auto simp: raw_signal_local_def signal_local_def Let_def read_event_set split: option.splits)

lemma raw_signal_remote_refines:
  assumes "raw_signal_remote e m b = (m', b')"
  shows "signal_remote (read_event m e) b = (read_event m' e, b')" "differ_in (event_inner e) 12 m m'"
proof -
  have m': "m' = volatile_setter fired_f (event_inner e) 1 m" using assms by (simp add: raw_signal_remote_def Let_def)
  have r: "read_event m' e = (read_event m e)\<lparr>fired := 1\<rparr>" by (simp add: m' read_event_set)
  then have "volatile_getter armed_f (event_inner e) m' = armed (read_event m e)"
    by (metis read_event_fields(1) event_accessor.select_convs(1) event_accessor.surjective event_accessor.update_convs(2))
  with r assms m' show "signal_remote (read_event m e) b = (read_event m' e, b')"
    by (auto simp: signal_remote_def raw_signal_remote_def Let_def)
  show "differ_in (event_inner e) 12 m m'" unfolding m' by (rule event_set_differ)
qed

lemma raw_event_set_fields:
  "volatile_getter fired_f (event_inner e) (volatile_setter armed_f (event_inner e) v m) = volatile_getter fired_f (event_inner e) m"
  by (simp add: event_field_defs cell_simps offsets)

text \<open>What the VideoCore does to the memory while the event is polled, seen through the record.\<close>

lemma raw_event_poll_refines:
  assumes "\<And>m. read_event (vcm m) e = vc (read_event m e)"
  shows "bind_res (raw_event_poll S vcm e m) (\<lambda>p (e', m'). Ok p (read_event m' e')) (\<lambda>_ (e', m'). read_event m' e') =
    event_poll S vc (read_event m e)"
proof -
  have v: "read_event (vcm (volatile_setter armed_f (event_inner e) 1 m)) e = vc ((read_event m e)\<lparr>armed := 1\<rparr>)"
    using assms by (simp add: read_event_set)
  show ?thesis
    unfolding raw_event_poll_def event_poll_def Let_def v [symmetric]
    by (auto simp: read_event_set split: option.splits)
qed

section \<open>Initialization refines its record\<close>

lemma read_shared_state_fields [simp]:
  "ss_initialized (read_shared_state m s) = volatile_getter initialized_f (ss_inner s) m"
  "slot_first (read_shared_state m s) = volatile_getter slot_first_f (ss_inner s) m"
  "slot_last (read_shared_state m s) = volatile_getter slot_last_f (ss_inner s) m"
  "slot_queue (read_shared_state m s) = volatile_getter slot_queue_f (ss_inner s) m"
  "debug (read_shared_state m s) = volatile_getter debug_f (ss_inner s) m"
  "trigger (read_shared_state m s) = read_event m (trigger_ptr s)"
  "recycle (read_shared_state m s) = read_event m (recycle_ptr s)"
  "sync_trigger (read_shared_state m s) = read_event m (sync_trigger_ptr s)"
  "sync_release (read_shared_state m s) = read_event m (sync_release_ptr s)"
  by (simp_all add: read_shared_state_def)


text \<open>An operation on an event that refines one on its record and stays within its bytes.\<close>

definition event_refines ::
  "('sem event_ptr \<Rightarrow> memory \<Rightarrow> 'sem event_ptr \<times> memory) \<Rightarrow> ('sem event_accessor \<Rightarrow> 'sem event_accessor) \<Rightarrow> bool" where
  "event_refines f g \<longleftrightarrow> (\<forall>e m e' m'. f e m = (e', m') \<longrightarrow>
     read_event m' e' = g (read_event m e) \<and> event_inner e' = event_inner e \<and> differ_in (event_inner e) 12 m m')"

definition shared_state_refines ::
  "('sem shared_state_ptr \<Rightarrow> memory \<Rightarrow> 'sem shared_state_ptr \<times> memory) \<Rightarrow> ('sem shared_state \<Rightarrow> 'sem shared_state) \<Rightarrow> bool" where
  "shared_state_refines f g \<longleftrightarrow> (\<forall>p s m s' m'. shared_state_at p s \<longrightarrow> f s m = (s', m') \<longrightarrow>
     read_shared_state m' s' = g (read_shared_state m s) \<and> shared_state_at p s' \<and> differ_in p 372 m m')"

lemma event_refinesD:
  assumes "event_refines f g" "f e m = (e', m')"
  shows "read_event m' e' = g (read_event m e)" "event_inner e' = event_inner e" "differ_in (event_inner e) 12 m m'"
  using assms by (auto simp: event_refines_def)

lemma shared_state_refinesD:
  assumes "shared_state_refines f g" "shared_state_at p s" "f s m = (s', m')"
  shows "read_shared_state m' s' = g (read_shared_state m s)" "shared_state_at p s'" "differ_in p 372 m m'"
  using assms by (auto simp: shared_state_refines_def)

text \<open>
  The contract of an event inside of a shared state: its pointer lies at \<open>off\<close>, replacing the pointer or writing
  the bytes of the event changes this event of the record only.  An operation on the event is then one on the shared state.
\<close>

locale event_part =
  fixes ptr :: "'sem shared_state_ptr \<Rightarrow> 'sem event_ptr"
    and set_ptr :: "'sem event_ptr \<Rightarrow> 'sem shared_state_ptr \<Rightarrow> 'sem shared_state_ptr"
    and ev :: "'sem shared_state \<Rightarrow> 'sem event_accessor"
    and set_ev :: "'sem event_accessor \<Rightarrow> 'sem shared_state \<Rightarrow> 'sem shared_state"
    and off :: nat
  assumes ptr_at: "shared_state_at p s \<Longrightarrow> event_inner (ptr s) = p + off"
    and off_inside: "off + 12 \<le> 372"
    and set_ptr_at: "shared_state_at p s \<Longrightarrow> event_inner e = p + off \<Longrightarrow> shared_state_at p (set_ptr e s)"
    and read_set_ptr: "read_shared_state m (set_ptr e s) = set_ev (read_event m e) (read_shared_state m s)"
    and ev_read: "ev (read_shared_state m s) = read_event m (ptr s)"
    and read_differ: "shared_state_at p s \<Longrightarrow> differ_in (p + off) 12 m m' \<Longrightarrow>
      read_shared_state m' s = set_ev (read_event m' (ptr s)) (read_shared_state m s)"
    and set_ev_set_ev: "set_ev a (set_ev b r) = set_ev a r"
begin

lemma mut_refines:
  assumes "event_refines f g"
  shows "shared_state_refines (\<lambda>s m. let (e, m) = f (ptr s) m in (set_ptr e s, m)) (\<lambda>r. set_ev (g (ev r)) r)"
  unfolding shared_state_refines_def
proof (intro allI impI)
  fix p s m s' m'
  assume s: "shared_state_at p s" and e: "(let (e, m) = f (ptr s) m in (set_ptr e s, m)) = (s', m')"
  obtain e' where e': "f (ptr s) m = (e', m')" "s' = set_ptr e' s" using e by (auto simp: Let_def split: prod.splits)
  note r = event_refinesD [OF assms e'(1)] and a = ptr_at [OF s]
  have d: "differ_in (p + off) 12 m m'" using r(3) a by simp
  have "read_shared_state m' s' = set_ev (g (ev (read_shared_state m s))) (read_shared_state m s)"
    by (simp add: e'(2) read_set_ptr r(1) read_differ [OF s d] set_ev_set_ev ev_read)
  moreover have "shared_state_at p s'" using set_ptr_at [OF s, of e'] r(2) a e'(2) by simp
  moreover have "differ_in p 372 m m'" using off_inside by (intro differ_in_mono [OF d]) simp_all
  ultimately show "read_shared_state m' s' = set_ev (g (ev (read_shared_state m s))) (read_shared_state m s) \<and>
      shared_state_at p s' \<and> differ_in p 372 m m'" by blast
qed

end

lemma event_ptr_at:
  assumes "shared_state_at p s"
  shows "event_inner (trigger_ptr s) = p + 16" "event_inner (recycle_ptr s) = p + 32"
    "event_inner (sync_trigger_ptr s) = p + 48" "event_inner (sync_release_ptr s) = p + 60"
  using assms by (simp_all add: shared_state_at_def)

lemma set_event_ptr_at:
  assumes "shared_state_at p s"
  shows "event_inner e = p + 16 \<Longrightarrow> shared_state_at p (s\<lparr>trigger_ptr := e\<rparr>)"
    and "event_inner e = p + 32 \<Longrightarrow> shared_state_at p (s\<lparr>recycle_ptr := e\<rparr>)"
    and "event_inner e = p + 48 \<Longrightarrow> shared_state_at p (s\<lparr>sync_trigger_ptr := e\<rparr>)"
    and "event_inner e = p + 60 \<Longrightarrow> shared_state_at p (s\<lparr>sync_release_ptr := e\<rparr>)"
  using assms by (simp_all add: shared_state_at_def)

lemma read_set_event_ptr:
  "read_shared_state m (s\<lparr>trigger_ptr := e\<rparr>) = (read_shared_state m s)\<lparr>trigger := read_event m e\<rparr>"
  "read_shared_state m (s\<lparr>recycle_ptr := e\<rparr>) = (read_shared_state m s)\<lparr>recycle := read_event m e\<rparr>"
  "read_shared_state m (s\<lparr>sync_trigger_ptr := e\<rparr>) = (read_shared_state m s)\<lparr>sync_trigger := read_event m e\<rparr>"
  "read_shared_state m (s\<lparr>sync_release_ptr := e\<rparr>) = (read_shared_state m s)\<lparr>sync_release := read_event m e\<rparr>"
  by (simp_all add: read_shared_state_def)

interpretation trigger_part: event_part trigger_ptr "\<lambda>e s. s\<lparr>trigger_ptr := e\<rparr>" trigger "\<lambda>e r. r\<lparr>trigger := e\<rparr>" 16
  by unfold_locales (auto simp: event_ptr_at read_set_event_ptr set_event_ptr_at intro: read_shared_state_event)

interpretation recycle_part: event_part recycle_ptr "\<lambda>e s. s\<lparr>recycle_ptr := e\<rparr>" recycle "\<lambda>e r. r\<lparr>recycle := e\<rparr>" 32
  by unfold_locales (auto simp: event_ptr_at read_set_event_ptr set_event_ptr_at intro: read_shared_state_event)

interpretation sync_trigger_part:
  event_part sync_trigger_ptr "\<lambda>e s. s\<lparr>sync_trigger_ptr := e\<rparr>" sync_trigger "\<lambda>e r. r\<lparr>sync_trigger := e\<rparr>" 48
  by unfold_locales (auto simp: event_ptr_at read_set_event_ptr set_event_ptr_at intro: read_shared_state_event)

interpretation sync_release_part:
  event_part sync_release_ptr "\<lambda>e s. s\<lparr>sync_release_ptr := e\<rparr>" sync_release "\<lambda>e r. r\<lparr>sync_release := e\<rparr>" 60
  by unfold_locales (auto simp: event_ptr_at read_set_event_ptr set_event_ptr_at intro: read_shared_state_event)

lemma event_mut_refines:
  assumes "event_refines f g"
  shows "shared_state_refines (trigger_mut f) (\<lambda>r. r\<lparr>trigger := g (trigger r)\<rparr>)"
    and "shared_state_refines (recycle_mut f) (\<lambda>r. r\<lparr>recycle := g (recycle r)\<rparr>)"
    and "shared_state_refines (sync_trigger_mut f) (\<lambda>r. r\<lparr>sync_trigger := g (sync_trigger r)\<rparr>)"
    and "shared_state_refines (sync_release_mut f) (\<lambda>r. r\<lparr>sync_release := g (sync_release r)\<rparr>)"
  unfolding trigger_mut_def [abs_def] recycle_mut_def [abs_def] sync_trigger_mut_def [abs_def] sync_release_mut_def [abs_def]
  using assms
  by (rule trigger_part.mut_refines recycle_part.mut_refines sync_trigger_part.mut_refines sync_release_part.mut_refines)+

lemma raw_event_init_event_refines: "event_refines (\<lambda>e. raw_event_init e sem) (\<lambda>e. event_init e sem)"
  unfolding event_refines_def using raw_event_init_refines by blast

text \<open>Operating on the local shared state of a slot zero.\<close>

lemma local_mut_refines:
  assumes "shared_state_refines f g" "slot_zero_at p z" "local_mut f z m = (z', m')"
  shows "read_slot_zero m' z' = (read_slot_zero m z)\<lparr>sz_local := g (sz_local (read_slot_zero m z))\<rparr>"
    "slot_zero_at p z'" "differ_in p 1288 m m'"
proof -
  obtain s' where s': "f (local_ptr z) m = (s', m')" "z' = z\<lparr>local_ptr := s'\<rparr>"
    using assms(3) by (auto simp: local_mut_def Let_def split: prod.splits)
  note r = shared_state_refinesD [OF assms(1) slot_zero_atD(4) [OF assms(2)] s'(1)]
  show "slot_zero_at p z'" using assms(2) r(2) s'(2) by (simp add: slot_zero_at_def)
  show "differ_in p 1288 m m'" by (rule differ_in_mono [OF r(3)]) simp_all
  have "read_slot_zero m' z' = (read_slot_zero m' z)\<lparr>sz_local := read_shared_state m' s'\<rparr>"
    by (simp add: s'(2) read_slot_zero_def)
  with read_slot_zero_local [OF assms(2) r(3)] r(1)
  show "read_slot_zero m' z' = (read_slot_zero m z)\<lparr>sz_local := g (sz_local (read_slot_zero m z))\<rparr>" by simp
qed

lemma read_local_set:
  assumes "slot_zero_at p z"
  shows "read_slot_zero (volatile_setter slot_sync_f (ss_inner (local_ptr z)) v m) z =
      (read_slot_zero m z)\<lparr>sz_local := (sz_local (read_slot_zero m z))\<lparr>slot_sync := v\<rparr>\<rparr>"
    and "read_slot_zero (volatile_setter slot_first_f (ss_inner (local_ptr z)) v m) z =
      (read_slot_zero m z)\<lparr>sz_local := (sz_local (read_slot_zero m z))\<lparr>slot_first := v\<rparr>\<rparr>"
    and "read_slot_zero (volatile_setter slot_last_f (ss_inner (local_ptr z)) v m) z =
      (read_slot_zero m z)\<lparr>sz_local := (sz_local (read_slot_zero m z))\<lparr>slot_last := v\<rparr>\<rparr>"
    and "read_slot_zero (volatile_setter tx_pos_f (ss_inner (local_ptr z)) v m) z =
      (read_slot_zero m z)\<lparr>sz_local := (sz_local (read_slot_zero m z))\<lparr>tx_pos := v\<rparr>\<rparr>"
    and "read_slot_zero (volatile_setter initialized_f (ss_inner (local_ptr z)) v m) z =
      (read_slot_zero m z)\<lparr>sz_local := (sz_local (read_slot_zero m z))\<lparr>ss_initialized := v\<rparr>\<rparr>"
    and "length q = 64 \<Longrightarrow> read_slot_zero (volatile_setter slot_queue_f (ss_inner (local_ptr z)) q m) z =
      (read_slot_zero m z)\<lparr>sz_local := (sz_local (read_slot_zero m z))\<lparr>slot_queue := q\<rparr>\<rparr>"
    and "length d = 11 \<Longrightarrow> read_slot_zero (volatile_setter debug_f (ss_inner (local_ptr z)) d m) z =
      (read_slot_zero m z)\<lparr>sz_local := (sz_local (read_slot_zero m z))\<lparr>debug := d\<rparr>\<rparr>"
  by (simp_all add: read_slot_zero_set_local [OF assms] shared_state_set_differ read_shared_state_set [OF slot_zero_atD(4) [OF assms]])

lemma read_remote_set:
  assumes "slot_zero_at p z"
  shows "read_slot_zero (volatile_setter slot_sync_f (ss_inner (remote_ptr z)) v m) z =
      (read_slot_zero m z)\<lparr>sz_remote := (sz_remote (read_slot_zero m z))\<lparr>slot_sync := v\<rparr>\<rparr>"
    and "read_slot_zero (volatile_setter slot_first_f (ss_inner (remote_ptr z)) v m) z =
      (read_slot_zero m z)\<lparr>sz_remote := (sz_remote (read_slot_zero m z))\<lparr>slot_first := v\<rparr>\<rparr>"
    and "read_slot_zero (volatile_setter slot_last_f (ss_inner (remote_ptr z)) v m) z =
      (read_slot_zero m z)\<lparr>sz_remote := (sz_remote (read_slot_zero m z))\<lparr>slot_last := v\<rparr>\<rparr>"
  by (simp_all add: read_slot_zero_set_remote [OF assms] shared_state_set_differ read_shared_state_set [OF slot_zero_atD(5) [OF assms]])

lemma local_getters:
  "volatile_getter slot_queue_f (ss_inner (local_ptr z)) m = slot_queue (sz_local (read_slot_zero m z))"
  "volatile_getter slot_first_f (ss_inner (local_ptr z)) m = slot_first (sz_local (read_slot_zero m z))"
  "volatile_getter slot_last_f (ss_inner (local_ptr z)) m = slot_last (sz_local (read_slot_zero m z))"
  "volatile_getter debug_f (ss_inner (local_ptr z)) m = debug (sz_local (read_slot_zero m z))"
  by simp_all

lemma read_slot_zero_shape: "slot_zero_at p z \<Longrightarrow> slot_zero_shape (read_slot_zero m z)"
proof -
  assume "slot_zero_at p z"
  then have "length (sz_slots (read_slot_zero m z)) = unat VCHIQ_MAX_SLOTS"
    by (simp add: read_slot_zero_def read_slot_infos_def slot_zero_at_def)
  moreover have "shared_state_shape (read_shared_state m s)" for s :: "'a shared_state_ptr"
    by (simp add: shared_state_shape_def slot_queue_f_def debug_f_def u32s_cell.getter_ok)
  moreover have "length (platform_data (read_slot_zero m z)) = 2"
    by (simp add: read_slot_zero_def platform_data_f_def u32s_cell.getter_ok)
  ultimately show ?thesis by (simp add: slot_zero_shape_def)
qed

lemma fill_slot_queue_length: "fill_slot_queue i n first q = Some q' \<Longrightarrow> length q' = length q"
proof (induction i n first q rule: fill_slot_queue.induct)
  case (1 i n first q)
  then show ?case by (auto simp: fill_slot_queue.simps [of i n first q] split: if_splits)
qed

text \<open>The reading of the outcome of an operation over the memory.\<close>

definition read_outcome ::
  "('a, 'sem slot_zero_ptr \<times> memory) result \<Rightarrow> ('a, 'sem slot_zero) result" where
  "read_outcome r = bind_res r (\<lambda>a (z, m). Ok a (read_slot_zero m z)) (\<lambda>_ (z, m). read_slot_zero m z)"

lemma raw_init_events:
  assumes "slot_zero_at p z"
    and "local_mut (trigger_mut (\<lambda>e. raw_event_init e a)) z m = (z1, m1)"
    and "local_mut (sync_trigger_mut (\<lambda>e. raw_event_init e a)) z1 m1 = (z2, m2)"
    and "local_mut (sync_release_mut (\<lambda>e. raw_event_init e a)) z2 m2 = (z3, m3)"
    and "local_mut (recycle_mut (\<lambda>e. raw_event_init e a)) z3 m3 = (z4, m4)"
  shows "read_slot_zero m4 z4 = (let l = sz_local (read_slot_zero m z) in (read_slot_zero m z)\<lparr>sz_local :=
      l\<lparr>trigger := event_init (trigger l) a, sync_trigger := event_init (sync_trigger l) a,
        sync_release := event_init (sync_release l) a, recycle := event_init (recycle l) a\<rparr>\<rparr>)"
    and "slot_zero_at p z4" "differ_in p 1288 m m4"
proof -
  note init = event_mut_refines [OF raw_event_init_event_refines [of a]]
  note r1 = local_mut_refines [OF init(1) assms(1,2)]
  note r2 = local_mut_refines [OF init(3) r1(2) assms(3)]
  note r3 = local_mut_refines [OF init(4) r2(2) assms(4)]
  note r4 = local_mut_refines [OF init(2) r3(2) assms(5)]
  show "read_slot_zero m4 z4 = (let l = sz_local (read_slot_zero m z) in (read_slot_zero m z)\<lparr>sz_local :=
      l\<lparr>trigger := event_init (trigger l) a, sync_trigger := event_init (sync_trigger l) a,
        sync_release := event_init (sync_release l) a, recycle := event_init (recycle l) a\<rparr>\<rparr>)"
    unfolding Let_def r4(1) r3(1) r2(1) r1(1) by (simp del: sz_local_read read_shared_state_fields)
  show "slot_zero_at p z4" by (rule r4(2))
  show "differ_in p 1288 m m4" using r1(3) r2(3) r3(3) r4(3) differ_in_trans by blast
qed

lemma differ_in_step: "differ_in a n m' m'' \<Longrightarrow> differ_in a n m m' \<Longrightarrow> differ_in a n m m''"
  by (rule differ_in_trans)

lemma slot_zero_inside:
  assumes "slot_zero_at p z"
  shows "differ_in (sz_inner z) 32 m m' \<Longrightarrow> differ_in p 1288 m m'"
    and "differ_in (ss_inner (remote_ptr z)) 372 m m' \<Longrightarrow> differ_in p 1288 m m'"
    and "differ_in (ss_inner (local_ptr z)) 372 m m' \<Longrightarrow> differ_in p 1288 m m'"
  using slot_zero_atD [OF assms] by (auto elim!: differ_in_mono)

text \<open>A write to a field adds to the changes inside of the slot zero.\<close>

lemma slot_zero_step:
  assumes "slot_zero_at p z"
  shows "differ_in p 1288 m m' \<Longrightarrow> differ_in p 1288 m (volatile_setter magic_f (sz_inner z) v m')"
    and "differ_in p 1288 m m' \<Longrightarrow> differ_in p 1288 m (volatile_setter version_f (sz_inner z) u m')"
    and "differ_in p 1288 m m' \<Longrightarrow> differ_in p 1288 m (volatile_setter version_min_f (sz_inner z) u m')"
    and "differ_in p 1288 m m' \<Longrightarrow> differ_in p 1288 m (volatile_setter slot_zero_size_f (sz_inner z) v m')"
    and "differ_in p 1288 m m' \<Longrightarrow> differ_in p 1288 m (volatile_setter slot_size_f (sz_inner z) v m')"
    and "differ_in p 1288 m m' \<Longrightarrow> differ_in p 1288 m (volatile_setter max_slots_f (sz_inner z) v m')"
    and "differ_in p 1288 m m' \<Longrightarrow> differ_in p 1288 m (volatile_setter max_slots_per_side_f (sz_inner z) v m')"
    and "differ_in p 1288 m m' \<Longrightarrow> s = local_ptr z \<or> s = remote_ptr z \<Longrightarrow>
      differ_in p 1288 m (volatile_setter slot_sync_f (ss_inner s) v m')"
    and "differ_in p 1288 m m' \<Longrightarrow> s = local_ptr z \<or> s = remote_ptr z \<Longrightarrow>
      differ_in p 1288 m (volatile_setter slot_first_f (ss_inner s) v m')"
    and "differ_in p 1288 m m' \<Longrightarrow> s = local_ptr z \<or> s = remote_ptr z \<Longrightarrow>
      differ_in p 1288 m (volatile_setter slot_last_f (ss_inner s) v m')"
    and "differ_in p 1288 m m' \<Longrightarrow> differ_in p 1288 m (volatile_setter tx_pos_f (ss_inner (local_ptr z)) v m')"
    and "differ_in p 1288 m m' \<Longrightarrow> differ_in p 1288 m (volatile_setter initialized_f (ss_inner (local_ptr z)) v m')"
    and "differ_in p 1288 m m' \<Longrightarrow> length q = 64 \<Longrightarrow>
      differ_in p 1288 m (volatile_setter slot_queue_f (ss_inner (local_ptr z)) q m')"
    and "differ_in p 1288 m m' \<Longrightarrow> length d = 11 \<Longrightarrow>
      differ_in p 1288 m (volatile_setter debug_f (ss_inner (local_ptr z)) d m')"
  by (auto intro: slot_zero_set_differ [THEN slot_zero_inside(1) [OF assms], THEN differ_in_step]
      shared_state_set_differ [THEN slot_zero_inside(2) [OF assms], THEN differ_in_step]
      shared_state_set_differ [THEN slot_zero_inside(3) [OF assms], THEN differ_in_step])

lemma raw_init_fields_eq:
  assumes "slot_zero_at p z"
  shows "read_slot_zero (raw_init_fields sz fd n z m) z = (read_slot_zero m z)\<lparr>
      magic := shared_four_cc_from 0x56 0x43 0x48 0x49, sz_version := 8, sz_version_min := 3,
      slot_zero_size := ucast sz, slot_size := ucast VCHIQ_SLOT_SIZE, max_slots := ucast VCHIQ_MAX_SLOTS,
      max_slots_per_side := ucast VCHIQ_MAX_SLOTS_PER_SIDE,
      sz_remote := (sz_remote (read_slot_zero m z))\<lparr>slot_sync := ucast fd, slot_first := ucast (fd + 1),
        slot_last := ucast (fd + n div 2 - 1)\<rparr>,
      sz_local := (sz_local (read_slot_zero m z))\<lparr>slot_sync := ucast (fd + n div 2),
        slot_first := ucast (fd + n div 2 + 1), slot_last := ucast (fd + n - 1), tx_pos := 0\<rparr>\<rparr>"
    and "differ_in p 1288 m (raw_init_fields sz fd n z m)"
proof -
  show "read_slot_zero (raw_init_fields sz fd n z m) z = (read_slot_zero m z)\<lparr>
      magic := shared_four_cc_from 0x56 0x43 0x48 0x49, sz_version := 8, sz_version_min := 3,
      slot_zero_size := ucast sz, slot_size := ucast VCHIQ_SLOT_SIZE, max_slots := ucast VCHIQ_MAX_SLOTS,
      max_slots_per_side := ucast VCHIQ_MAX_SLOTS_PER_SIDE,
      sz_remote := (sz_remote (read_slot_zero m z))\<lparr>slot_sync := ucast fd, slot_first := ucast (fd + 1),
        slot_last := ucast (fd + n div 2 - 1)\<rparr>,
      sz_local := (sz_local (read_slot_zero m z))\<lparr>slot_sync := ucast (fd + n div 2),
        slot_first := ucast (fd + n div 2 + 1), slot_last := ucast (fd + n - 1), tx_pos := 0\<rparr>\<rparr>"
    unfolding raw_init_fields_def Let_def read_local_set [OF assms] read_remote_set [OF assms] read_slot_zero_set [OF assms]
    by (simp del: sz_local_read sz_remote_read)
  show "differ_in p 1288 m (raw_init_fields sz fd n z m)"
    unfolding raw_init_fields_def Let_def
    by (intro slot_zero_step [OF assms] differ_in_refl) simp_all
qed

lemma raw_init_rest_eq:
  assumes z: "slot_zero_at p z" and q: "length q = 64" and e: "raw_init_rest S q z m = (z', m')"
    and a: "a = Some (sem_new S 0)"
  shows "slot_zero_at p z'" "differ_in p 1288 m m'"
    "read_slot_zero m' z' = (let l = sz_local (read_slot_zero m z) in (read_slot_zero m z)\<lparr>sz_local :=
      l\<lparr>slot_queue := q, debug := (debug l)[DebugInfo_ENTRIES := of_nat DebugInfo_MAX],
        trigger := event_init (trigger l) a, sync_trigger := event_init (sync_trigger l) a,
        sync_release := event_init (sync_release l) a, recycle := event_init (recycle l) a, ss_initialized := 1\<rparr>\<rparr>)"
proof -
  define m1 where "m1 = volatile_setter slot_queue_f (ss_inner (local_ptr z)) q m"
  define dbg where "dbg = (volatile_getter debug_f (ss_inner (local_ptr z)) m1)[DebugInfo_ENTRIES := of_nat DebugInfo_MAX]"
  define m2 where "m2 = volatile_setter debug_f (ss_inner (local_ptr z)) dbg m1"
  have d: "length dbg = 11" by (simp add: dbg_def debug_f_def u32s_cell.getter_ok DebugInfo_MAX_def)
  note r1 = read_local_set(6) [OF z q, of m, folded m1_def] and r2 = read_local_set(7) [OF z d, of m1, folded m2_def]
  have s: "differ_in p 1288 m m2" unfolding m2_def m1_def using z q d by (intro slot_zero_step) simp_all
  obtain z3 m3 where 3: "local_mut (trigger_mut (\<lambda>e. raw_event_init e a)) z m2 = (z3, m3)" by fastforce
  obtain z4 m4 where 4: "local_mut (sync_trigger_mut (\<lambda>e. raw_event_init e a)) z3 m3 = (z4, m4)" by fastforce
  obtain z5 m5 where 5: "local_mut (sync_release_mut (\<lambda>e. raw_event_init e a)) z4 m4 = (z5, m5)" by fastforce
  obtain z6 m6 where 6: "local_mut (recycle_mut (\<lambda>e. raw_event_init e a)) z5 m5 = (z6, m6)" by fastforce
  note r3 = raw_init_events [OF z 3 4 5 6]
  have res: "z' = z6" "m' = volatile_setter initialized_f (ss_inner (local_ptr z6)) 1 m6"
    using e unfolding raw_init_rest_def Let_def a [symmetric] m1_def [symmetric] dbg_def [symmetric] m2_def [symmetric]
    by (auto simp: 3 4 5 6)
  show "slot_zero_at p z'" using r3(2) res(1) by simp
  show "differ_in p 1288 m m'"
    unfolding res using differ_in_trans [OF s r3(3)] by (rule slot_zero_step(12) [OF r3(2)])
  have "dbg = (debug (sz_local (read_slot_zero m z)))[DebugInfo_ENTRIES := of_nat DebugInfo_MAX]"
    unfolding dbg_def local_getters r1 by simp
  then show "read_slot_zero m' z' = (let l = sz_local (read_slot_zero m z) in (read_slot_zero m z)\<lparr>sz_local :=
      l\<lparr>slot_queue := q, debug := (debug l)[DebugInfo_ENTRIES := of_nat DebugInfo_MAX],
        trigger := event_init (trigger l) a, sync_trigger := event_init (sync_trigger l) a,
        sync_release := event_init (sync_release l) a, recycle := event_init (recycle l) a, ss_initialized := 1\<rparr>\<rparr>)"
    unfolding res read_local_set(5) [OF r3(2)]
    by (simp add: r3(1) r2 r1 Let_def del: sz_local_read read_shared_state_fields)
qed

lemma raw_initialize_outcome:
  assumes z: "slot_zero_at p z"
  shows "read_outcome (raw_slot_zero_initialize S z m) = slot_zero_initialize S (read_slot_zero m z)"
    and "raw_slot_zero_initialize S z m = Ok n (z', m') \<Longrightarrow> slot_zero_at p z' \<and> differ_in p 1288 m m'"
proof -
  let ?fd = "(size_of_SlotZero + VCHIQ_SLOT_SIZE - 1) div VCHIQ_SLOT_SIZE"
  let ?n = "ptr_total_memory z div VCHIQ_SLOT_SIZE - ?fd"
  define m1 where "m1 = raw_init_fields size_of_SlotZero ?fd ?n z m"
  note r1 = raw_init_fields_eq [OF z, where sz = size_of_SlotZero and fd = ?fd and n = ?n and m = m, folded m1_def]
  let ?l = "sz_local (read_slot_zero m1 z)"
  define fill where "fill = fill_slot_queue 0 (slot_last ?l - slot_first ?l + 1) (slot_first ?l) (slot_queue ?l)"
  have len: "length q = 64" if "fill = Some q" for q
    using fill_slot_queue_length [OF that [unfolded fill_def]]
    by (simp add: slot_queue_f_def u32s_cell.getter_ok offsets)
  have raw: "raw_slot_zero_initialize S z m =
      (if \<not> 4 \<le> ?n then Panic ''VCHIQ interface requires at least 4 slots''
       else (case fill of None \<Rightarrow> Panic ''index out of bounds''
             | Some q \<Rightarrow> (let (z, m) = raw_init_rest S q z m1 in Ok ?n (z, m))))"
    unfolding raw_slot_zero_initialize_def Let_def fill_def local_getters m1_def by (rule refl)
  show "read_outcome (raw_slot_zero_initialize S z m) = slot_zero_initialize S (read_slot_zero m z)"
  proof (cases "4 \<le> ?n")
    case False
    then show ?thesis by (simp add: raw read_outcome_def slot_zero_initialize_def)
  next
    case True
    show ?thesis
    proof (cases fill)
      case None
      then show ?thesis
        using True unfolding fill_def r1(1)
        by (simp add: raw fill_def r1(1) read_outcome_def slot_zero_initialize_def Let_def)
    next
      case (Some q)
      obtain z2 m2 where rest: "raw_init_rest S q z m1 = (z2, m2)" by fastforce
      have "read_outcome (raw_slot_zero_initialize S z m) = Ok ?n (read_slot_zero m2 z2)"
        using True Some rest by (simp add: raw read_outcome_def)
      also have "\<dots> = slot_zero_initialize S (read_slot_zero m z)"
        using True Some [unfolded fill_def r1(1)]
        by (simp add: raw_init_rest_eq(3) [OF z len [OF Some] rest refl] r1(1) slot_zero_initialize_def Let_def
            del: sz_local_read sz_remote_read read_shared_state_fields)
      finally show ?thesis .
    qed
  qed
  show "raw_slot_zero_initialize S z m = Ok n (z', m') \<Longrightarrow> slot_zero_at p z' \<and> differ_in p 1288 m m'"
    unfolding raw using raw_init_rest_eq(1,2) [OF z len _ refl] differ_in_trans [OF r1(2)]
    by (auto split: if_splits option.splits prod.splits)
qed

text \<open>Creating the accessors over a memory and reading it through them: \<^verbatim>\<open>SlotZeroAccessor::new\<close> on the record.\<close>

lemma read_shared_state_new:
  assumes "shared_state_at p s"
  shows "shared_state_accessor_new (read_shared_state m s) = read_shared_state m (shared_state_ptr_new p)"
  using assms
  by (simp add: shared_state_accessor_new_def shared_state_ptr_new_def event_ptr_new_def read_shared_state_def read_event_def
      shared_state_at_def shared_state_offsets)

lemma read_slot_zero_new:
  assumes "slot_zero_at p z"
  shows "slot_zero_accessor_new (read_slot_zero m z) n = read_slot_zero m (slot_zero_ptr_new p n)"
  using read_shared_state_new [OF slot_zero_atD(4) [OF assms], of m] read_shared_state_new [OF slot_zero_atD(5) [OF assms], of m]
    assms
  by (simp add: slot_zero_accessor_new_def slot_zero_ptr_new_def read_slot_zero_def slot_zero_offsets slot_info_ptr_new_def
      slot_zero_at_def)

section \<open>Properties\<close>

text \<open>
  C11: Initializing the slot zero field by field in the shared memory is the initialization of its record, in every outcome,
  and writes only to the 1288 bytes of the slot zero.
\<close>

theorem raw_initialize_refines:
  assumes "slot_zero_at p z"
  shows "read_outcome (raw_slot_zero_initialize S z m) = slot_zero_initialize S (read_slot_zero m z) \<and>
    (\<forall>n z' m'. raw_slot_zero_initialize S z m = Ok n (z', m') \<longrightarrow> slot_zero_at p z' \<and> differ_in p 1288 m m')"
  using raw_initialize_outcome [OF assms] by blast

definition demo_ptr :: "nat slot_zero_ptr" where
  "demo_ptr = slot_zero_ptr_new 0 0x41000"

lemma demo_ptr_at: "slot_zero_at 0 demo_ptr"
  unfolding demo_ptr_def by (rule slot_zero_ptr_new_at)

lemma demo_initialize:
  obtains z m where "raw_slot_zero_initialize counter_sem demo_ptr (\<lambda>_. 0) = Ok 64 (z, m)"
proof -
  have t: "ptr_total_memory demo_ptr = 0x41000" by (simp add: demo_ptr_def slot_zero_ptr_new_def)
  have s: "shared_state_shape (sz_local (read_slot_zero (\<lambda>_. 0) demo_ptr))"
    using read_slot_zero_shape [OF demo_ptr_at] by (simp only: slot_zero_shape_def)
  have u: "unat (0x41000 :: usize) = 266240" by simp
  have "4096 * 5 \<le> unat (total_memory (read_slot_zero (\<lambda>_. 0) demo_ptr))"
    "unat (total_memory (read_slot_zero (\<lambda>_. 0) demo_ptr)) < 4096 * 130"
    "64 = unat (total_memory (read_slot_zero (\<lambda>_. 0) demo_ptr)) div 4096 - 1"
    unfolding total_memory_read t u by simp_all
  from initialize_ok [OF this(1,2) s this(3), of counter_sem]
  have "\<exists>x. slot_zero_initialize counter_sem (read_slot_zero (\<lambda>_. 0) demo_ptr) = Ok 64 x"
    by (elim exE conjE) (simp only: of_nat_numeral, blast)
  then have "\<exists>x. read_outcome (raw_slot_zero_initialize counter_sem demo_ptr (\<lambda>_. 0)) = Ok 64 x"
    by (simp add: raw_initialize_outcome [OF demo_ptr_at])
  then show thesis using that by (auto simp: read_outcome_def outcome)
qed

theorem raw_initialize_refines_witness:
  "\<exists>z m. raw_slot_zero_initialize counter_sem demo_ptr (\<lambda>_. 0) = Ok 64 (z, m) \<and>
    slot_zero_initialize counter_sem (read_slot_zero (\<lambda>_. 0) demo_ptr) = Ok 64 (read_slot_zero m z) \<and>
    differ_in 0 1288 (\<lambda>_. 0) m"
proof -
  obtain z m where i: "raw_slot_zero_initialize counter_sem demo_ptr (\<lambda>_. 0) = Ok 64 (z, m)" by (rule demo_initialize)
  with raw_initialize_refines [OF demo_ptr_at, of counter_sem "\<lambda>_. 0"] show ?thesis
    by (auto simp: read_outcome_def)
qed

lemma initialize_header:
  assumes "slot_zero_initialize S z0 = Ok n z"
  shows "magic z = shared_four_cc_from 0x56 0x43 0x48 0x49" "sz_version z = 8" "sz_version_min z = 3"
    "slot_zero_size z = 1288" "slot_size z = 4096" "max_slots z = 128" "max_slots_per_side z = 64"
    "tx_pos (sz_local z) = 0" "ss_initialized (sz_local z) = 1" "ss_initialized (sz_remote z) = ss_initialized (sz_remote z0)"
  using assms
  by (auto simp: slot_zero_initialize_def Let_def size_of_SlotZero_val config_defs split: if_splits option.splits)

lemma load_u32_field: "load_bytes m (p + c_offset fs i) 4 = bytes_of_u32 (volatile_getter (u32_field fs i) p m)"
  using u32_cell.load_getter [of m p fs i] by (simp add: u32_field_def)

lemma load_u16_field: "load_bytes m (p + c_offset fs i) 2 = bytes_of_u16 (volatile_getter (u16_field fs i) p m)"
  using u16_cell.load_getter [of m p fs i] by (simp add: u16_field_def)

text \<open>
  C24: What the VideoCore finds in the memory once the slot zero is initialized, byte by byte: the magic, the versions and
  the sizes at the start, the transmit position of the ARM side at zero and its flag set; the flag of the VideoCore is
  left as it was.
\<close>

theorem initialized_image:
  assumes "slot_zero_at p z" "raw_slot_zero_initialize S z m = Ok n (z', m')"
  shows "load_bytes m' p 24 = [0x49, 0x48, 0x43, 0x56] @ [8, 0] @ [3, 0] @ [0x08, 0x05, 0, 0] @ [0, 0x10, 0, 0] @
      [0x80, 0, 0, 0] @ [0x40, 0, 0, 0] \<and>
    load_bytes m' (p + 432) 4 = [0, 0, 0, 0] \<and> load_bytes m' (p + 404) 4 = [1, 0, 0, 0] \<and>
    load_bytes m' (p + 32) 4 = load_bytes m (p + 32) 4"
proof -
  have at: "slot_zero_at p z'" using raw_initialize_outcome(2) [OF assms] by simp
  have "slot_zero_initialize S (read_slot_zero m z) = Ok n (read_slot_zero m' z')"
    using raw_initialize_outcome(1) [OF assms(1), of S m] assms(2) by (simp add: read_outcome_def)
  note h = initialize_header [OF this, unfolded read_slot_zero_def read_shared_state_def slot_zero.simps shared_state.simps
      slot_zero_atD(1-3) [OF at] slot_zero_atD(1-3) [OF assms(1)] slot_zero_field_defs shared_state_field_defs]
  note l = load_u32_field [of m' p slot_zero_fields] load_u16_field [of m' p slot_zero_fields]
  have "load_bytes m' p 24 = load_bytes m' p (4 + 2 + 2 + 4 + 4 + 4 + 4)" by simp
  also have "\<dots> = bytes_of_u32 (shared_four_cc_from 0x56 0x43 0x48 0x49) @ bytes_of_u16 8 @ bytes_of_u16 3 @
      bytes_of_u32 1288 @ bytes_of_u32 4096 @ bytes_of_u32 128 @ bytes_of_u32 64"
    using l(1) [of 0] l(2) [of 1] l(2) [of 2] l(1) [of 3] l(1) [of 4] l(1) [of 5] l(1) [of 6]
    unfolding load_bytes_append h slot_zero_offsets by (simp add: add.assoc)
  also have "\<dots> = [0x49, 0x48, 0x43, 0x56] @ [8, 0] @ [3, 0] @ [0x08, 0x05, 0, 0] @ [0, 0x10, 0, 0] @
      [0x80, 0, 0, 0] @ [0x40, 0, 0, 0]"
    by code_simp
  finally have "load_bytes m' p 24 = [0x49, 0x48, 0x43, 0x56] @ [8, 0] @ [3, 0] @ [0x08, 0x05, 0, 0] @ [0, 0x10, 0, 0] @
      [0x80, 0, 0, 0] @ [0x40, 0, 0, 0]" .
  moreover have "load_bytes m' (p + 432) 4 = [0, 0, 0, 0]" "load_bytes m' (p + 404) 4 = [1, 0, 0, 0]"
      "load_bytes m' (p + 32) 4 = load_bytes m (p + 32) 4"
    using load_u32_field [of m' "p + 404" shared_state_fields 5] load_u32_field [of m' "p + 404" shared_state_fields 0]
      load_u32_field [of m' "p + 32" shared_state_fields 0] load_u32_field [of m "p + 32" shared_state_fields 0]
    unfolding h shared_state_offsets by (simp_all add: bytes_of_u32_def add.commute)
  ultimately show ?thesis by blast
qed

theorem initialized_image_witness:
  "\<exists>z m. raw_slot_zero_initialize counter_sem demo_ptr (\<lambda>_. 0) = Ok 64 (z, m) \<and> load_bytes m 404 4 = [1, 0, 0, 0]"
proof -
  obtain z m where i: "raw_slot_zero_initialize counter_sem demo_ptr (\<lambda>_. 0) = Ok 64 (z, m)" by (rule demo_initialize)
  with initialized_image [OF demo_ptr_at i] show ?thesis by auto
qed

lemma data_slot_addr:
  assumes "0 < pos_index q"
  shows "4096 \<le> slot_addr q"
proof -
  have "1 \<le> unat (pos_index q)" using assms by (simp add: word_less_nat_alt)
  then have "1 * 4096 \<le> unat (pos_index q) * 4096" by (rule mult_le_mono1)
  with slot_addr_bounds(1) [of q] show ?thesis by simp
qed

lemma store_message_apart:
  assumes "slot_zero_at 0 z" "store_message A n q f c = Ok () (A', c')"
  shows "read_slot_zero (mem A') z = read_slot_zero (mem A) z"
proof -
  obtain bs where bs: "mem A' = store_bytes (mem A) (slot_addr q) bs" and i: "0 < pos_index q"
    using assms(2) by (auto simp: store_message_def outcome split: if_splits)
  have "differ_in 4096 (slot_addr q + length bs) (mem A) (mem A')"
    using data_slot_addr [OF i] by (auto simp: differ_in_def bs store_bytes_outside)
  then show ?thesis by (rule read_slot_zero_differ [OF assms(1)]) simp
qed

lemma read_message_apart:
  assumes "differ_in 0 1288 (mem A) m'"
  shows "read_message (A\<lparr>mem := m'\<rparr>) q = read_message A q"
proof (cases "0 < pos_index q")
  case True
  then have "load_bytes m' b k = load_bytes (mem A) b k" if "slot_addr q \<le> b" for b k
    using data_slot_addr that by (intro load_differ [OF assms]) fastforce
  then show ?thesis by (simp add: read_message_def load_message_def in_memory_def Let_def)
qed (simp add: read_message_def)

text \<open>
  C23: The slot zero and the messages share one memory, but not a byte of it: storing a message, wherever the accessor
  accepts it, leaves the slot zero as it was, and writing to the slot zero changes no message that can be read.
\<close>

theorem slot_zero_and_messages_apart:
  assumes "slot_zero_at 0 z"
  shows "(store_message A n q f c = Ok () (A', c') \<longrightarrow> read_slot_zero (mem A') z = read_slot_zero (mem A) z) \<and>
    (differ_in 0 1288 (mem A) m' \<longrightarrow> read_message (A\<lparr>mem := m'\<rparr>) q = read_message A q)"
  by (intro conjI impI; rule store_message_apart [OF assms] read_message_apart; assumption)

theorem slot_zero_and_messages_apart_witness:
  "\<exists>A'. store_message zero_slots 2 (SlotPosition 2 8) (\<lambda>_ c. Ok \<lparr>header = \<lparr>msgid = 7, msg_size = 2\<rparr>, msg_data = [1, 2]\<rparr> c) ()
      = Ok () (A', ()) \<and> read_slot_zero (mem A') demo_ptr = read_slot_zero (mem zero_slots) demo_ptr \<and>
    read_message (zero_slots\<lparr>mem := volatile_setter magic_f 0 5 (mem zero_slots)\<rparr>) (SlotPosition 2 8) =
      read_message zero_slots (SlotPosition 2 8)"
proof -
  let ?f = "\<lambda>(_ :: slot_message) (c :: unit). Ok \<lparr>header = \<lparr>msgid = 7, msg_size = 2\<rparr>, msg_data = [1, 2]\<rparr> c"
  obtain A' where s: "store_message zero_slots 2 (SlotPosition 2 8) ?f () = Ok () (A', ())"
    by (simp add: store_message_def zero_slots_def slot_addr_def slot_consts in_memory_def)
  have d: "differ_in 0 1288 (mem zero_slots) (volatile_setter magic_f 0 5 (mem zero_slots))"
    unfolding magic_f_def by (rule u32_cell.setter_differ) (simp_all add: offsets)
  show ?thesis
    using slot_zero_and_messages_apart [OF demo_ptr_at, of zero_slots 2 "SlotPosition 2 8" ?f "()" A' "()"
        "volatile_setter magic_f 0 5 (mem zero_slots)"] s d by blast
qed

text \<open>
  Every setter of the accessor of a shared state is the update of its field in the record and writes no byte outside
  of the shared state; in particular it is read back by its getter, and the other fields and the events keep their values.
\<close>

theorem shared_state_setters:
  assumes "shared_state_at p s" "length q = unat VCHIQ_MAX_SLOTS_PER_SIDE" "length d = DebugInfo_MAX"
  shows "read_shared_state (volatile_setter initialized_f p v m) s = (read_shared_state m s)\<lparr>ss_initialized := v\<rparr> \<and>
    read_shared_state (volatile_setter slot_first_f p v m) s = (read_shared_state m s)\<lparr>slot_first := v\<rparr> \<and>
    read_shared_state (volatile_setter slot_last_f p v m) s = (read_shared_state m s)\<lparr>slot_last := v\<rparr> \<and>
    read_shared_state (volatile_setter slot_sync_f p v m) s = (read_shared_state m s)\<lparr>slot_sync := v\<rparr> \<and>
    read_shared_state (volatile_setter tx_pos_f p v m) s = (read_shared_state m s)\<lparr>tx_pos := v\<rparr> \<and>
    read_shared_state (volatile_setter slot_queue_recycle_f p v m) s = (read_shared_state m s)\<lparr>slot_queue_recycle := v\<rparr> \<and>
    read_shared_state (volatile_setter slot_queue_f p q m) s = (read_shared_state m s)\<lparr>slot_queue := q\<rparr> \<and>
    read_shared_state (volatile_setter debug_f p d m) s = (read_shared_state m s)\<lparr>debug := d\<rparr> \<and>
    differ_in p 372 m (volatile_setter tx_pos_f p v (volatile_setter slot_queue_f p q (volatile_setter debug_f p d m)))"
proof -
  have p: "ss_inner s = p" using assms(1) by (simp add: shared_state_at_def)
  have l: "length q = 64" "length d = 11" using assms(2,3) by (simp_all add: array_lengths)
  note set = read_shared_state_set [OF assms(1), unfolded p] and diff = shared_state_set_differ [where s = s, unfolded p]
  have "differ_in p 372 m (volatile_setter tx_pos_f p v (volatile_setter slot_queue_f p q (volatile_setter debug_f p d m)))"
    using l by (intro differ_in_step [OF diff(5)] differ_in_step [OF diff(7)] diff(8))
  with set(1-6) set(7) [OF l(1)] set(8) [OF l(2)] show ?thesis by blast
qed

theorem shared_state_setters_witness:
  "read_shared_state (volatile_setter tx_pos_f 404 8 (\<lambda>_. 0)) (shared_state_ptr_new 404 :: nat shared_state_ptr) =
    (read_shared_state (\<lambda>_. 0) (shared_state_ptr_new 404))\<lparr>tx_pos := 8\<rparr>"
proof -
  have "shared_state_at 404 (shared_state_ptr_new 404 :: nat shared_state_ptr)"
    by (simp add: shared_state_at_def shared_state_ptr_new_def event_ptr_new_def shared_state_offsets)
  from shared_state_setters [OF this, of "replicate 64 0" "replicate 11 0" 8 "\<lambda>_. 0"] show ?thesis
    by (simp add: array_lengths)
qed

text \<open>
  The operations on an event in the shared memory are those on its record: signalling the VideoCore, signalling locally,
  and polling, where the VideoCore may fire the event while it is polled.
\<close>

theorem event_operations_refine:
  assumes "\<And>m. read_event (vcm m) e = vc (read_event m e)"
  shows "signal_remote (read_event m e) b = (read_event (fst (raw_signal_remote e m b)) e, snd (raw_signal_remote e m b)) \<and>
    (case raw_signal_local S e m of (e', m') \<Rightarrow> read_event m' e') = signal_local S (read_event m e) \<and>
    bind_res (raw_event_wait S vcm e m) (\<lambda>p (e', m'). Ok p (read_event m' e')) (\<lambda>_ (e', m'). read_event m' e') =
      event_wait S vc (read_event m e) \<and>
    differ_in (event_inner e) 12 m (fst (raw_signal_remote e m b)) \<and> differ_in (event_inner e) 12 m (snd (raw_signal_local S e m))"
proof -
  have w: "event_wait S vc (read_event m e) = event_poll S vc (read_event (volatile_setter armed_f (event_inner e) 1 m) e)"
    by (simp add: event_wait_def read_event_set)
  obtain m1 b1 e2 m2 where r: "raw_signal_remote e m b = (m1, b1)" "raw_signal_local S e m = (e2, m2)" by fastforce
  show ?thesis
    using raw_signal_remote_refines [OF r(1)] raw_signal_local_refines [OF r(2)] raw_event_poll_refines [where vcm = vcm and vc = vc and e = e, OF assms]
    by (simp add: r raw_event_wait_def w)
qed

text \<open>The VideoCore fires the event at address 48 while it is polled.\<close>

theorem event_operations_refine_witness:
  "bind_res (raw_event_wait counter_sem (volatile_setter fired_f 48 1) (event_ptr_new 48) (\<lambda>_. 0))
     (\<lambda>p (e', m'). Ok p (read_event m' e')) (\<lambda>_ (e', m'). read_event m' e') =
   event_wait counter_sem (\<lambda>e. e\<lparr>fired := 1\<rparr>) (read_event (\<lambda>_. 0) (event_ptr_new 48))"
proof -
  let ?e = "event_ptr_new 48 :: nat event_ptr"
  have "read_event (volatile_setter fired_f 48 1 m) ?e = (read_event m ?e)\<lparr>fired := 1\<rparr>" for m
    using read_event_set(2) [of ?e 1 m] by (simp add: event_ptr_new_def)
  from event_operations_refine [where vcm = "volatile_setter fired_f 48 1" and e = ?e and vc = "\<lambda>e. e\<lparr>fired := 1\<rparr>", OF this, of "\<lambda>_. 0" "[]" counter_sem]
  show ?thesis by blast
qed

end
