(* ===== verification/Shared_Transmit.thy ===== *)
theory Shared_Transmit
  imports Shared_Access Transmit
begin

text \<open>
  Sending over the shared memory.  The driver and the VideoCore see one memory; \<open>queue_message\<close> changes it in single
  volatile writes, and the VideoCore may look at it after every one of them.  This theory has the operations of
  \<open>Queueing\<close> over that memory, with the list of the memories that they leave behind.  They are shown to refine the
  operations on records, and the order of their writes never shows the VideoCore a message that is not complete.
\<close>

section \<open>State and memory\<close>

text \<open>
  The fields of \<^verbatim>\<open>State\<close> outside of the shared memory, the accessor of the slot zero, the memory, and what it has been
  after each write.  The slot zero and the bytes of the slots inside of \<open>w_state\<close> are not used.
\<close>

record 'sem wire =
  w_state :: "'sem state"
  w_zero :: "'sem slot_zero_ptr"
  w_mem :: memory
  w_trace :: "memory list"

definition raw_write :: "memory \<Rightarrow> 'sem wire \<Rightarrow> 'sem wire" where
  "raw_write m w = w\<lparr>w_mem := m, w_trace := w_trace w @ [m]\<rparr>"

definition wire_slots :: "'sem wire \<Rightarrow> slot_accessor" where
  "wire_slots w = (slot_data (slot_state (w_state w)))\<lparr>mem := w_mem w\<rparr>"

section \<open>Operations\<close>

definition raw_store ::
  "nat \<Rightarrow> slot_position \<Rightarrow> (slot_message \<Rightarrow> 'c \<Rightarrow> (slot_message, 'c) result) \<Rightarrow> 'c \<Rightarrow> 'sem wire \<Rightarrow> (unit, 'sem wire \<times> 'c) result" where
  "raw_store n p f c w =
     bind_res (store_message (wire_slots w) n p f c) (\<lambda>_ (A, c). Ok () (raw_write (mem A) w, c)) (\<lambda>_ (A, c). (w, c))"

definition raw_reserve_padding :: "usize \<Rightarrow> 'sem wire \<Rightarrow> (usize, 'sem wire) result" where
  "raw_reserve_padding space_needed w =
     (let ss = slot_state (w_state w);
          tx = local_tx_pos ss;
          slot_space = VCHIQ_SLOT_SIZE - (tx AND VCHIQ_SLOT_MASK)
      in if space_needed > slot_space then
           (case tx_data ss of
              None \<Rightarrow> Panic ''no slot available to be used''
            | Some slot_pos \<Rightarrow>
                bind_res (raw_store 0 slot_pos (\<lambda>m c. Ok (padding_message (slot_space - size_of_header) m) c) () w)
                  (\<lambda>_ (w, _). Ok (tx + slot_space) w) (\<lambda>_ (w, _). w))
         else Ok tx w)"

definition raw_reserve_position :: "usize \<Rightarrow> 'sem wire \<Rightarrow> (slot_position, 'sem wire) result" where
  "raw_reserve_position tx w =
     (if tx AND VCHIQ_SLOT_MASK = 0 then
        (if tx = slot_queue_available (w_state w) * VCHIQ_SLOT_SIZE
         then Panic ''assertion failed: tx_pos != self.slot_queue_available * VCHIQ_SLOT_SIZE''
         else
           (let slot_queue_index = slot_queue_index_from_pos tx AND VCHIQ_SLOT_QUEUE_MASK;
                queue = volatile_getter slot_queue_f (ss_inner (local_ptr (w_zero w))) (w_mem w)
            in if unat slot_queue_index < length queue
               then Ok (SlotPosition (ucast (queue ! unat slot_queue_index)) 0) w
               else Panic ''index out of bounds''))
      else
        (case tx_data (slot_state (w_state w)) of
           None \<Rightarrow> Panic ''called Option::unwrap() on a None value''
         | Some p \<Rightarrow> Ok (SlotPosition (pos_index p) (tx AND VCHIQ_SLOT_MASK)) w))"

definition raw_reserve_space :: "usize \<Rightarrow> bool \<Rightarrow> 'sem wire \<Rightarrow> (slot_position, 'sem wire) result" where
  "raw_reserve_space space_needed block w =
     seq_res (raw_reserve_padding space_needed w)
       (\<lambda>tx w. seq_res (raw_reserve_position tx w)
         (\<lambda>pos w. Ok pos (w\<lparr>w_state := (w_state w)\<lparr>slot_state := (slot_state (w_state w))
            \<lparr>local_tx_pos := tx + space_needed, tx_data := Some pos\<rparr>\<rparr>\<rparr>)))"

definition raw_store_queued ::
  "nat option \<Rightarrow> message_type \<Rightarrow> u32 \<Rightarrow> u8 list option \<Rightarrow> slot_position \<Rightarrow> 'sem wire \<Rightarrow> (unit, 'sem wire) result" where
  "raw_store_queued service msg_type msg_id context pos w =
     (let st = w_state w;
          tx_end_index = queue_index (local_tx_pos (slot_state st) - 1);
          srv = borrow_ref st service
      in bind_res
           (raw_store (context_size context) pos
              (fill_message msg_type msg_id (of_nat (context_size context)) context srv tx_end_index) (quota_state st) w)
           (\<lambda>_ (w, q). Ok () (w\<lparr>w_state := (w_state w)\<lparr>quota_state := q\<rparr>\<rparr>))
           (\<lambda>_ _. w))"

definition raw_publish_tx_pos :: "'sem wire \<Rightarrow> 'sem wire" where
  "raw_publish_tx_pos w =
     raw_write (volatile_setter tx_pos_f (ss_inner (local_ptr (w_zero w))) (ucast (local_tx_pos (slot_state (w_state w)))) (w_mem w)) w"

definition raw_signal_videocore :: "'sem wire \<Rightarrow> 'sem wire" where
  "raw_signal_videocore w =
     (let (m, b) = raw_signal_remote (trigger_ptr (remote_ptr (w_zero w))) (w_mem w) (mmio (w_state w))
      in (raw_write m w)\<lparr>w_state := (w_state w)\<lparr>mmio := b\<rparr>\<rparr>)"

text \<open>The quota checks do not touch the shared memory.\<close>

definition raw_quota_check :: "'sem sem_ops \<Rightarrow> nat option \<Rightarrow> usize \<Rightarrow> 'sem wire \<Rightarrow> (unit, 'sem wire) result" where
  "raw_quota_check S service stride w =
     bind_res (data_quota_check S service stride (w_state w)) (\<lambda>_ st. Ok () (w\<lparr>w_state := st\<rparr>)) (\<lambda>_ st. w\<lparr>w_state := st\<rparr>)"

text \<open>The end of \<^verbatim>\<open>queue_message\<close>, once the message is stored.\<close>

definition raw_finish :: "nat option \<Rightarrow> message_type \<Rightarrow> 'sem wire \<Rightarrow> (unit, 'sem wire) result" where
  "raw_finish service msg_type w =
     (let w = raw_publish_tx_pos w;
          w = (case service of
                 Some i \<Rightarrow> if msg_type = CLOSE
                   then w\<lparr>w_state := update_service i (set_state CLOSESENT) (w_state w)\<rparr> else w
               | None \<Rightarrow> w)
      in Ok () (raw_signal_videocore w))"

definition raw_queue_message ::
  "'sem sem_ops \<Rightarrow> nat option \<Rightarrow> u32 \<Rightarrow> u8 list option \<Rightarrow> bool \<Rightarrow> 'sem wire \<Rightarrow> (unit, 'sem wire) result" where
  "raw_queue_message S service msg_id context block w =
     (case msg_type_from_id msg_id of
        None \<Rightarrow> Panic ''internal error: entered unreachable code''
      | Some msg_type \<Rightarrow>
         (let msg_stride = calc_msg_stride (of_nat (context_size context))
          in seq_res (if msg_type = DATA then raw_quota_check S service msg_stride w else Ok () w)
              (\<lambda>_ w. seq_res (raw_reserve_space msg_stride block w)
                (\<lambda>pos w. seq_res (raw_store_queued service msg_type msg_id context pos w)
                  (\<lambda>_ w. raw_finish service msg_type w)))))"

section \<open>The record that a memory stands for\<close>

text \<open>
  The state of \<open>Queueing\<close>: its slot zero is the reading of the memory, and its slots are the bytes behind the slot zero.
\<close>

definition slot_part :: "memory \<Rightarrow> memory" where
  "slot_part m = (\<lambda>a. if a < 1288 then 0 else m a)"

definition at_slots :: "'sem slot_zero \<Rightarrow> memory \<Rightarrow> 'sem state \<Rightarrow> 'sem state" where
  "at_slots z m st = st\<lparr>slot_state := (slot_state st)\<lparr>slot_zero := z, slot_data := (slot_data (slot_state st))\<lparr>mem := m\<rparr>\<rparr>\<rparr>"

definition view :: "'sem wire \<Rightarrow> 'sem state" where
  "view w = at_slots (read_slot_zero (w_mem w) (w_zero w)) (slot_part (w_mem w)) (w_state w)"

definition viewed :: "('a, 'sem wire) result \<Rightarrow> ('a, 'sem state) result" where
  "viewed r = bind_res r (\<lambda>a w. Ok a (view w)) (\<lambda>_ w. view w)"

lemma viewed_simps [simp]:
  "viewed (Ok a w) = Ok a (view w)" "viewed (Err e w) = Err e (view w)" "viewed (Panic p) = Panic p"
  "viewed Blocked = Blocked" "viewed Undef = Undef"
  by (simp_all add: viewed_def)

lemma view_simps [simp]:
  "local_tx_pos (slot_state (view w)) = local_tx_pos (slot_state (w_state w))"
  "tx_data (slot_state (view w)) = tx_data (slot_state (w_state w))"
  "slot_zero (slot_state (view w)) = read_slot_zero (w_mem w) (w_zero w)"
  "slot_data (slot_state (view w)) = (slot_data (slot_state (w_state w)))\<lparr>mem := slot_part (w_mem w)\<rparr>"
  "slot_queue_available (view w) = slot_queue_available (w_state w)" "quota_state (view w) = quota_state (w_state w)"
  "srv_state (view w) = srv_state (w_state w)" "mmio (view w) = mmio (w_state w)"
  by (simp_all add: view_def at_slots_def)

lemma view_updates:
  "view (w\<lparr>w_state := st\<rparr>) = at_slots (read_slot_zero (w_mem w) (w_zero w)) (slot_part (w_mem w)) st"
  "view (w\<lparr>w_state := (w_state w)\<lparr>quota_state := q\<rparr>\<rparr>) = (view w)\<lparr>quota_state := q\<rparr>"
  "view (w\<lparr>w_state := (w_state w)\<lparr>slot_state := (slot_state (w_state w))\<lparr>local_tx_pos := t, tx_data := d\<rparr>\<rparr>\<rparr>) =
     (view w)\<lparr>slot_state := (slot_state (view w))\<lparr>local_tx_pos := t, tx_data := d\<rparr>\<rparr>"
  "view (w\<lparr>w_state := update_service i f (w_state w)\<rparr>) = update_service i f (view w)"
  by (simp_all add: view_def at_slots_def update_service_def)

section \<open>The quota checks\<close>

text \<open>The checks neither read nor change what is in the shared memory.\<close>

lemma at_slots_simps [simp]:
  "local_tx_pos (slot_state (at_slots z m st)) = local_tx_pos (slot_state st)"
  "quota_state (at_slots z m st) = quota_state st" "data_quota_event (at_slots z m st) = data_quota_event st"
  "srv_state (at_slots z m st) = srv_state st" "get_service (at_slots z m st) i = get_service st i"
  "borrow_ref (at_slots z m st) r = borrow_ref st r"
  "(at_slots z m st)\<lparr>data_quota_event := e\<rparr> = at_slots z m (st\<lparr>data_quota_event := e\<rparr>)"
  "update_quota i f (at_slots z m st) = at_slots z m (update_quota i f st)"
  "update_service i g (at_slots z m st) = at_slots z m (update_service i g st)"
  by (simp_all add: at_slots_def get_service_def borrow_ref_def update_quota_def update_service_def split: option.splits)

lemma at_slots_twice [simp]: "at_slots z m (at_slots z' m' st) = at_slots z m st"
  by (simp add: at_slots_def)

lemma at_slots_own: "at_slots (slot_zero (slot_state st)) (tx_mem st) st = st"
  by (simp add: at_slots_def)

definition moved :: "'sem slot_zero \<Rightarrow> memory \<Rightarrow> ('a, 'sem state) result \<Rightarrow> ('a, 'sem state) result" where
  "moved z m r = bind_res r (\<lambda>a st. Ok a (at_slots z m st)) (\<lambda>_ st. at_slots z m st)"

lemma moved_simps [simp]:
  "moved z m (Ok a st) = Ok a (at_slots z m st)" "moved z m (Err e st) = Err e (at_slots z m st)"
  "moved z m (Panic p) = Panic p" "moved z m Blocked = Blocked" "moved z m Undef = Undef"
  by (simp_all add: moved_def)

lemma data_quota_loop_Some:
  "data_quota_loop S stride i st = Some r \<Longrightarrow> data_quota_loop S stride i (at_slots z m st) = Some (fst r, at_slots z m (snd r))"
proof (rule data_quota_loop.raw_induct
    [where P = "\<lambda>S stride i st r. data_quota_loop S stride i (at_slots z m st) = Some (fst r, at_slots z m (snd r))"])
  fix loop S stride i st r
  assume ih: "\<And>S stride i st r. loop S stride i st = Some r \<Longrightarrow>
      data_quota_loop S stride i (at_slots z m st) = Some (fst r, at_slots z m (snd r))"
    and body: "(if i \<noteq> previous_data_index (quota_state st) \<and> data_use_count (quota_state st) = data_quota (quota_state st)
      then (case sem_down S (data_quota_event st) of
              None \<Rightarrow> None
            | Some s \<Rightarrow>
                (let st = st\<lparr>data_quota_event := s\<rparr>; i = queue_index (local_tx_pos (slot_state st) + stride - 1)
                 in if i = previous_data_index (quota_state st) \<or> data_use_count (quota_state st) < data_quota (quota_state st)
                    then Some (i, st\<lparr>data_quota_event := sem_up S s\<rparr>) else loop S stride i st))
      else Some (i, st)) = Some r"
  show "data_quota_loop S stride i (at_slots z m st) = Some (fst r, at_slots z m (snd r))"
    using body by (subst data_quota_loop.simps) (auto simp: Let_def ih split: if_splits option.splits)
qed

lemma service_quota_loop_Some:
  "service_quota_loop S stride srv i st = Some r \<Longrightarrow> service_quota_loop S stride srv i (at_slots z m st) = Some (moved z m r)"
proof (rule service_quota_loop.raw_induct
    [where P = "\<lambda>S stride srv i st r. service_quota_loop S stride srv i (at_slots z m st) = Some (moved z m r)"])
  fix loop S stride srv i st r
  assume ih: "\<And>S stride srv i st r. loop S stride srv i st = Some r \<Longrightarrow>
      service_quota_loop S stride srv i (at_slots z m st) = Some (moved z m r)"
    and body: "(let q = quotas_of st ! unat (localport srv)
      in if message_use_count q = message_quota q \<or> i \<noteq> previous_tx_index q \<and> slot_use_count q = slot_quota q
         then (case sem_down S (quota_event q) of
                 None \<Rightarrow> None
               | Some s \<Rightarrow>
                   (let st = update_quota (unat (localport srv)) (\<lambda>q. q\<lparr>quota_event := s\<rparr>) st
                    in if closing srv then Some (Err (VchiqErr ServiceClosing) st)
                       else if srvstate srv \<noteq> OPEN then Some (Err (VchiqErr (ServiceAlreadyClosed (srv_handle srv))) st)
                       else loop S stride srv (queue_index (local_tx_pos (slot_state st) + stride - 1)) st))
         else Some (Ok () st)) = Some r"
  show "service_quota_loop S stride srv i (at_slots z m st) = Some (moved z m r)"
    using body by (subst service_quota_loop.simps) (auto simp: Let_def ih split: if_splits option.splits)
qed

text \<open>A state of its own slots is the way back, so that a loop that does not return does not return in the other state either.\<close>

lemma data_quota_loop_slots:
  "data_quota_loop S stride i (at_slots z m st) = map_option (\<lambda>(i, st). (i, at_slots z m st)) (data_quota_loop S stride i st)"
proof (cases "data_quota_loop S stride i st")
  case None
  have "data_quota_loop S stride i (at_slots z m st) = None"
    using data_quota_loop_Some [of S stride i "at_slots z m st" _ "slot_zero (slot_state st)" "tx_mem st"] None
    by (cases "data_quota_loop S stride i (at_slots z m st)") (auto simp: at_slots_own)
  with None show ?thesis by simp
next
  case (Some r)
  then show ?thesis using data_quota_loop_Some [OF Some, of z m] by (cases r) simp
qed

lemma service_quota_loop_slots:
  "service_quota_loop S stride srv i (at_slots z m st) = map_option (moved z m) (service_quota_loop S stride srv i st)"
proof (cases "service_quota_loop S stride srv i st")
  case None
  have "service_quota_loop S stride srv i (at_slots z m st) = None"
    using service_quota_loop_Some [of S stride srv i "at_slots z m st" _ "slot_zero (slot_state st)" "tx_mem st"] None
    by (cases "service_quota_loop S stride srv i (at_slots z m st)") (auto simp: at_slots_own)
  with None show ?thesis by simp
next
  case (Some r)
  then show ?thesis using service_quota_loop_Some [OF Some, of z m] by simp
qed

lemma data_quota_check_slots:
  "data_quota_check S service stride (at_slots z m st) = moved z m (data_quota_check S service stride st)"
  by (auto simp: data_quota_check_def data_quota_loop_slots service_quota_loop_slots split: option.splits)

lemma raw_quota_check_view:
  "viewed (raw_quota_check S service stride w) = data_quota_check S service stride (view w)"
proof -
  have "data_quota_check S service stride (view w) =
      moved (read_slot_zero (w_mem w) (w_zero w)) (slot_part (w_mem w)) (data_quota_check S service stride (w_state w))"
    unfolding view_def by (rule data_quota_check_slots)
  then show ?thesis
    by (cases "data_quota_check S service stride (w_state w)") (simp_all add: raw_quota_check_def view_updates)
qed

section \<open>The writes\<close>

lemma slot_part_load [simp]: "1288 \<le> a \<Longrightarrow> load_bytes (slot_part m) a n = load_bytes m a n"
  by (simp add: load_bytes_def slot_part_def)

lemma slot_part_store: "1288 \<le> a \<Longrightarrow> slot_part (store_bytes m a bs) = store_bytes (slot_part m) a bs"
  by (auto simp: slot_part_def store_bytes_def)

lemma slot_part_differ: "differ_in 0 1288 m m' \<Longrightarrow> slot_part m' = slot_part m"
  by (auto simp: slot_part_def differ_in_def fun_eq_iff)

lemma viewed_seq:
  assumes "\<And>a w'. r = Ok a w' \<Longrightarrow> viewed (f a w') = g a (view w')"
  shows "viewed (seq_res r f) = seq_res (viewed r) g"
  using assms by (cases r) auto

definition put_slots :: "slot_accessor \<Rightarrow> 'sem state \<Rightarrow> 'sem state" where
  "put_slots A st = st\<lparr>slot_state := (slot_state st)\<lparr>slot_data := A\<rparr>\<rparr>"

lemma raw_store_view:
  assumes "slot_zero_at 0 (w_zero w)"
  shows "bind_res (raw_store n p f c w) (\<lambda>_ (w, c). Ok () (view w, c)) (\<lambda>_ (w, c). (view w, c)) =
    bind_res (store_message (slot_data (slot_state (view w))) n p f c)
      (\<lambda>_ (A, c). Ok () (put_slots A (view w), c)) (\<lambda>_ (A, c). (view w, c))"
proof (cases "0 < pos_index p")
  case True
  then have a: "4096 \<le> slot_addr p" by (rule data_slot_addr)
  then have l: "load_message (slot_part (w_mem w)) (slot_addr p) n = load_message (w_mem w) (slot_addr p) n"
    by (simp add: load_message_def)
  have z: "read_slot_zero (store_bytes (w_mem w) (slot_addr p) bs) (w_zero w) = read_slot_zero (w_mem w) (w_zero w)" for bs
    using a by (intro read_slot_zero_differ [OF assms, of 4096 "slot_addr p + length bs"])
      (auto simp: differ_in_def store_bytes_outside)
  have v: "view (raw_write (store_bytes (w_mem w) (slot_addr p) bs) w) =
      put_slots ((slot_data (slot_state (w_state w)))\<lparr>mem := store_bytes (slot_part (w_mem w)) (slot_addr p) bs\<rparr>) (view w)" for bs
    using a by (simp add: view_def raw_write_def at_slots_def put_slots_def z slot_part_store)
  show ?thesis
    using True
    by (cases "f (load_message (w_mem w) (slot_addr p) n) c")
      (simp_all add: raw_store_def store_message_def wire_slots_def in_memory_def l v)
qed (simp add: raw_store_def store_message_def wire_slots_def)

lemma raw_store_zero: "raw_store n p f c w = Ok u (w', c') \<Longrightarrow> w_zero w' = w_zero w \<and> w_state w' = w_state w"
  by (auto simp: raw_store_def raw_write_def outcome)

lemma raw_reserve_padding_view:
  assumes "slot_zero_at 0 (w_zero w)"
  shows "viewed (raw_reserve_padding n w) = reserve_padding n (view w)"
proof (cases "tx_data (slot_state (w_state w))")
  case (Some p)
  let ?f = "\<lambda>m (c :: unit). Ok (padding_message (VCHIQ_SLOT_SIZE - (local_tx_pos (slot_state (w_state w)) AND VCHIQ_SLOT_MASK)
      - size_of_header) m) c"
  note v = raw_store_view [OF assms, of 0 p ?f "()"]
  show ?thesis
    using v Some
    by (cases "raw_store 0 p ?f () w"; cases "store_message (slot_data (slot_state (view w))) 0 p ?f ()")
      (auto simp: raw_reserve_padding_def reserve_padding_def Let_def put_slots_def)
qed (simp add: raw_reserve_padding_def reserve_padding_def Let_def)

lemma raw_reserve_position_view:
  "viewed (raw_reserve_position tx w) = reserve_position tx (view w)"
  by (simp add: raw_reserve_position_def reserve_position_def Let_def read_slot_zero_def split: option.splits)

lemma raw_reserve_keeps:
  "raw_reserve_padding n w = Ok a w' \<Longrightarrow> w_zero w' = w_zero w \<and> w_state w' = w_state w"
  "raw_reserve_position tx w = Ok p w' \<Longrightarrow> w' = w"
  "raw_reserve_space n b w = Ok p w' \<Longrightarrow> w_zero w' = w_zero w"
proof -
  show p: "raw_reserve_padding n w = Ok a w' \<Longrightarrow> w_zero w' = w_zero w \<and> w_state w' = w_state w" for a w'
    by (auto simp: raw_reserve_padding_def Let_def outcome dest: raw_store_zero split: if_splits option.splits)
  show q: "raw_reserve_position tx w = Ok p w' \<Longrightarrow> w' = w" for tx and w w' :: "'b wire"
    by (auto simp: raw_reserve_position_def Let_def split: if_splits option.splits)
  show "raw_reserve_space n b w = Ok p w' \<Longrightarrow> w_zero w' = w_zero w"
    by (auto simp: raw_reserve_space_def outcome dest!: p q)
qed

lemma raw_reserve_space_view:
  assumes "slot_zero_at 0 (w_zero w)"
  shows "viewed (raw_reserve_space n b w) = reserve_space n b (view w)"
  unfolding raw_reserve_space_def reserve_space_def raw_reserve_padding_view [OF assms, symmetric] raw_reserve_position_view [symmetric]
  by (intro viewed_seq, subst raw_reserve_position_view [symmetric], intro viewed_seq) (simp only: viewed_simps view_updates(3))

lemma raw_store_queued_view:
  assumes "slot_zero_at 0 (w_zero w)"
  shows "viewed (raw_store_queued service ty i c pos w) = store_queued service ty i c pos (view w)"
proof -
  let ?f = "fill_message ty i (of_nat (context_size c)) c (borrow_ref (w_state w) service)
      (queue_index (local_tx_pos (slot_state (w_state w)) - 1))"
  note v = raw_store_view [OF assms, of "context_size c" pos ?f "quota_state (w_state w)"]
  have b: "borrow_ref (view w) service = borrow_ref (w_state w) service" by (simp add: view_def)
  show ?thesis
    using v
    by (cases "raw_store (context_size c) pos ?f (quota_state (w_state w)) w";
        cases "store_message (slot_data (slot_state (view w))) (context_size c) pos ?f (quota_state (w_state w))")
      (auto simp: raw_store_queued_def store_queued_def Let_def put_slots_def b view_updates(2))
qed

lemma slot_zero_write_view:
  assumes "differ_in 0 1288 (w_mem w) m"
  shows "view (raw_write m w) = (view w)\<lparr>slot_state := (slot_state (view w))\<lparr>slot_zero := read_slot_zero m (w_zero w)\<rparr>\<rparr>"
  by (simp add: view_def raw_write_def at_slots_def slot_part_differ [OF assms])

lemma raw_publish_view:
  assumes "slot_zero_at 0 (w_zero w)"
  shows "view (raw_publish_tx_pos w) = publish_tx_pos (view w)"
proof -
  let ?p = "ss_inner (local_ptr (w_zero w))" and ?v = "ucast (local_tx_pos (slot_state (w_state w))) :: u32"
  let ?m = "volatile_setter tx_pos_f ?p ?v (w_mem w)"
  note at = slot_zero_atD [OF assms]
  have d: "differ_in ?p 372 (w_mem w) ?m" by (rule shared_state_set_differ)
  have "read_slot_zero ?m (w_zero w) = (read_slot_zero (w_mem w) (w_zero w))
      \<lparr>sz_local := (sz_local (read_slot_zero (w_mem w) (w_zero w)))\<lparr>tx_pos := ?v\<rparr>\<rparr>"
    using read_slot_zero_set_local [OF assms d] read_shared_state_set(5) [OF at(4)] by simp
  moreover have "differ_in 0 1288 (w_mem w) ?m" using slot_zero_inside(3) [OF assms d] .
  ultimately show ?thesis
    by (simp add: raw_publish_tx_pos_def slot_zero_write_view publish_tx_pos_def Let_def)
qed

lemma raw_signal_view:
  assumes "slot_zero_at 0 (w_zero w)"
  shows "view (raw_signal_videocore w) = signal_videocore (view w)"
proof -
  let ?e = "trigger_ptr (remote_ptr (w_zero w))"
  note at = slot_zero_atD [OF assms]
  obtain m b where r: "raw_signal_remote ?e (w_mem w) (mmio (w_state w)) = (m, b)" by fastforce
  note s = raw_signal_remote_refines [OF r]
  have d: "differ_in (32 + 16) 12 (w_mem w) m" using s(2) event_ptr_at(1) [OF at(5)] by simp
  have "read_slot_zero m (w_zero w) = (read_slot_zero (w_mem w) (w_zero w))
      \<lparr>sz_remote := (sz_remote (read_slot_zero (w_mem w) (w_zero w)))\<lparr>trigger := read_event m ?e\<rparr>\<rparr>"
    using read_slot_zero_remote [OF assms, of "w_mem w" m] trigger_part.read_differ [OF at(5), of "w_mem w" m] d
      differ_in_mono [OF d, of 32 372] by simp
  moreover have "differ_in 0 1288 (w_mem w) m" by (rule differ_in_mono [OF d]) simp_all
  moreover have "view ((raw_write m w)\<lparr>w_state := (w_state w)\<lparr>mmio := b\<rparr>\<rparr>) = (view (raw_write m w))\<lparr>mmio := b\<rparr>"
    by (simp add: view_def at_slots_def raw_write_def)
  ultimately show ?thesis
    using r s(1) by (simp add: raw_signal_videocore_def signal_videocore_def slot_zero_write_view Let_def)
qed

lemma raw_finish_view:
  assumes "slot_zero_at 0 (w_zero w)"
  shows "viewed (raw_finish service ty w) =
      (let st = publish_tx_pos (view w);
           st = (case service of Some i \<Rightarrow> if ty = CLOSE then update_service i (set_state CLOSESENT) st else st | None \<Rightarrow> st)
       in Ok () (signal_videocore st))"
proof -
  have "w_zero (raw_publish_tx_pos w) = w_zero w" by (simp add: raw_publish_tx_pos_def raw_write_def)
  with assms show ?thesis
    by (auto simp: raw_finish_def Let_def raw_signal_view raw_publish_view view_updates(4) split: option.splits)
qed

lemma raw_send_view:
  assumes "slot_zero_at 0 (w_zero w)"
  shows "viewed (seq_res (raw_store_queued service ty i c pos w) (\<lambda>_ w. raw_finish service ty w)) =
    seq_res (store_queued service ty i c pos (view w))
      (\<lambda>_ st. let st = publish_tx_pos st;
         st = (case service of Some i \<Rightarrow> if ty = CLOSE then update_service i (set_state CLOSESENT) st else st | None \<Rightarrow> st)
       in Ok () (signal_videocore st))"
  unfolding raw_store_queued_view [OF assms, symmetric]
proof (intro viewed_seq raw_finish_view)
  fix u w'
  assume "raw_store_queued service ty i c pos w = Ok u w'"
  then show "slot_zero_at 0 (w_zero w')"
    using assms by (auto simp: raw_store_queued_def Let_def outcome dest!: raw_store_zero)
qed

lemma raw_queue_message_view:
  assumes "slot_zero_at 0 (w_zero w)"
  shows "viewed (raw_queue_message S service i c b w) = queue_message S service i c b (view w)"
proof (cases "msg_type_from_id i")
  case (Some ty)
  let ?stride = "calc_msg_stride (of_nat (context_size c))"
  have q: "viewed (if ty = DATA then raw_quota_check S service ?stride w else Ok () w) =
      (if ty = DATA then data_quota_check S service ?stride (view w) else Ok () (view w))"
    by (simp add: raw_quota_check_view)
  have 2: "slot_zero_at 0 (w_zero w1)" if "(if ty = DATA then raw_quota_check S service ?stride w else Ok () w) = Ok a w1" for a w1
    using that assms by (auto simp: raw_quota_check_def outcome split: if_splits)
  have "viewed (seq_res (raw_reserve_space ?stride b w1)
        (\<lambda>pos w. seq_res (raw_store_queued service ty i c pos w) (\<lambda>_ w. raw_finish service ty w))) =
      seq_res (reserve_space ?stride b (view w1))
        (\<lambda>pos st. seq_res (store_queued service ty i c pos st)
          (\<lambda>_ st. let st = publish_tx_pos st;
             st = (case service of Some i \<Rightarrow> if ty = CLOSE then update_service i (set_state CLOSESENT) st else st | None \<Rightarrow> st)
           in Ok () (signal_videocore st)))" if "slot_zero_at 0 (w_zero w1)" for w1 :: "'b wire"
    unfolding raw_reserve_space_view [OF that, symmetric]
    using that by (intro viewed_seq raw_send_view) (metis raw_reserve_keeps(3))
  with 2 show ?thesis
    unfolding raw_queue_message_def queue_message_def Some option.case Let_def [of ?stride] q [symmetric]
    by (intro viewed_seq) blast
qed (simp add: raw_queue_message_def queue_message_def)

section \<open>The order of the writes\<close>

text \<open>What a successful store does to the memory.\<close>

lemma raw_store_write:
  assumes "raw_store n p f c w = Ok u (w', c')"
  obtains bs where "w' = raw_write (store_bytes (w_mem w) (slot_addr p) bs) w" "4096 \<le> slot_addr p"
  using assms data_slot_addr [of p] by (auto simp: raw_store_def store_message_def wire_slots_def outcome split: if_splits)

lemma raw_padding_none:
  assumes "context_size c \<le> 4088" "tx_target i c (view w) = tx_of (view w)"
  shows "raw_reserve_padding (calc_msg_stride (of_nat (context_size c))) w = Ok (local_tx_pos (slot_state (w_state w))) w"
proof -
  let ?tx = "local_tx_pos (slot_state (w_state w))"
  have "unat ?tx mod 4096 + stride_of (queued_message i c) \<le> 4096"
    using assms(2) next_tx_slot(1) [of "stride_of (queued_message i c)" "unat ?tx"] stride_queued_bounds [OF assms(1) refl, of i]
    by (simp add: tx_target_def)
  then have "unat (calc_msg_stride (of_nat (context_size c))) \<le> unat (VCHIQ_SLOT_SIZE - (?tx AND VCHIQ_SLOT_MASK))"
    using assms(1) by (simp add: slot_space_val stride_queued [of c i])
  then show ?thesis by (simp add: raw_reserve_padding_def Let_def word_le_nat_alt [symmetric] leD)
qed

text \<open>The memory, the trace and the accessor after each part of \<open>raw_queue_message\<close>.\<close>

definition same_wire :: "'sem wire \<Rightarrow> 'sem wire \<Rightarrow> bool" where
  "same_wire w w' \<longleftrightarrow> w_mem w' = w_mem w \<and> w_trace w' = w_trace w \<and> w_zero w' = w_zero w"

lemma raw_reserve_none:
  assumes "context_size c \<le> 4088" "tx_target i c (view w) = tx_of (view w)"
    and "raw_reserve_space (calc_msg_stride (of_nat (context_size c))) b w = Ok pos w'"
  shows "same_wire w w'"
  using assms(3)
  by (auto simp: raw_reserve_space_def raw_padding_none [OF assms(1,2)] outcome same_wire_def dest!: raw_reserve_keeps(2))

lemma raw_store_queued_write:
  assumes "raw_store_queued service ty i c pos w = Ok u w'"
  obtains p bs where "4096 \<le> slot_addr p" "w_mem w' = store_bytes (w_mem w) (slot_addr p) bs"
    "w_trace w' = w_trace w @ [w_mem w']" "w_zero w' = w_zero w"
proof -
  from assms obtain w2 q f d where s: "raw_store (context_size c) pos f d w = Ok () (w2, q)" "w' = w2\<lparr>w_state := (w_state w2)\<lparr>quota_state := q\<rparr>\<rparr>"
    by (auto simp: raw_store_queued_def Let_def outcome)
  obtain bs where "w2 = raw_write (store_bytes (w_mem w) (slot_addr pos) bs) w" "4096 \<le> slot_addr pos"
    by (rule raw_store_write [OF s(1)])
  with s(2) show thesis by (intro that [of pos bs]) (simp_all add: raw_write_def)
qed

lemma raw_finish_writes:
  assumes "slot_zero_at 0 (w_zero w)" "raw_finish service ty w = Ok u w'"
  obtains t m where "m = volatile_setter tx_pos_f 404 t (w_mem w)" "w_mem w' = volatile_setter fired_f 48 1 m"
    "w_trace w' = w_trace w @ [m, w_mem w']" "w_zero w' = w_zero w"
proof -
  note at = slot_zero_atD [OF assms(1)]
  have e: "event_inner (trigger_ptr (remote_ptr (w_zero w))) = 48" using event_ptr_at(1) [OF at(5)] by simp
  show thesis
    using assms(2) at(2) e
    by (intro that [OF refl, of "ucast (local_tx_pos (slot_state (w_state w)))"])
      (auto simp: raw_finish_def raw_publish_tx_pos_def raw_signal_videocore_def raw_signal_remote_def raw_write_def Let_def
        split: option.splits if_splits)
qed

text \<open>The three writes of a message that fits into the current slot: the message, the transmit position, the event.\<close>

lemma raw_queue_trace:
  assumes "slot_zero_at 0 (w_zero w)" "sendable S service i c (view w)" "tx_target i c (view w) = tx_of (view w)"
    and "raw_queue_message S service i c b w = Ok u w'"
  obtains p bs m m1 t where "m = store_bytes (w_mem w) (slot_addr p) bs" "4096 \<le> slot_addr p"
    "m1 = volatile_setter tx_pos_f 404 t m" "w_mem w' = volatile_setter fired_f 48 1 m1"
    "w_trace w' = w_trace w @ [m, m1, w_mem w']" "w_zero w' = w_zero w"
proof -
  let ?stride = "calc_msg_stride (of_nat (context_size c))"
  from assms(4) obtain ty w1 pos w2 w3 where q: "msg_type_from_id i = Some ty"
      "(if ty = DATA then raw_quota_check S service ?stride w else Ok () w) = Ok () w1"
      "raw_reserve_space ?stride b w1 = Ok pos w2" "raw_store_queued service ty i c pos w2 = Ok () w3"
      "raw_finish service ty w3 = Ok u w'"
    by (auto simp: raw_queue_message_def Let_def outcome split: option.splits)
  have c: "context_size c \<le> 4088" using assms(2) by (simp add: sendable_def)
  have "viewed (if ty = DATA then raw_quota_check S service ?stride w else Ok () w) = Ok () (view w)"
    using assms(2) q(1) by (auto simp: sendable_def raw_quota_check_view)
  then have v: "view w1 = view w" unfolding q(2) by simp
  have 1: "same_wire w w1" using q(2) by (auto simp: raw_quota_check_def outcome same_wire_def split: if_splits)
  have 2: "same_wire w1 w2" using raw_reserve_none [OF c _ q(3)] assms(3) by (simp only: v)
  obtain p bs where 3: "4096 \<le> slot_addr p" "w_mem w3 = store_bytes (w_mem w2) (slot_addr p) bs"
    "w_trace w3 = w_trace w2 @ [w_mem w3]" "w_zero w3 = w_zero w2"
    by (rule raw_store_queued_write [OF q(4)])
  have z: "slot_zero_at 0 (w_zero w3)" using assms(1) 1 2 3(4) by (simp add: same_wire_def)
  obtain t m where 4: "m = volatile_setter tx_pos_f 404 t (w_mem w3)" "w_mem w' = volatile_setter fired_f 48 1 m"
    "w_trace w' = w_trace w3 @ [m, w_mem w']" "w_zero w' = w_zero w3"
    by (rule raw_finish_writes [OF z q(5)])
  show thesis using 1 2 by (intro that [OF _ 3(1) 4(1,2)]) (simp_all add: 3 4 same_wire_def)
qed

text \<open>
  What the VideoCore finds when it looks at the memory: in the slot number \<open>k\<close> of the stream, which starts at \<open>a\<close>, whole
  messages up to the transmit position that it reads.
\<close>

definition visible :: "'sem slot_zero_ptr \<Rightarrow> nat \<Rightarrow> nat \<Rightarrow> memory \<Rightarrow> slot_message list \<Rightarrow> bool" where
  "visible z k a m ms \<longleftrightarrow> stream_at message_at stride_of m a ms \<and>
     k * 4096 + sum_list (map stride_of ms) = unat (volatile_getter tx_pos_f (ss_inner (local_ptr z)) m)"

definition event_fired :: "'sem slot_zero_ptr \<Rightarrow> memory \<Rightarrow> u32" where
  "event_fired z m = volatile_getter fired_f (event_inner (trigger_ptr (remote_ptr z))) m"

lemma raw_queue_sent:
  assumes "slot_zero_at 0 (w_zero w)" "tx_inv (view w)" "sendable S service i c (view w)"
    and "tx_target i c (view w) < tx_slots (view w) * 4096"
  obtains ty w' where "raw_queue_message S service i c b w = Ok () w'"
    "view w' = queued_state service ty i c (tx_target i c (view w)) (view w)"
proof -
  obtain ty where "queue_message S service i c b (view w) = Ok () (queued_state service ty i c (tx_target i c (view w)) (view w))"
    using assms(2,3,4) by (cases rule: queue_message_cases [where b = b]) auto
  then show thesis
    using raw_queue_message_view [OF assms(1), of S service i c b] that
    by (cases "raw_queue_message S service i c b w") auto
qed

lemma message_slot_part: "1288 \<le> a \<Longrightarrow> message_at (slot_part m) a x = message_at m a x"
  by (simp add: message_at_def)

lemma stream_slot_part:
  "1288 \<le> a \<Longrightarrow> stream_at message_at stride_of (slot_part m) a ms = stream_at message_at stride_of m a ms"
  by (induction ms arbitrary: a) (simp_all add: message_slot_part)

lemma trace_facts:
  assumes "slot_zero_at 0 z" "4096 \<le> a" and m1_def: "m1 = store_bytes m a bs"
    and m2_def: "m2 = volatile_setter tx_pos_f 404 t m1" and m3_def: "m3 = volatile_setter fired_f 48 1 m2"
  shows "slot_part m2 = slot_part m1" "slot_part m3 = slot_part m1"
    "volatile_getter tx_pos_f 404 m1 = volatile_getter tx_pos_f 404 m"
    "volatile_getter tx_pos_f 404 m3 = volatile_getter tx_pos_f 404 m2"
    "event_fired z m1 = event_fired z m" "event_fired z m2 = event_fired z m" "event_fired z m3 = 1"
proof -
  note at = slot_zero_atD [OF assms(1)]
  have e: "event_inner (trigger_ptr (remote_ptr z)) = 48" using event_ptr_at(1) [OF at(5)] by simp
  have d1: "differ_in 4096 (a + length bs) m m1"
    using assms(2) by (auto simp: m1_def differ_in_def store_bytes_outside)
  have d2: "differ_in 432 4 m1 m2" unfolding m2_def tx_pos_f_def by (rule u32_cell.setter_differ) (simp_all add: offsets)
  have d3: "differ_in 52 4 m2 m3" unfolding m3_def fired_f_def by (rule u32_cell.setter_differ) (simp_all add: offsets)
  show "slot_part m2 = slot_part m1" by (rule slot_part_differ [OF differ_in_mono [OF d2]]) simp_all
  moreover have "slot_part m3 = slot_part m2" by (rule slot_part_differ [OF differ_in_mono [OF d3]]) simp_all
  ultimately show "slot_part m3 = slot_part m1" by simp
  show "volatile_getter tx_pos_f 404 m1 = volatile_getter tx_pos_f 404 m"
    by (rule getter_differ [OF d1]) (simp add: tx_pos_f_def offsets)
  show "volatile_getter tx_pos_f 404 m3 = volatile_getter tx_pos_f 404 m2"
    by (rule getter_differ [OF d3]) (simp add: tx_pos_f_def offsets)
  show f1: "event_fired z m1 = event_fired z m"
    unfolding event_fired_def e by (rule getter_differ [OF d1]) (simp add: fired_f_def offsets)
  have "event_fired z m2 = event_fired z m1"
    unfolding event_fired_def e by (rule getter_differ [OF d2]) (simp add: fired_f_def offsets)
  with f1 show "event_fired z m2 = event_fired z m" by simp
  show "event_fired z m3 = 1" unfolding event_fired_def e m3_def fired_f_def by (simp add: u32_cell.getter_setter)
qed

section \<open>The memory of a new driver\<close>

text \<open>The size of the allocated memory.\<close>

definition shared_size :: "'sem platform \<Rightarrow> usize" where
  "shared_size P = page_align P (TOTAL_SLOTS * VCHIQ_SLOT_SIZE)"

text \<open>The memory that \<^verbatim>\<open>State::new\<close> leaves behind: the slot zero initialized field by field and the platform data written.\<close>

lemma boot_memory:
  assumes "slot_zero_at 0 z0" "init_slot_zero P = read_slot_zero (init_mem P) z0" "state_new S P h = Ok st ()"
  obtains n z m where
    "raw_slot_zero_initialize S (slot_zero_ptr_new 0 (shared_size P - slot_zero_offset (mapped_ptr P))) (init_mem P) = Ok n (z, m)"
    "slot_zero_at 0 z" "slot_zero (slot_state st) =
      read_slot_zero (volatile_setter platform_data_f (sz_inner z) [ucast (shm_ptr_phys st + shared_size P), ucast MAX_FRAGMENTS] m) z"
    "\<forall>q. read_message (slot_data (slot_state st)) q = read_message ((slot_data (slot_state st))\<lparr>mem :=
      volatile_setter platform_data_f (sz_inner z) [ucast (shm_ptr_phys st + shared_size P), ucast MAX_FRAGMENTS] m\<rparr>) q"
    "tx_pos (sz_local (slot_zero (slot_state st))) = 0"
proof -
  let ?p = "slot_zero_ptr_new 0 (shared_size P - slot_zero_offset (mapped_ptr P))"
  have at: "slot_zero_at 0 ?p" by (rule slot_zero_ptr_new_at)
  obtain n z1 lay where n: "slot_zero_initialize S (read_slot_zero (init_mem P) ?p) = Ok n z1"
      "st = state_build S lay (mapped_ptr P) (shm_ptr_phys st) (z1\<lparr>platform_data := (platform_data z1)[0 := ucast (shm_ptr_phys st + shared_size P),
        1 := ucast MAX_FRAGMENTS]\<rparr>) (slot_accessor_new (init_mem P) (n + VCHIQ_SLOT_ZERO_SLOTS))
        (init_fragments (mapped_ptr P + shared_size P)) h"
    using assms(3)
    unfolding state_new_def Let_def assms(2) read_slot_zero_new [OF assms(1)]
    by (auto simp: outcome shared_size_def mapped_ptr_def slot_zero_offset_def layout_from_size_align_def state_build_def Let_def
        split: option.splits if_splits)
  have "read_outcome (raw_slot_zero_initialize S ?p (init_mem P)) = Ok n z1"
    using raw_initialize_outcome(1) [OF at, of S "init_mem P"] n(1) by simp
  then obtain z m where r: "raw_slot_zero_initialize S ?p (init_mem P) = Ok n (z, m)" "z1 = read_slot_zero m z"
    by (auto simp: read_outcome_def outcome)
  note o = raw_initialize_outcome(2) [OF at r(1)]
  let ?d = "[ucast (shm_ptr_phys st + shared_size P), ucast MAX_FRAGMENTS]"
  let ?m = "volatile_setter platform_data_f (sz_inner z) ?d m"
  have "length (platform_data (read_slot_zero m z)) = 2"
    by (simp add: read_slot_zero_def platform_data_f_def u32s_cell.getter_ok)
  then obtain a b where ab: "platform_data (read_slot_zero m z) = [a, b]" by (auto simp: numeral_2_eq_2 length_Suc_conv)
  have st: "slot_zero (slot_state st) = (read_slot_zero m z)\<lparr>platform_data := (platform_data (read_slot_zero m z))
      [0 := ucast (shm_ptr_phys st + shared_size P), 1 := ucast MAX_FRAGMENTS]\<rparr>"
      "slot_data (slot_state st) = slot_accessor_new (init_mem P) (n + VCHIQ_SLOT_ZERO_SLOTS)"
    by (subst n(2), simp add: state_build_def Let_def r(2))+
  have "slot_zero (slot_state st) = read_slot_zero ?m z"
    unfolding st(1) ab using read_slot_zero_set(8) [OF conjunct1 [OF o], of ?d m] by simp
  moreover have "differ_in 0 1288 (init_mem P) ?m"
    using o by (intro differ_in_step [OF slot_zero_inside(1) [OF _ slot_zero_set_differ(8)]]) auto
  then have "read_message (slot_data (slot_state st)) q = read_message ((slot_data (slot_state st))\<lparr>mem := ?m\<rparr>) q" for q
    using read_message_apart [of "slot_data (slot_state st)" ?m q] by (simp add: st(2) slot_accessor_new_def)
  moreover have "tx_pos (sz_local (slot_zero (slot_state st))) = 0"
    using initialize_header(8) [OF n(1)] by (simp add: st(1) r(2))
  ultimately show thesis using that [OF r(1) conjunct1 [OF o]] by blast
qed

text \<open>A concrete board with the slot zero read from its memory, and a driver started on it.\<close>

definition raw_board :: "nat platform" where
  "raw_board = board\<lparr>init_slot_zero := read_slot_zero (\<lambda>_. 0) demo_ptr\<rparr>"

lemma raw_board_facts:
  "init_mem raw_board = (\<lambda>_. 0)" "init_slot_zero raw_board = read_slot_zero (init_mem raw_board) demo_ptr"
  "platform_ok raw_board"
proof -
  show "init_mem raw_board = (\<lambda>_. 0)" "init_slot_zero raw_board = read_slot_zero (init_mem raw_board) demo_ptr"
    by (simp_all add: raw_board_def board_def)
  have "shared_state_shape (sz_local (read_slot_zero (\<lambda>_. 0) demo_ptr))"
    using read_slot_zero_shape [OF demo_ptr_at] by (simp only: slot_zero_shape_def)
  then show "platform_ok raw_board"
    using board_ok unfolding platform_ok_def shared_mem_size_def raw_board_def by (simp del: sz_local_read)
qed

lemma boot_wire:
  obtains w :: "nat wire" where "slot_zero_at 0 (w_zero w)" "tx_inv (view w)" "tx_of (view w) = 0" "1 \<le> tx_slots (view w)"
    "visible (w_zero w) 0 (slot_base (view w) 0) (w_mem w) []"
proof -
  obtain st where st: "state_new counter_sem raw_board 4096 = Ok st ()" "fresh_state counter_sem raw_board st"
    using state_new_fresh [OF raw_board_facts(3)] by blast
  obtain n z m where b: "raw_slot_zero_initialize counter_sem
      (slot_zero_ptr_new 0 (shared_size raw_board - slot_zero_offset (mapped_ptr raw_board))) (init_mem raw_board) = Ok n (z, m)"
    "slot_zero_at 0 z" "slot_zero (slot_state st) =
      read_slot_zero (volatile_setter platform_data_f (sz_inner z) [ucast (shm_ptr_phys st + shared_size raw_board), ucast MAX_FRAGMENTS] m) z"
    "\<forall>q. read_message (slot_data (slot_state st)) q = read_message ((slot_data (slot_state st))\<lparr>mem :=
      volatile_setter platform_data_f (sz_inner z) [ucast (shm_ptr_phys st + shared_size raw_board), ucast MAX_FRAGMENTS] m\<rparr>) q"
    "tx_pos (sz_local (slot_zero (slot_state st))) = 0"
    by (rule boot_memory [OF demo_ptr_at raw_board_facts(2) st(1)])
  define w where "w = \<lparr>w_state = st, w_zero = z,
      w_mem = volatile_setter platform_data_f (sz_inner z) [ucast (shm_ptr_phys st + shared_size raw_board), ucast MAX_FRAGMENTS] m,
      w_trace = []\<rparr>"
  have v: "slot_zero (slot_state (view w)) = slot_zero (slot_state st)" using b(3) by (simp add: w_def)
  then have q: "tx_queue (view w) = tx_queue st" by (simp only:)
  have "tx_inv (view w) = tx_inv st" by (rule tx_inv_cong [OF _ _ q]) (simp_all add: w_def)
  then have "tx_inv (view w)" using fresh_tx_inv [OF st(2) raw_board_facts(3)] by simp
  moreover have "tx_of (view w) = 0" "1 \<le> tx_slots (view w)"
    using st(2) data_slots_bounds(1) [OF raw_board_facts(3)] by (simp_all add: w_def fresh_state_def)
  moreover have "visible (w_zero w) 0 (slot_base (view w) 0) (w_mem w) []"
    using b(3,5) by (simp add: visible_def w_def read_shared_state_def)
  ultimately show thesis using b(2) by (intro that [of w]) (simp_all add: w_def)
qed

section \<open>Properties\<close>

text \<open>
  C10: Sending over the shared memory, as a sequence of volatile reads and writes, is sending over the records: in every
  outcome, with the record that the memory stands for.
\<close>

theorem raw_queue_message_refines:
  assumes "slot_zero_at 0 (w_zero w)"
  shows "viewed (raw_queue_message S service msg_id c b w) = queue_message S service msg_id c b (view w)"
  using assms by (rule raw_queue_message_view)

theorem raw_queue_message_refines_witness:
  "\<exists>(w :: nat wire) w'. slot_zero_at 0 (w_zero w) \<and> raw_queue_message counter_sem None connect_id None True w = Ok () w' \<and>
    queue_message counter_sem None connect_id None True (view w) = Ok () (view w')"
proof -
  obtain w :: "nat wire" where w: "slot_zero_at 0 (w_zero w)" "tx_inv (view w)" "tx_of (view w) = 0" "1 \<le> tx_slots (view w)"
    by (rule boot_wire)
  have s: "sendable counter_sem None connect_id None (view w)"
    by (rule control_sendable) (simp add: control_message_def context_size_def)
  have t: "tx_target connect_id None (view w) < tx_slots (view w) * 4096"
    using tx_target_small [OF w(3), of None connect_id] w(3,4) by (simp add: context_size_def)
  obtain w' where "raw_queue_message counter_sem None connect_id None True w = Ok () w'"
    by (rule raw_queue_sent [OF w(1,2) s t])
  with raw_queue_message_refines [OF w(1), of counter_sem None connect_id None True] w(1) show ?thesis by auto
qed

text \<open>
  C5: The order in which a message is published, for a message that fits into the rest of the current slot.  Sending it makes
  three volatile writes.  After the first one the VideoCore still sees the messages sent before, all of them complete; with the
  second one it sees the new message as well, complete; the event that wakes it is fired last.  After none of these writes it
  sees a part of a message.  A message that does not fit is different: its first write is the padding, which spoils the last
  published message (\<open>padding_overwrites_last_message\<close>).
\<close>

theorem publication_order:
  assumes "slot_zero_at 0 (w_zero w)" "tx_inv (view w)" "sendable S service msg_id c (view w)"
    and "tx_target msg_id c (view w) = tx_of (view w)" "tx_of (view w) < tx_slots (view w) * 4096"
    and "k = tx_of (view w) div 4096" "a = slot_base (view w) k"
    and "visible (w_zero w) k a (w_mem w) ms" "k * 4096 + sum_list (map stride_of ms) = tx_of (view w)"
  shows "\<exists>w' m m1. raw_queue_message S service msg_id c b w = Ok () w' \<and> w_trace w' = w_trace w @ [m, m1, w_mem w'] \<and>
    visible (w_zero w) k a m ms \<and> event_fired (w_zero w) m = event_fired (w_zero w) (w_mem w) \<and>
    visible (w_zero w) k a m1 (ms @ [queued_message msg_id c]) \<and> event_fired (w_zero w) m1 = event_fired (w_zero w) (w_mem w) \<and>
    visible (w_zero w) k a (w_mem w') (ms @ [queued_message msg_id c]) \<and> event_fired (w_zero w) (w_mem w') = 1"
proof -
  let ?st = "view w" and ?msg = "queued_message msg_id c" and ?z = "w_zero w"
  note at = slot_zero_atD [OF assms(1)]
  have c: "context_size c \<le> 4088" using assms(3) by (simp add: sendable_def)
  have t: "tx_target msg_id c ?st < tx_slots ?st * 4096" using assms(4,5) by simp
  obtain ty w' where w': "raw_queue_message S service msg_id c b w = Ok () w'"
      "view w' = queued_state service ty msg_id c (tx_target msg_id c ?st) ?st"
    by (rule raw_queue_sent [OF assms(1-3) t])
  let ?st' = "queued_state service ty msg_id c (tx_target msg_id c ?st) ?st"
  obtain p bs m m1 t' where m: "m = store_bytes (w_mem w) (slot_addr p) bs" "4096 \<le> slot_addr p"
    "m1 = volatile_setter tx_pos_f 404 t' m" "w_mem w' = volatile_setter fired_f 48 1 m1"
    "w_trace w' = w_trace w @ [m, m1, w_mem w']" "w_zero w' = ?z"
    by (rule raw_queue_trace [OF assms(1,3,4) w'(1)])
  note f = trace_facts [OF assms(1) m(2,1,3,4)]
  have k: "k < tx_slots ?st" using assms(5,6) by (simp add: div_less_iff_less_mult)
  then have a: "1288 \<le> a" using tx_invD(5) [OF assms(2) k] by (simp add: assms(7) slot_base_def)
  have sum: "sum_list (map stride_of ms) = tx_of ?st mod 4096" using assms(6,9) by (simp add: minus_div_mult_eq_mod [symmetric])
  have "stream_at message_at stride_of (w_mem w) a ms" using assms(8) by (simp add: visible_def)
  then have "slot_stream ?st (tx_of ?st div 4096) ms"
    using a sum by (simp add: slot_stream_def assms(6,7) stream_slot_part less_imp_le)
  note s = queued_stream(1) [OF assms(2) c t assms(4) this sum, of service ty, folded assms(6)]
  have "slot_base ?st' k = a" by (simp add: assms(7) slot_base_def queued_state_simps)
  then have stream: "stream_at message_at stride_of (slot_part m) a (ms @ [?msg])"
    using s f(2) by (simp add: slot_stream_def w'(2) [symmetric])
  have pos: "k * 4096 + sum_list (map stride_of (ms @ [?msg])) = unat (volatile_getter tx_pos_f 404 (w_mem w'))"
    using queued_facts(4) [OF assms(2) c t, of service ty] assms(4,9) at(2)
    unfolding w'(2) [symmetric] by (simp add: m(6) read_shared_state_def)
  have "stream_at message_at stride_of m a ms" "stream_at message_at stride_of m1 a (ms @ [?msg])"
    "stream_at message_at stride_of (w_mem w') a (ms @ [?msg])"
    using stream f(1,2) stream_slot_part [OF a] slot_mem.stream_at_append by metis+
  moreover have "k * 4096 + sum_list (map stride_of ms) = unat (volatile_getter tx_pos_f 404 m)"
    using assms(8) f(3) at(2) by (simp add: visible_def)
  ultimately show ?thesis using w'(1) m(5) f(4-7) pos at(2) by (auto simp: visible_def)
qed

theorem publication_order_witness:
  "\<exists>(w :: nat wire) w' m m1. raw_queue_message counter_sem None connect_id None True w = Ok () w' \<and>
    w_trace w' = w_trace w @ [m, m1, w_mem w'] \<and> visible (w_zero w) 0 (slot_base (view w) 0) m [] \<and>
    visible (w_zero w) 0 (slot_base (view w) 0) m1 [queued_message connect_id None] \<and> event_fired (w_zero w) (w_mem w') = 1"
proof -
  obtain w :: "nat wire" where w: "slot_zero_at 0 (w_zero w)" "tx_inv (view w)" "tx_of (view w) = 0" "1 \<le> tx_slots (view w)"
    "visible (w_zero w) 0 (slot_base (view w) 0) (w_mem w) []"
    by (rule boot_wire)
  have s: "sendable counter_sem None connect_id None (view w)"
    by (rule control_sendable) (simp add: control_message_def context_size_def)
  have t: "tx_target connect_id None (view w) = tx_of (view w)"
    using tx_target_small [OF w(3), of None connect_id] w(3) by (simp add: context_size_def)
  have k: "0 = tx_of (view w) div 4096" and l: "tx_of (view w) < tx_slots (view w) * 4096"
    and z: "0 * 4096 + sum_list (map stride_of []) = tx_of (view w)"
    using w(3,4) by simp_all
  show ?thesis using publication_order [OF w(1,2) s t l k refl w(5) z, of True] by auto
qed

end
