(* ===== verification/Debug_Format.thy ===== *)
theory Debug_Format
  imports Shared_Memory
begin

text \<open>
  The diagnostic output: the implementations of \<^verbatim>\<open>Debug\<close> and \<^verbatim>\<open>Display\<close>.  A value of \<open>dbg\<close> is what an implementation hands to
  the formatter: structures with named fields, tuples, lists, numbers and texts.  Layout and decimal digits are up to
  the formatter.  The formatting of semaphores belongs to another crate and is an argument.
\<close>

section \<open>Formatted values\<close>

datatype dbg =
    DNum nat
  | DText string
  | DUnit string
  | DTuple string "dbg list"
  | DStruct string "(string \<times> dbg) list"
  | DList "dbg list"

definition dbg_word :: "'a::len word \<Rightarrow> dbg" where
  "dbg_word w = DNum (unat w)"

text \<open>\<^verbatim>\<open>{:#x?}\<close>: lower case hexadecimal digits after a prefix.\<close>

definition hex_digit :: "nat \<Rightarrow> char" where
  "hex_digit n = ''0123456789abcdef'' ! n"

fun hex_digits :: "nat \<Rightarrow> string" where
  "hex_digits n = (if n < 16 then [hex_digit n] else hex_digits (n div 16) @ [hex_digit (n mod 16)])"

declare hex_digits.simps [simp del]

definition hex_text :: "'a::len word \<Rightarrow> string" where
  "hex_text w = ''0x'' @ hex_digits (unat w)"

section \<open>Shared structures\<close>

definition event_debug :: "('sem option \<Rightarrow> string) \<Rightarrow> memory \<Rightarrow> 'sem event_ptr \<Rightarrow> dbg" where
  "event_debug sem_fmt m e =
     (let event = (if event_sem e \<noteq> None then sem_fmt (event_sem e)
                   else (let event = volatile_getter event_f (event_inner e) m in hex_text event))
      in DStruct ''Event''
           [(''armed'', dbg_word (volatile_getter armed_f (event_inner e) m)),
            (''fired'', dbg_word (volatile_getter fired_f (event_inner e) m)),
            (''event'', DText event)])"

text \<open>The iterator over the queue prints itself as a tuple around the list.\<close>

definition shared_state_debug :: "('sem option \<Rightarrow> string) \<Rightarrow> memory \<Rightarrow> 'sem shared_state_ptr \<Rightarrow> dbg" where
  "shared_state_debug sem_fmt m s =
     DStruct ''SharedState''
       [(''initialized'', dbg_word (volatile_getter initialized_f (ss_inner s) m)),
        (''slot_first'', dbg_word (volatile_getter slot_first_f (ss_inner s) m)),
        (''slot_last'', dbg_word (volatile_getter slot_last_f (ss_inner s) m)),
        (''slot_sync'', dbg_word (volatile_getter slot_sync_f (ss_inner s) m)),
        (''trigger'', event_debug sem_fmt m (trigger_ptr s)),
        (''tx_pos'', dbg_word (volatile_getter tx_pos_f (ss_inner s) m)),
        (''recycle'', event_debug sem_fmt m (recycle_ptr s)),
        (''slot_queue_recycle'', dbg_word (volatile_getter slot_queue_recycle_f (ss_inner s) m)),
        (''sync_trigger'', event_debug sem_fmt m (sync_trigger_ptr s)),
        (''sync_release'', event_debug sem_fmt m (sync_release_ptr s)),
        (''slot_queue'', DTuple ''Iter'' [DList (map dbg_word (volatile_getter slot_queue_f (ss_inner s) m))]),
        (''debug'', DList (map dbg_word (volatile_getter debug_f (ss_inner s) m)))]"

definition slot_info_debug :: "slot_info \<Rightarrow> dbg" where
  "slot_info_debug i =
     DStruct ''SlotInfo'' [(''use_count'', dbg_word (use_count i)), (''release_count'', dbg_word (release_count i))]"

definition slot_infos_debug :: "memory \<Rightarrow> slot_info_ptr \<Rightarrow> dbg" where
  "slot_infos_debug m s = DList (map slot_info_debug (read_slot_infos m s))"

text \<open>The type of an unknown message reaches \<^verbatim>\<open>unreachable!()\<close> also here: \<open>None\<close>.\<close>

definition message_type_name :: "message_type \<Rightarrow> string" where
  "message_type_name t =
     (case t of PADDING \<Rightarrow> ''PADDING'' | CONNECT \<Rightarrow> ''CONNECT'' | OPEN_MSG \<Rightarrow> ''OPEN'' | OPENACK \<Rightarrow> ''OPENACK''
      | CLOSE \<Rightarrow> ''CLOSE'' | DATA \<Rightarrow> ''DATA'' | BULK_RX \<Rightarrow> ''BULK_RX'' | BULK_TX \<Rightarrow> ''BULK_TX''
      | BULK_RX_DONE \<Rightarrow> ''BULK_RX_DONE'' | BULK_TX_DONE \<Rightarrow> ''BULK_TX_DONE'' | PAUSE \<Rightarrow> ''PAUSE''
      | RESUME \<Rightarrow> ''RESUME'' | REMOTE_USE \<Rightarrow> ''REMOTE_USE'' | REMOTE_RELEASE \<Rightarrow> ''REMOTE_RELEASE''
      | REMOTE_USE_ACTIVE \<Rightarrow> ''REMOTE_USE_ACTIVE'')"

definition header_debug :: "slot_header \<Rightarrow> dbg option" where
  "header_debug h =
     (case msg_type_from_id (msgid h) of None \<Rightarrow> None
      | Some t \<Rightarrow> Some (DStruct ''SlotMessageHeader''
          [(''msgid -> msg_type'', DUnit (message_type_name t)),
           (''msgid -> localport'', dbg_word (dst_port_from_id (msgid h))),
           (''msgid -> remoteport'', dbg_word (src_port_from_id (msgid h)))]))"

definition slot_zero_debug :: "('sem option \<Rightarrow> string) \<Rightarrow> memory \<Rightarrow> 'sem slot_zero_ptr \<Rightarrow> dbg" where
  "slot_zero_debug sem_fmt m z =
     DStruct ''SlotZero''
       [(''magic'', DText (shared_four_cc_fmt (volatile_getter magic_f (sz_inner z) m))),
        (''version'', dbg_word (volatile_getter version_f (sz_inner z) m)),
        (''version_min'', dbg_word (volatile_getter version_min_f (sz_inner z) m)),
        (''slot_zero_size'', dbg_word (volatile_getter slot_zero_size_f (sz_inner z) m)),
        (''slot_size'', dbg_word (volatile_getter slot_size_f (sz_inner z) m)),
        (''max_slots'', dbg_word (volatile_getter max_slots_f (sz_inner z) m)),
        (''max_slots_per_side'', dbg_word (volatile_getter max_slots_per_side_f (sz_inner z) m)),
        (''platform_data'', DList (map dbg_word (volatile_getter platform_data_f (sz_inner z) m))),
        (''master/remote'', shared_state_debug sem_fmt m (remote_ptr z)),
        (''slave/local'', shared_state_debug sem_fmt m (local_ptr z)),
        (''slots'', slot_infos_debug m (slots_ptr z))]"

section \<open>Parameters and errors\<close>

definition handle_debug :: "service_handle \<Rightarrow> dbg" where
  "handle_debug h = DTuple ''ServiceHandle'' [dbg_word h]"

definition service_params_debug :: "('ud option \<Rightarrow> dbg) \<Rightarrow> ('cb, 'ud) service_params \<Rightarrow> dbg" where
  "service_params_debug userdata_debug p =
     DStruct ''ServiceParams''
       [(''fourcc'', DText (four_cc_fmt (sp_fourcc p))),
        (''callback'', DText (case sp_callback p of Some _ \<Rightarrow> ''Some(callback)'' | None \<Rightarrow> ''None'')),
        (''userdata'', userdata_debug (sp_userdata p)),
        (''version'', dbg_word (sp_version p)),
        (''version_min'', dbg_word (sp_version_min p))]"

definition vchiq_error_debug :: "vchiq_error \<Rightarrow> dbg" where
  "vchiq_error_debug e =
     (case e of
        StateNotInitialized \<Rightarrow> DUnit ''StateNotInitialized''
      | AlreadyConnected \<Rightarrow> DUnit ''AlreadyConnected''
      | NotConnected \<Rightarrow> DUnit ''NotConnected''
      | ServiceNotFound h \<Rightarrow> DTuple ''ServiceNotFound'' [handle_debug h]
      | ServiceClosing \<Rightarrow> DUnit ''ServiceClosing''
      | ServiceAlreadyClosed h \<Rightarrow> DTuple ''ServiceAlreadyClosed'' [handle_debug h]
      | UnableToAddService \<Rightarrow> DUnit ''UnableToAddService''
      | UnableToOpenService h \<Rightarrow> DTuple ''UnableToOpenService'' [handle_debug h]
      | UnableToCloseService h \<Rightarrow> DTuple ''UnableToCloseService'' [handle_debug h]
      | DataMessageWithoutService \<Rightarrow> DUnit ''DataMessageWithoutService'')"

text \<open>\<^verbatim>\<open>Display\<close>: a text and the value behind it.\<close>

definition vchiq_error_fmt :: "vchiq_error \<Rightarrow> string \<times> dbg" where
  "vchiq_error_fmt e = (''VCHIQ-Error: '', vchiq_error_debug e)"

definition vchi_error_fmt :: "vchi_error \<Rightarrow> string \<times> dbg" where
  "vchi_error_fmt e =
     ('''', case e of
        NotInitialized \<Rightarrow> DUnit ''NotInitialized''
      | VchiServiceNotFound h \<Rightarrow> DTuple ''ServiceNotFound'' [handle_debug h])"

section \<open>What the output shows\<close>

lemma dbg_word_inject [simp]: "dbg_word a = dbg_word b \<longleftrightarrow> a = b"
  by (simp add: dbg_word_def word_unat_eq_iff)

lemma map_dbg_word_inject [simp]: "map dbg_word as = map dbg_word bs \<longleftrightarrow> as = bs"
  by (rule inj_map_eq_map) (simp add: inj_def)

lemma slot_info_debug_inject: "slot_info_debug i = slot_info_debug j \<longleftrightarrow> i = j"
  by (cases i; cases j) (simp add: slot_info_debug_def)

lemma map_slot_info_debug_inject [simp]: "map slot_info_debug is = map slot_info_debug js \<longleftrightarrow> is = js"
  by (rule inj_map_eq_map) (simp add: inj_def slot_info_debug_inject)

lemma hex_digit_inject: "m < 16 \<Longrightarrow> n < 16 \<Longrightarrow> hex_digit m = hex_digit n \<longleftrightarrow> m = n"
  unfolding hex_digit_def by (rule nth_eq_iff_index_eq) simp_all

lemma hex_digits_nonempty [simp]: "hex_digits n \<noteq> []" "[] \<noteq> hex_digits n"
  by (subst hex_digits.simps; simp)+

lemma hex_digits_inject [simp]: "hex_digits m = hex_digits n \<longleftrightarrow> m = n"
proof
  show "hex_digits m = hex_digits n \<Longrightarrow> m = n"
  proof (induction m arbitrary: n rule: hex_digits.induct)
    case (1 m)
    show ?case
    proof (cases "m < 16 \<longleftrightarrow> n < 16")
      case True
      show ?thesis
      proof (cases "m < 16")
        case True
        with \<open>m < 16 \<longleftrightarrow> n < 16\<close> "1.prems" show ?thesis by (simp add: hex_digits.simps [of m] hex_digits.simps [of n] hex_digit_inject)
      next
        case False
        with \<open>m < 16 \<longleftrightarrow> n < 16\<close> "1.prems"
        have "hex_digits (m div 16) = hex_digits (n div 16)" "hex_digit (m mod 16) = hex_digit (n mod 16)"
          by (simp_all add: hex_digits.simps [of m] hex_digits.simps [of n])
        then have "m div 16 = n div 16" "m mod 16 = n mod 16" using "1.IH" [OF False] by (simp_all add: hex_digit_inject)
        then show ?thesis by (metis div_mult_mod_eq)
      qed
    next
      case False
      with "1.prems" show ?thesis by (auto simp: hex_digits.simps [of m] hex_digits.simps [of n] split: if_splits)
    qed
  qed
qed simp

lemma hex_text_inject [simp]: "hex_text a = hex_text b \<longleftrightarrow> a = b"
  by (simp add: hex_text_def word_unat_eq_iff)

lemma char_of_u8_inject [simp]: "char_of_u8 a = char_of_u8 b \<longleftrightarrow> a = b"
proof
  assume "char_of_u8 a = char_of_u8 b"
  then have "of_char (char_of_u8 a) = (of_char (char_of_u8 b) :: nat)" by simp
  moreover have "unat a < 256" "unat b < 256" using unsigned_less [of a] unsigned_less [of b] by simp_all
  ultimately show "a = b" by (simp add: char_of_u8_def word_unat_eq_iff)
qed simp

lemma shared_four_cc_fmt_inject [simp]: "shared_four_cc_fmt v = shared_four_cc_fmt w \<longleftrightarrow> v = w"
proof
  assume a: "shared_four_cc_fmt v = shared_four_cc_fmt w"
  show "v = w"
  proof (rule bit_word_eqI)
    fix n assume n: "n < LENGTH(32)"
    have byte: "bit v (k + i) = bit w (k + i)"
      if "(ucast (drop_bit k v AND 0xFF) :: u8) = ucast (drop_bit k w AND 0xFF)" "i < 8" "k + i < 32" for k i
    proof -
      have "bit (ucast (drop_bit k v AND 0xFF) :: u8) i = bit (ucast (drop_bit k w AND 0xFF) :: u8) i" using that(1) by simp
      moreover have "bit (0xFF :: u32) i" using that(2) bit_mask_iff [of 8 i, where 'a = u32] by (simp add: mask_eq_exp_minus_1)
      ultimately show ?thesis using that(2,3) by (simp add: bit_simps)
    qed
    consider "n < 8" | "8 \<le> n" "n < 16" | "16 \<le> n" "n < 24" | "24 \<le> n" by linarith
    then show "bit v n = bit w n"
    proof cases
      case 1 with a n show ?thesis using byte [of 0 n] by (simp add: shared_four_cc_fmt_def)
    next
      case 2 with a n show ?thesis using byte [of 8 "n - 8"] by (simp add: shared_four_cc_fmt_def)
    next
      case 3 with a n show ?thesis using byte [of 16 "n - 16"] by (simp add: shared_four_cc_fmt_def)
    next
      case 4 with a n show ?thesis using byte [of 24 "n - 24"] by (simp add: shared_four_cc_fmt_def)
    qed
  qed
qed simp

text \<open>The part of a structure that is printed: everything but the word of an event for which there is a semaphore.\<close>

definition event_shown :: "'sem event_accessor \<Rightarrow> 'sem event_accessor" where
  "event_shown e = (if ev_sem e = None then e else e\<lparr>event_word := 0\<rparr>)"

definition shared_state_shown :: "'sem shared_state \<Rightarrow> 'sem shared_state" where
  "shared_state_shown s = s\<lparr>trigger := event_shown (trigger s), recycle := event_shown (recycle s),
     sync_trigger := event_shown (sync_trigger s), sync_release := event_shown (sync_release s)\<rparr>"

definition slot_zero_shown :: "'sem slot_zero \<Rightarrow> 'sem slot_zero" where
  "slot_zero_shown z = z\<lparr>sz_local := shared_state_shown (sz_local z), sz_remote := shared_state_shown (sz_remote z)\<rparr>"

lemma event_debug_exact [simp]:
  "event_debug sem_fmt m e = event_debug sem_fmt m' e \<longleftrightarrow> event_shown (read_event m e) = event_shown (read_event m' e)"
  by (simp add: event_debug_def event_shown_def read_event_def)

lemma shared_state_debug_exact [simp]:
  "shared_state_debug sem_fmt m s = shared_state_debug sem_fmt m' s \<longleftrightarrow>
     shared_state_shown (read_shared_state m s) = shared_state_shown (read_shared_state m' s)"
  by (auto simp: shared_state_debug_def shared_state_shown_def read_shared_state_def)

text \<open>
  The diagnostic output of the slot zero is exact: two memories print alike if and only if the structures read from them
  agree in every field, the word of an event with a semaphore excepted, in whose place the semaphore is printed.
\<close>

theorem slot_zero_debug_exact:
  "slot_zero_debug sem_fmt m z = slot_zero_debug sem_fmt m' z \<longleftrightarrow>
     slot_zero_shown (read_slot_zero m z) = slot_zero_shown (read_slot_zero m' z)"
  by (auto simp: slot_zero_debug_def slot_infos_debug_def slot_zero_shown_def read_slot_zero_def)

text \<open>Errors are printed distinctly, with the handle of the service.\<close>

lemma vchiq_error_fmt_inject: "vchiq_error_fmt e = vchiq_error_fmt e' \<longleftrightarrow> e = e'"
  by (cases e; cases e') (simp_all add: vchiq_error_fmt_def vchiq_error_debug_def handle_debug_def)

lemma vchi_error_fmt_inject: "vchi_error_fmt e = vchi_error_fmt e' \<longleftrightarrow> e = e'"
  by (cases e; cases e') (simp_all add: vchi_error_fmt_def handle_debug_def)

text \<open>
  The header of a message that the driver has built prints its type, and the destination as local, the source as remote
  port.  So it reads for received messages; for sent ones the names are exchanged.
\<close>

lemma header_debug_make_msg_id:
  "unat src_port < 4096 \<Longrightarrow> unat dst_port < 4096 \<Longrightarrow>
   header_debug \<lparr>msgid = make_msg_id t src_port dst_port, msg_size = n\<rparr> =
     Some (DStruct ''SlotMessageHeader'' [(''msgid -> msg_type'', DUnit (message_type_name t)),
       (''msgid -> localport'', dbg_word dst_port), (''msgid -> remoteport'', dbg_word src_port)])"
  by (simp add: header_debug_def make_msg_id_type make_msg_id_src make_msg_id_dst)

end
