(* ===== verification/Kernel_Boot.thy ===== *)
theory Kernel_Boot
  imports Vchiq_Prelude
begin

text \<open>
  How the test kernel comes up: \<^verbatim>\<open>alive\<close> and \<^verbatim>\<open>run\<close> of \<^verbatim>\<open>src/main.rs\<close> and the panic handler of \<^verbatim>\<open>src/panic.rs\<close>.  They call
  the MMU, UART, interrupt and scheduler crates; such calls are logged in their order.  What the mailbox answers, whether the
  UART accepts its settings and what thinking does are arguments.
\<close>

section \<open>Starting the cores\<close>

datatype boot_call =
    MmuInitialize u32 u32 u32
  | UartInitialize u32 u32
  | ConsoleReplace
  | IrqInitialize
  | EnableInterrupts
  | BrainInit
  | SpawnTest

definition alive_first :: "bool \<Rightarrow> boot_call list \<Rightarrow> boot_call list" where
  "alive_first uart_ok calls =
     (let calls = calls @ [UartInitialize 250000000 115200];
          calls = (if uart_ok then calls @ [ConsoleReplace] else calls);
          calls = calls @ [IrqInitialize];
          calls = calls @ [EnableInterrupts];
          calls = calls @ [BrainInit]
      in calls @ [SpawnTest])"

definition alive :: "(u32 \<times> u32) option \<Rightarrow> bool \<Rightarrow> u32 \<Rightarrow> boot_call list \<Rightarrow> ('e, unit, boot_call list) res" where
  "alive get_vc_memory uart_ok core calls =
     (case get_vc_memory of
        None \<Rightarrow> Panic ''Fatal issue getting VC memory split''
      | Some (vc_mem_start, vc_mem_size) \<Rightarrow>
          (let calls = calls @ [MmuInitialize core vc_mem_start vc_mem_size]
           in Ok () (if core = 0 then alive_first uart_ok calls else calls)))"

text \<open>The bootstrapping code enters \<^verbatim>\<open>alive\<close> for one core after the other.\<close>

fun alive_cores ::
  "(u32 \<Rightarrow> (u32 \<times> u32) option) \<Rightarrow> bool \<Rightarrow> u32 list \<Rightarrow> boot_call list \<Rightarrow> ('e, unit, boot_call list) res" where
  "alive_cores mailbox uart_ok [] calls = Ok () calls"
| "alive_cores mailbox uart_ok (core # cores) calls =
     bind_res (alive (mailbox core) uart_ok core calls) (\<lambda>_. alive_cores mailbox uart_ok cores) (\<lambda>_ c. c)"

section \<open>Functions that never return\<close>

text \<open>\<^verbatim>\<open>loop {}\<close>: \<open>None\<close> is not returning.\<close>

partial_function (option) forever :: "'s \<Rightarrow> 's option" where
  "forever s = forever s"

datatype console_line =
    BrainThinks u32
  | PanicAt string u32 u32
  | PanicSomewhere

definition run :: "(console_line list \<Rightarrow> console_line list option) \<Rightarrow> u32 \<Rightarrow> console_line list \<Rightarrow> console_line list option" where
  "run do_thinking core out =
     (case do_thinking (out @ [BrainThinks core]) of None \<Rightarrow> None | Some out \<Rightarrow> forever out)"

definition panic_line :: "(string \<times> u32 \<times> u32) option \<Rightarrow> console_line" where
  "panic_line location = (case location of Some (file, line, column) \<Rightarrow> PanicAt file line column | None \<Rightarrow> PanicSomewhere)"

definition panic :: "(string \<times> u32 \<times> u32) option \<Rightarrow> console_line list \<Rightarrow> console_line list option" where
  "panic location out = forever (out @ [panic_line location])"

section \<open>What holds\<close>

lemma forever_None: "forever s = None"
proof (cases "forever s")
  case (Some t)
  have "False" by (rule forever.raw_induct [where P = "\<lambda>_ _. False", OF _ Some])
  then show ?thesis ..
qed

lemma run_never_returns: "run do_thinking core out = None"
  by (simp add: run_def forever_None split: option.split)

lemma panic_never_returns: "panic location out = None"
  by (simp add: panic_def forever_None)

lemma alive_cores_panics:
  "(\<exists>core \<in> set cores. mailbox core = None) \<Longrightarrow>
   alive_cores mailbox uart_ok cores calls = Panic ''Fatal issue getting VC memory split''"
  by (induction cores arbitrary: calls) (auto simp: alive_def Let_def split: option.split)

text \<open>What \<^verbatim>\<open>alive\<close> adds to the log of one core.\<close>

definition core_calls :: "(u32 \<Rightarrow> (u32 \<times> u32) option) \<Rightarrow> bool \<Rightarrow> u32 \<Rightarrow> boot_call list" where
  "core_calls mailbox uart_ok core =
     (case mailbox core of None \<Rightarrow> [] | Some (a, n) \<Rightarrow> MmuInitialize core a n # (if core = 0 then alive_first uart_ok [] else []))"

lemma alive_cores_log:
  "\<forall>core \<in> set cores. mailbox core \<noteq> None \<Longrightarrow>
   alive_cores mailbox uart_ok cores calls = Ok () (calls @ concat (map (core_calls mailbox uart_ok) cores))"
  by (induction cores arbitrary: calls) (auto simp: alive_def alive_first_def core_calls_def Let_def)

lemma spawns_of_core: "mailbox core \<noteq> None \<Longrightarrow> count_list (core_calls mailbox uart_ok core) SpawnTest = (if core = 0 then 1 else 0)"
  by (auto simp: core_calls_def alive_first_def Let_def)

text \<open>
  Booting the cores one after the other, core 0 among them once, ends; the test is spawned exactly once, and every core
  has begun with its MMU.
\<close>

theorem cores_come_alive:
  assumes "distinct cores" "0 \<in> set cores" "\<forall>core \<in> set cores. mailbox core \<noteq> None"
  shows "\<exists>calls. alive_cores mailbox uart_ok cores [] = Ok () calls \<and> count_list calls SpawnTest = 1 \<and>
    calls = concat (map (core_calls mailbox uart_ok) cores) \<and>
    (\<forall>core \<in> set cores. \<exists>a n rest. core_calls mailbox uart_ok core = MmuInitialize core a n # rest)"
proof -
  have "count_list (concat (map (core_calls mailbox uart_ok) cores)) SpawnTest = count_list cores 0"
    using assms(3) by (induction cores) (auto simp: spawns_of_core)
  also have "\<dots> = 1" using assms(1,2) by (induction cores) (auto simp: count_list_0_iff)
  finally have "count_list (concat (map (core_calls mailbox uart_ok) cores)) SpawnTest = 1" .
  moreover have "\<forall>core \<in> set cores. \<exists>a n rest. core_calls mailbox uart_ok core = MmuInitialize core a n # rest"
    using assms(3) by (auto simp: core_calls_def)
  ultimately show ?thesis using alive_cores_log [OF assms(3), where calls = "[]"] by auto
qed

end
