(* ===== verification/Event_Protocol.thy ===== *)
theory Event_Protocol
  imports Event
begin

text \<open>
  An event between its two sides.  The structure is a \<^verbatim>\<open>LocalEvent\<close> for the side that waits on it and a \<^verbatim>\<open>RemoteEvent\<close>
  for the side that fires it.  Waiting (\<^verbatim>\<open>poll\<close>) and firing (\<^verbatim>\<open>signal_remote\<close>) of \<^verbatim>\<open>src/vchiq/shared/event.rs\<close> are given access
  by access here, so that the accesses of the two sides interleave.  The VideoCore is taken to fire its events in the same
  way.  The barriers between the accesses keep their order; each access is seen by both sides at once.
\<close>

section \<open>The accesses\<close>

text \<open>Where a poll stands: the next access, or what it has returned; \<open>Not_Owned\<close> is its panic.\<close>

datatype poll_place =
    Check_Fired
  | Set_Armed
  | Recheck_Fired
  | Try_Down
  | Set_Unarmed
  | Clear_Fired
  | Returned "unit poll"
  | Not_Owned

fun poll_access :: "'sem sem_ops \<Rightarrow> poll_place \<Rightarrow> 'sem event_accessor \<Rightarrow> poll_place \<times> 'sem event_accessor" where
  "poll_access S Check_Fired e = (if fired e = 0 then Set_Armed else Clear_Fired, e)"
| "poll_access S Set_Armed e = (Recheck_Fired, e\<lparr>armed := 1\<rparr>)"
| "poll_access S Recheck_Fired e = (if fired e = 0 then Try_Down else Clear_Fired, e)"
| "poll_access S Try_Down e =
     (case ev_sem e of
        Some s \<Rightarrow> (case sem_try_down S s of
            None \<Rightarrow> (Returned Pending, e)
          | Some s' \<Rightarrow> (Set_Unarmed, e\<lparr>ev_sem := Some s'\<rparr>))
      | None \<Rightarrow> (Not_Owned, e))"
| "poll_access S Set_Unarmed e = (Returned (Ready ()), e\<lparr>armed := 0\<rparr>)"
| "poll_access S Clear_Fired e = (Returned (Ready ()), e\<lparr>fired := 0\<rparr>)"
| "poll_access S (Returned r) e = (Returned r, e)"
| "poll_access S Not_Owned e = (Not_Owned, e)"

datatype signal_place =
    Set_Fired
  | Check_Armed

text \<open>The value tells whether the doorbell of the other side is rung.\<close>

fun signal_access :: "signal_place \<Rightarrow> 'sem event_accessor \<Rightarrow> bool \<times> signal_place \<times> 'sem event_accessor" where
  "signal_access Set_Fired e = (False, Check_Armed, e\<lparr>fired := 1\<rparr>)"
| "signal_access Check_Armed e = (armed e \<noteq> 0, Set_Fired, e)"

text \<open>Without interference the accesses are the operations of \<open>Event\<close>.\<close>

fun poll_outcome :: "poll_place \<times> 'sem event_accessor \<Rightarrow> (unit poll, 'sem event_accessor) result" where
  "poll_outcome (Returned r, e) = Ok r e"
| "poll_outcome (Not_Owned, e) = Panic ''called wait on event not owned by ARM!''"
| "poll_outcome (_, e) = Undef"

lemma event_poll_accesses:
  "poll_outcome ((case_prod (poll_access S) ^^ 5) (Check_Fired, e)) = event_poll S id e"
  by (auto simp: eval_nat_numeral event_poll_def Let_def split: option.split)

lemma event_poll_interrupted:
  "fired e = 0 \<Longrightarrow> poll_outcome ((case_prod (poll_access S) ^^ 3)
     (apsnd vc ((case_prod (poll_access S) ^^ 2) (Check_Fired, e)))) = event_poll S vc e"
  by (auto simp: eval_nat_numeral event_poll_def Let_def split: option.split)

lemma signal_remote_accesses:
  "signal_access Set_Fired e = (False, Check_Armed, e1) \<Longrightarrow> signal_access Check_Armed e1 = (bell, Set_Fired, e2) \<Longrightarrow>
   signal_remote e b = (e2, if bell then ring_vc_doorbell b else b)"
  by (auto simp: signal_remote_def Let_def)

section \<open>Interleaving\<close>

record 'sem handshake =
  hs_poll :: poll_place
  hs_signal :: signal_place
  hs_event :: "'sem event_accessor"
  hs_firings :: nat
  hs_bells :: nat

text \<open>Both sides move in any order; the other side may fire again and again.\<close>

inductive hs_step :: "'sem sem_ops \<Rightarrow> 'sem handshake \<Rightarrow> 'sem handshake \<Rightarrow> bool" for S where
  waiter: "poll_access S (hs_poll h) (hs_event h) = (p, e) \<Longrightarrow> hs_step S h (h\<lparr>hs_poll := p, hs_event := e\<rparr>)"
| signaller: "signal_access (hs_signal h) (hs_event h) = (bell, s, e) \<Longrightarrow>
    hs_step S h (h\<lparr>hs_signal := s, hs_event := e,
      hs_firings := (if hs_signal h = Set_Fired then hs_firings h + 1 else hs_firings h),
      hs_bells := (if bell then hs_bells h + 1 else hs_bells h)\<rparr>)"

definition hs_start :: "'sem event_accessor \<Rightarrow> 'sem handshake" where
  "hs_start e = \<lparr>hs_poll = Check_Fired, hs_signal = Set_Fired, hs_event = e, hs_firings = 0, hs_bells = 0\<rparr>"

text \<open>
  What holds at every place of a poll that has not seen the event fired: a firing is still to be seen; from the second
  look on, the event is armed; and a firing that comes after it has been or will be announced by the doorbell.
\<close>

definition hs_inv :: "'sem handshake \<Rightarrow> bool" where
  "hs_inv h \<longleftrightarrow>
     (hs_poll h \<notin> {Clear_Fired, Returned (Ready ())} \<and> 0 < hs_firings h \<longrightarrow> fired (hs_event h) = 1) \<and>
     (hs_poll h \<in> {Recheck_Fired, Try_Down, Returned Pending} \<longrightarrow> armed (hs_event h) = 1) \<and>
     (hs_poll h \<in> {Try_Down, Returned Pending} \<and> fired (hs_event h) \<noteq> 0 \<longrightarrow> hs_signal h = Check_Armed \<or> 0 < hs_bells h)"

lemma hs_inv_start: "hs_inv (hs_start e)"
  by (simp add: hs_inv_def hs_start_def)

lemma hs_step_inv: "hs_step S h h' \<Longrightarrow> hs_inv h \<Longrightarrow> hs_inv h'"
proof (induction rule: hs_step.induct)
  case (waiter h p e)
  then show ?case by (cases "hs_poll h") (auto simp: hs_inv_def split: if_splits option.splits)
next
  case (signaller h bell s e)
  then show ?case by (cases "hs_signal h") (auto simp: hs_inv_def)
qed

lemma hs_runs_inv: "(hs_step S)\<^sup>*\<^sup>* h h' \<Longrightarrow> hs_inv h \<Longrightarrow> hs_inv h'"
  by (induction rule: rtranclp_induct) (auto intro: hs_step_inv)

text \<open>
  C29: No wake-up is lost.  Let the two sides access an event in any order.  When a poll has ended pending, although the
  other side has fired the event since the poll began, then the doorbell has been rung, the event is still armed and fired, and
  the next poll is ready.  So a wait that goes to sleep is either not fired at or woken.
\<close>

theorem event_no_lost_wakeup:
  assumes "(hs_step S)\<^sup>*\<^sup>* (hs_start e) h" "hs_poll h = Returned Pending" "hs_signal h = Set_Fired" "0 < hs_firings h"
  shows "0 < hs_bells h \<and> armed (hs_event h) = 1 \<and> fired (hs_event h) = 1 \<and>
    event_poll S vc (hs_event h) = Ok (Ready ()) ((hs_event h)\<lparr>fired := 0\<rparr>)"
  using hs_runs_inv [OF assms(1) hs_inv_start] assms(2-4) by (auto simp: hs_inv_def event_poll_def)

text \<open>The event is fired while the poll is between its second look and its end.\<close>

theorem event_no_lost_wakeup_witness:
  "\<exists>h. (hs_step counter_sem)\<^sup>*\<^sup>* (hs_start \<lparr>armed = 0, fired = 0, event_word = 0, ev_sem = Some (0 :: nat)\<rparr>) h \<and>
    hs_poll h = Returned Pending \<and> 0 < hs_bells h \<and>
    event_poll counter_sem id (hs_event h) = Ok (Ready ()) ((hs_event h)\<lparr>fired := 0\<rparr>)"
proof -
  let ?e = "\<lparr>armed = 0, fired = 0, event_word = 0, ev_sem = Some (0 :: nat)\<rparr>"
  let ?h = "\<lambda>p s e f b. \<lparr>hs_poll = p, hs_signal = s, hs_event = e, hs_firings = f, hs_bells = b\<rparr>"
  let ?a = "?e\<lparr>armed := 1\<rparr>" and ?f = "?e\<lparr>armed := 1, fired := 1\<rparr>"
  have s1: "hs_step counter_sem (hs_start ?e) (?h Set_Armed Set_Fired ?e 0 0)"
    using hs_step.waiter [of counter_sem "hs_start ?e"] by (simp add: hs_start_def)
  have s2: "hs_step counter_sem (?h Set_Armed Set_Fired ?e 0 0) (?h Recheck_Fired Set_Fired ?a 0 0)"
    using hs_step.waiter [of counter_sem "?h Set_Armed Set_Fired ?e 0 0"] by simp
  have s3: "hs_step counter_sem (?h Recheck_Fired Set_Fired ?a 0 0) (?h Try_Down Set_Fired ?a 0 0)"
    using hs_step.waiter [of counter_sem "?h Recheck_Fired Set_Fired ?a 0 0"] by simp
  have s4: "hs_step counter_sem (?h Try_Down Set_Fired ?a 0 0) (?h Try_Down Check_Armed ?f 1 0)"
    using hs_step.signaller [of "?h Try_Down Set_Fired ?a 0 0" False] by simp
  have s5: "hs_step counter_sem (?h Try_Down Check_Armed ?f 1 0) (?h Try_Down Set_Fired ?f 1 1)"
    using hs_step.signaller [of "?h Try_Down Check_Armed ?f 1 0" True] by simp
  have s6: "hs_step counter_sem (?h Try_Down Set_Fired ?f 1 1) (?h (Returned Pending) Set_Fired ?f 1 1)"
    using hs_step.waiter [of counter_sem "?h Try_Down Set_Fired ?f 1 1"] by (simp add: counter_sem_def counter_down_def)
  have r: "(hs_step counter_sem)\<^sup>*\<^sup>* (hs_start ?e) (?h (Returned Pending) Set_Fired ?f 1 1)"
    using s1 s2 s3 s4 s5 s6 by (meson r_into_rtranclp rtranclp.rtrancl_into_rtrancl)
  from event_no_lost_wakeup [OF r, of id] r show ?thesis by (intro exI [of _ "?h (Returned Pending) Set_Fired ?f 1 1"]) simp
qed

end
