(* ===== verification/Spec2Isabelle.thy ===== *)
theory Spec2Isabelle
  imports Ping Shared_Transmit Debug_Format Kernel_Boot Event_Protocol
begin

text \<open>
  A verification library for the VCHIQ driver of the RusPiRo kernel: the message interface between
  the ARM cores and the VideoCore of a Raspberry Pi.

  \<^bold>\<open>The program.\<close>  Clients use the VCHI instance (\<^verbatim>\<open>src/vchi/instance.rs\<close>) to connect, to open and close services
  and to exchange messages with them.  It keeps a table of services and sits on a VCHIQ instance
  (\<^verbatim>\<open>src/vchiq/instance/mod.rs\<close>), which owns the state (\<^verbatim>\<open>src/vchiq/state.rs\<close>) and a queue of completions.  The state
  keeps the services, quotas and positions, and writes messages into the slots of a memory region shared with
  the VideoCore (\<^verbatim>\<open>src/vchiq/shared/\<close>).  A slot handler (\<^verbatim>\<open>src/vchiq/slothandler.rs\<close>) reads what the
  VideoCore has written, answers the protocol messages, and hands data to the callback of the service, which
  fills the message queue of the service and the completion queue.  The completion handler
  (\<^verbatim>\<open>src/vchi/completion.rs\<close>) takes completions and calls the callbacks of the clients.  The test program
  (\<^verbatim>\<open>src/main.rs\<close>) is such a client.

  \<^bold>\<open>The theories\<close>, in the order in which they build on each other:
  \<^item> \<open>Vchiq_Prelude\<close>: machine integers, the outcome type \<open>res\<close> (result, error, panic, blocked, undefined
    behaviour) with its sequencing, semaphores as an argument with their laws \<open>sem_laws\<close>, byte memory, lemmas on words
    and lists.  \<open>Vchiq_Types\<close>: \<^verbatim>\<open>src/types.rs\<close>, the errors and the constants of \<^verbatim>\<open>config.rs\<close>.
  \<^item> \<open>Doorbell\<close>: \<^verbatim>\<open>doorbell.rs\<close>, its registers and operations.  \<open>Slot_Message\<close>, \<open>Slot\<close>, \<open>Event\<close>, \<open>Slot_Zero\<close>: the shared
    structures, one theory per file or group of files of \<^verbatim>\<open>src/vchiq/shared/\<close>, as records.  Round trips of message ids and
    of messages in memory, strides, bounds checks, the layout that \<^verbatim>\<open>SlotZero::initialize\<close> establishes.  \<open>Event_Protocol\<close>: the
    two sides of an event access by access; in no interleaving a wake-up is lost.
  \<^item> \<open>Shared_Memory\<close>: the same structures as \<^verbatim>\<open>repr(C)\<close> bytes behind raw pointers, with the getters and setters that
    \<^verbatim>\<open>macros.rs\<close> generates; the locale \<open>volatile_field\<close> is the contract of a field, interpreted for the types of fields.
    \<open>Shared_Access\<close>: the operations of the accessors as sequences of volatile reads and writes, which refine the
    operations on the records (the locale \<open>event_part\<close> lifts those on an event to the structure around it); the bytes
    that the VideoCore finds; slot zero and messages do not touch.  \<open>Debug_Format\<close>: the \<^verbatim>\<open>Debug\<close> and \<^verbatim>\<open>Display\<close>
    implementations of the shared structures, headers, parameters and errors; what the output shows and what it hides.
  \<^item> \<open>Service\<close>, \<open>Vchiq_State\<close>: \<^verbatim>\<open>service.rs\<close> and the record, construction, initialization and lookups of
    \<^verbatim>\<open>state.rs\<close>.  \<open>Boot\<close>: what \<^verbatim>\<open>State::new\<close> establishes, on any suitable platform and on a concrete one.
  \<^item> \<open>Queueing\<close>: \<^verbatim>\<open>reserve_space\<close> and \<^verbatim>\<open>queue_message\<close>, with the invariant \<open>tx_inv\<close> of the transmit side.
    \<open>Transmit\<close>: what sending achieves, against the stream that a receiver parses; quotas; where sending stops.
    \<open>Shared_Transmit\<close>: sending as single volatile writes to the one memory that the VideoCore reads at the same time; it
    refines sending over the records, and the order of the writes publishes only complete messages.
  \<^item> \<open>Service_Ops\<close>: \<^verbatim>\<open>connect\<close>, \<^verbatim>\<open>add_service\<close>, \<^verbatim>\<open>open_service\<close>, \<^verbatim>\<open>close_service\<close> and what they call; the locale
    \<open>service_table\<close> is the contract of the table of services, interpreted on the state.
  \<^item> \<open>Ring\<close>: the locale \<open>ring_queue\<close> of ring buffers with free running counters and their refinement to lists.
    \<open>Completion\<close>: \<^verbatim>\<open>instance/completion.rs\<close> and the callback and queue operations of \<^verbatim>\<open>instance/mod.rs\<close>; both queues
    interpret the locale, and messages and completions are first in, first out.
  \<^item> \<open>Slot_Handler\<close>: \<^verbatim>\<open>slothandler.rs\<close>; the loop is the fold of handling the messages of a stream, and it ends.
    \<open>Instance\<close>: the operations of the VCHIQ instance.  \<open>Handshake\<close>: connecting, opening, refusing and closing,
    each from the request over the answer of the VideoCore to the end of the wait.
  \<^item> \<open>Lifecycle\<close>: the life cycle of services as a relation, the invariant of the state, and the primitive effects
    that every operation is composed of.  \<open>System\<close>: the step relation of the whole system (calls of
    clients, polls of waiting futures, received messages, writes of the VideoCore) and its runs; each step is a
    sequence of effects.  \<open>Reachable\<close>: the invariant in all reachable states, the life cycle along runs, which
    received messages are handled and which stop the driver, and that client data is addressed correctly.
  \<^item> \<open>Vchi\<close>: \<^verbatim>\<open>vchi/instance.rs\<close>, \<^verbatim>\<open>vchi/service.rs\<close>, \<^verbatim>\<open>vchi/completion.rs\<close>.  \<open>Vchi_Properties\<close>: order of the
    callbacks, the service table under opening and closing, errors.
  \<^item> \<open>Session\<close>: one service from opening to closing, every step with what it does to the state.  \<open>Ping\<close>: the test program
    of \<^verbatim>\<open>main.rs\<close>, run together with the slot handler and the completion handler; it passes when the VideoCore answers,
    and in every interleaving it ends only after a reply.  \<open>Kernel_Boot\<close>: \<^verbatim>\<open>alive\<close>, \<^verbatim>\<open>run\<close> and the panic handler; the cores
    come up one after the other, and the test is spawned once.
  \<^item> This theory: the state of a new driver describes one memory, which is that of the byte level initialization.

  \<^bold>\<open>How the code is represented.\<close>  Structs are records, enums are datatypes, integers keep their width.  An operation
  maps a state to an outcome with the new state; \<^verbatim>\<open>Err\<close> carries the state as well, since an error does not undo
  what has happened.  Locks disappear where an operation holds them throughout; \<open>queue_message\<close> is one step although the code
  releases the lock of the slots between reserving and storing, which matters only when several cores send at once.  A \<^verbatim>\<open>try_lock\<close> that
  fails is a poll that does nothing and is left out.  A future that suspends is split
  at its suspension point into a first part and a repeatable poll (\<open>connect\<close> and \<open>connect_poll\<close>, \<open>create_start\<close> and
  \<open>create_poll\<close>, \<open>close_start\<close> and \<open>close_poll\<close>, \<open>dequeue_start\<close> and \<open>dequeue_resume\<close>); \<open>System\<close>
  interleaves the parts.  Semaphores, allocator, memory mapping, the mailbox and the byte layout of \<^verbatim>\<open>OpenPayload\<close>,
  which come from other crates or from the compiler, are arguments; what is assumed of them is named in the
  theorems (\<open>sem_laws\<close>, \<open>platform_ok\<close>, \<open>mailbox_accepts\<close>, a bound on the encoded payload).  Callbacks of
  clients are opaque and their invocations are logged.

  \<^bold>\<open>Loops and bounds.\<close>  The two waits for quota and the loop of the slot handler are
  \<^verbatim>\<open>partial_function (option)\<close>, without fuel: \<open>None\<close> means that they do not end, and that they do end is proved where it
  holds.  Theorems about runs bound the number of steps only by the width of the handle counter,
  \<open>2 ^ 64\<close>.  Messages are bounded by the 4088 bytes that fit into a slot with their header; the code does not check this, and
  \<open>oversized_message_leaves_slot\<close> shows what happens beyond.  In runs of the system (\<open>sys_step\<close>) clients keep to this bound, and the
  VideoCore does not write to the queue of slots of the ARM side.  Accesses to messages are aligned to 8 bytes, as their callers
  make them.

  \<^bold>\<open>What the modelling showed.\<close>  Some theorems state behaviour that is not intended: the padding overwrites the
  last message (\<open>padding_overwrites_last_message\<close>), slots and data quota are never given back
  (\<open>queue_message_slots_exhausted\<close>, \<open>data_quota_never_recovers\<close>), the receiver looks up a new slot with the wrong position
  (\<open>receives_from_wrong_slot\<close>), a refused service is reported as open (\<open>refusal_reported_as_success\<close>), a remote close is
  not answered (\<open>remote_close_left_open\<close>), a full message queue loses its oldest message (\<open>full_queue_loses_oldest\<close>),
  fragments lie outside of the allocation (\<open>fragments_outside_allocation\<close>), and unexpected messages or completions panic
  (\<open>handle_message_exact\<close>, \<open>unknown_completion_panics\<close>).  Reception is therefore stated for streams in one slot.

  \<^bold>\<open>Not modelled.\<close>  The other crates, \<^verbatim>\<open>build.rs\<close>, which copies the linker script, logging, memory barriers, and the derived
  \<^verbatim>\<open>Debug\<close> of types that are only logged.  The files \<^verbatim>\<open>state copy.rs\<close>, \<^verbatim>\<open>instance.rs\<close> and \<^verbatim>\<open>completionhandler.rs\<close> under
  \<^verbatim>\<open>src/\<close> are reached by no module declaration: they are never compiled and are no part of the program.  Waking of tasks
  is scheduling: a waiting future may be polled at any time.
\<close>

section \<open>One memory\<close>

text \<open>
  C21: The state that \<^verbatim>\<open>State::new\<close> returns describes one memory.  There is the memory that the field by field initialization
  of the slot zero, followed by the write of the platform data, leaves behind; reading it as a slot zero gives
  the record of the state, and reading messages from it gives what the slot accessor of the state reads.
\<close>

theorem boot_memory_image:
  assumes "slot_zero_at 0 z0" "init_slot_zero P = read_slot_zero (init_mem P) z0" "state_new S P h = Ok st ()"
  shows "\<exists>n z m m'. raw_slot_zero_initialize S (slot_zero_ptr_new 0 (shared_size P - slot_zero_offset (mapped_ptr P))) (init_mem P) = Ok n (z, m) \<and>
    m' = volatile_setter platform_data_f (sz_inner z) [ucast (shm_ptr_phys st + shared_size P), ucast MAX_FRAGMENTS] m \<and>
    slot_zero (slot_state st) = read_slot_zero m' z \<and>
    (\<forall>q. read_message (slot_data (slot_state st)) q = read_message ((slot_data (slot_state st))\<lparr>mem := m'\<rparr>) q)"
proof -
  obtain n z m where "raw_slot_zero_initialize S (slot_zero_ptr_new 0 (shared_size P - slot_zero_offset (mapped_ptr P))) (init_mem P) = Ok n (z, m)"
    "slot_zero_at 0 z" "slot_zero (slot_state st) =
      read_slot_zero (volatile_setter platform_data_f (sz_inner z) [ucast (shm_ptr_phys st + shared_size P), ucast MAX_FRAGMENTS] m) z"
    "\<forall>q. read_message (slot_data (slot_state st)) q = read_message ((slot_data (slot_state st))\<lparr>mem :=
      volatile_setter platform_data_f (sz_inner z) [ucast (shm_ptr_phys st + shared_size P), ucast MAX_FRAGMENTS] m\<rparr>) q"
    "tx_pos (sz_local (slot_zero (slot_state st))) = 0"
    by (rule boot_memory [OF assms])
  then show ?thesis by blast
qed

theorem boot_memory_image_witness:
  "\<exists>st n z m. state_new counter_sem raw_board 4096 = Ok st () \<and>
    raw_slot_zero_initialize counter_sem (slot_zero_ptr_new 0 (shared_size raw_board - slot_zero_offset (mapped_ptr raw_board)))
      (\<lambda>_. 0) = Ok n (z, m) \<and>
    slot_zero (slot_state st) = read_slot_zero
      (volatile_setter platform_data_f (sz_inner z) [ucast (shm_ptr_phys st + shared_size raw_board), ucast MAX_FRAGMENTS] m) z"
proof -
  obtain st where st: "state_new counter_sem raw_board 4096 = Ok st ()" using state_new_fresh [OF raw_board_facts(3)] by blast
  with boot_memory_image [OF demo_ptr_at raw_board_facts(2) st] raw_board_facts(1) show ?thesis by auto
qed

end
